(* ===== verification/Prelude.thy ===== *)
theory Prelude
  imports Main "HOL-Library.Word" "HOL-Library.List_Lexorder" "HOL-Library.Char_ord"
    "HOL-Library.Product_Lexorder"
begin

text \<open>
  Shared vocabulary of the development: machine integers and bytes, the result-and-state
  monad in which the fallible operations are written, loops over lists, the ordered maps
  that stand for \<^verbatim>\<open>BTreeMap\<close>, and the decimal rendering of integers.

  A Rust \<^verbatim>\<open>String\<close> used as an identifier is a \<^typ>\<open>string\<close>, its UTF-8 bytes; the list order
  of \<^verbatim>\<open>List_Lexorder\<close> over \<^verbatim>\<open>Char_ord\<close> is the byte order of \<^verbatim>\<open>str::cmp\<close>.
\<close>

type_synonym u8 = "8 word"
type_synonym u32 = "32 word"
type_synonym u64 = "64 word"
type_synonym bytes = "8 word list"

section \<open>Results\<close>

text \<open>
  \<^verbatim>\<open>Result<A, E>\<close> is \<^typ>\<open>'e + 'a\<close> with \<^const>\<open>Inl\<close> for the error. A method that may change
  state before it fails is a function of the state that returns the result together with the
  state at the point where it returned, so that an early return keeps what was already written.
\<close>

type_synonym ('s, 'e, 'a) rm = "'s \<Rightarrow> ('e + 'a) \<times> 's"

definition ret :: "'a \<Rightarrow> ('s, 'e, 'a) rm" where
  "ret a = (\<lambda>s. (Inr a, s))"

definition throw :: "'e \<Rightarrow> ('s, 'e, 'a) rm" where
  "throw e = (\<lambda>s. (Inl e, s))"

definition bind :: "('s, 'e, 'a) rm \<Rightarrow> ('a \<Rightarrow> ('s, 'e, 'b) rm) \<Rightarrow> ('s, 'e, 'b) rm" where
  "bind m f = (\<lambda>s. case m s of (Inl e, s') \<Rightarrow> (Inl e, s') | (Inr a, s') \<Rightarrow> f a s')"

definition gets :: "('s \<Rightarrow> 'a) \<Rightarrow> ('s, 'e, 'a) rm" where
  "gets f = (\<lambda>s. (Inr (f s), s))"

definition modify :: "('s \<Rightarrow> 's) \<Rightarrow> ('s, 'e, unit) rm" where
  "modify f = (\<lambda>s. (Inr (), f s))"

definition lift_result :: "'e + 'a \<Rightarrow> ('s, 'e, 'a) rm" where
  "lift_result r = (\<lambda>s. (r, s))"

definition seq :: "('s, 'e, unit) rm \<Rightarrow> ('s, 'e, 'b) rm \<Rightarrow> ('s, 'e, 'b) rm" where
  "seq m k = bind m (\<lambda>_. k)"

text \<open>A computation on a part of the state, and one whose error is handed to the caller.\<close>

definition zoom :: "('w \<Rightarrow> 's) \<Rightarrow> ('s \<Rightarrow> 'w \<Rightarrow> 'w) \<Rightarrow> ('s, 'e, 'a) rm \<Rightarrow> ('w, 'e, 'a) rm" where
  "zoom get put m = (\<lambda>w. case m (get w) of (r, s') \<Rightarrow> (r, put s' w))"

definition attempt :: "('s, 'e, 'a) rm \<Rightarrow> ('s, 'e, 'e + 'a) rm" where
  "attempt m = (\<lambda>s. case m s of (r, s') \<Rightarrow> (Inr r, s'))"

fun for_each :: "'a list \<Rightarrow> ('a \<Rightarrow> ('s, 'e, unit) rm) \<Rightarrow> ('s, 'e, unit) rm" where
  "for_each [] f = ret ()"
| "for_each (x # xs) f = seq (f x) (for_each xs f)"

fun fold_m :: "('b \<Rightarrow> 'a \<Rightarrow> ('s, 'e, 'b) rm) \<Rightarrow> 'b \<Rightarrow> 'a list \<Rightarrow> ('s, 'e, 'b) rm" where
  "fold_m f b [] = ret b"
| "fold_m f b (x # xs) = bind (f b x) (\<lambda>b'. fold_m f b' xs)"

fun collect_m :: "('a \<Rightarrow> ('s, 'e, 'b) rm) \<Rightarrow> 'a list \<Rightarrow> ('s, 'e, 'b list) rm" where
  "collect_m f [] = ret []"
| "collect_m f (x # xs) = bind (f x) (\<lambda>y. bind (collect_m f xs) (\<lambda>ys. ret (y # ys)))"

definition bind_result :: "'e + 'a \<Rightarrow> ('a \<Rightarrow> 'e + 'b) \<Rightarrow> 'e + 'b" where
  "bind_result r f = (case r of Inl e \<Rightarrow> Inl e | Inr a \<Rightarrow> f a)"

fun collect_result :: "('a \<Rightarrow> 'e + 'b) \<Rightarrow> 'a list \<Rightarrow> 'e + 'b list" where
  "collect_result f [] = Inr []"
| "collect_result f (x # xs) =
     bind_result (f x) (\<lambda>y. bind_result (collect_result f xs) (\<lambda>ys. Inr (y # ys)))"

definition ok_or :: "'e \<Rightarrow> 'a option \<Rightarrow> 'e + 'a" where
  "ok_or e x = (case x of None \<Rightarrow> Inl e | Some a \<Rightarrow> Inr a)"

definition unwrap_or :: "'a \<Rightarrow> 'a option \<Rightarrow> 'a" where
  "unwrap_or d x = (case x of None \<Rightarrow> d | Some a \<Rightarrow> a)"

lemma unwrap_or_simps [simp]:
  "unwrap_or d None = d"
  "unwrap_or d (Some a) = a"
  by (simp_all add: unwrap_or_def)

lemma ok_or_simps [simp]:
  "ok_or e None = Inl e"
  "ok_or e (Some a) = Inr a"
  by (simp_all add: ok_or_def)

lemma ok_or_Inr_iff [simp]: "ok_or e x = Inr a \<longleftrightarrow> x = Some a"
  by (cases x) simp_all

lemma bind_result_simps [simp]:
  "bind_result (Inl e) f = Inl e"
  "bind_result (Inr a) f = f a"
  by (simp_all add: bind_result_def)

lemma bind_result_Inr_iff [simp]:
  "bind_result r f = Inr b \<longleftrightarrow> (\<exists>a. r = Inr a \<and> f a = Inr b)"
  by (cases r) simp_all

lemma collect_result_Inr_iff:
  "collect_result f xs = Inr ys \<longleftrightarrow> list_all2 (\<lambda>x y. f x = Inr y) xs ys"
  by (induction xs arbitrary: ys) (auto simp: list_all2_Cons1)

lemma collect_result_total:
  "(\<And>x. x \<in> set xs \<Longrightarrow> f x = Inr (g x)) \<Longrightarrow> collect_result f xs = Inr (map g xs)"
  by (induction xs) auto

lemma collect_result_Inl:
  assumes "\<And>x. x \<in> set as \<Longrightarrow> \<exists>y. f x = Inr y" and "f h = Inl e"
  shows "collect_result f (as @ h # bs) = Inl e"
  using assms(1) by (induction as) (force simp: assms(2))+

lemma collect_result_cong [fundef_cong]:
  "xs = ys \<Longrightarrow> (\<And>x. x \<in> set ys \<Longrightarrow> f x = g x) \<Longrightarrow> collect_result f xs = collect_result g ys"
  by (induction ys arbitrary: xs) auto

lemmas rm_defs = ret_def throw_def bind_def gets_def modify_def lift_result_def seq_def zoom_def
  attempt_def

lemma ret_apply [simp]: "ret a s = (Inr a, s)"
  by (simp add: ret_def)

lemma throw_apply [simp]: "throw e s = (Inl e, s)"
  by (simp add: throw_def)

lemma gets_apply [simp]: "gets f s = (Inr (f s), s)"
  by (simp add: gets_def)

lemma modify_apply [simp]: "modify f s = (Inr (), f s)"
  by (simp add: modify_def)

lemma lift_result_apply [simp]: "lift_result r s = (r, s)"
  by (simp add: lift_result_def)

lemma bind_apply: "bind m f s = (case m s of (Inl e, s') \<Rightarrow> (Inl e, s') | (Inr a, s') \<Rightarrow> f a s')"
  by (simp add: bind_def)

lemma bind_Inr: "m s = (Inr a, s') \<Longrightarrow> bind m f s = f a s'"
  by (simp add: bind_def)

lemma bind_Inl: "m s = (Inl e, s') \<Longrightarrow> bind m f s = (Inl e, s')"
  by (simp add: bind_def)

lemma seq_Inr: "m s = (Inr u, s') \<Longrightarrow> seq m k s = k s'"
  by (simp add: seq_def bind_def)

lemma seq_Inl: "m s = (Inl e, s') \<Longrightarrow> seq m k s = (Inl e, s')"
  by (simp add: seq_def bind_def)

lemma bind_eq_Inr:
  "bind m f s = (Inr b, t) \<longleftrightarrow> (\<exists>a s'. m s = (Inr a, s') \<and> f a s' = (Inr b, t))"
  by (auto simp: bind_def split: prod.splits sum.splits)

lemma seq_eq_Inr:
  "seq m k s = (Inr b, t) \<longleftrightarrow> (\<exists>s'. m s = (Inr (), s') \<and> k s' = (Inr b, t))"
  by (auto simp: seq_def bind_eq_Inr)


section \<open>Reasoning about computations\<close>

text \<open>
  \<open>hoare P m Q E\<close>: started where \<open>P\<close> holds, \<open>m\<close> ends in \<open>Q\<close> with its result or in \<open>E\<close> with its
  error. \<open>steps R m\<close>: whatever the outcome, the state before and the state after are related by
  \<open>R\<close>; for a reflexive and transitive \<open>R\<close> this composes along every operation, errors included.
\<close>

definition hoare ::
  "('s \<Rightarrow> bool) \<Rightarrow> ('s, 'e, 'a) rm \<Rightarrow> ('a \<Rightarrow> 's \<Rightarrow> bool) \<Rightarrow> ('e \<Rightarrow> 's \<Rightarrow> bool) \<Rightarrow> bool" where
  "hoare P m Q E \<longleftrightarrow>
     (\<forall>s. P s \<longrightarrow> (case m s of (Inl e, s') \<Rightarrow> E e s' | (Inr a, s') \<Rightarrow> Q a s'))"

definition steps :: "('s \<Rightarrow> 's \<Rightarrow> bool) \<Rightarrow> ('s, 'e, 'a) rm \<Rightarrow> bool" where
  "steps R m \<longleftrightarrow> (\<forall>s. R s (snd (m s)))"

definition preorder_rel :: "('s \<Rightarrow> 's \<Rightarrow> bool) \<Rightarrow> bool" where
  "preorder_rel R \<longleftrightarrow> reflp R \<and> transp R"

named_theorems hoare_rules
named_theorems step_rules

lemma hoareI:
  "(\<And>s a s'. P s \<Longrightarrow> m s = (Inr a, s') \<Longrightarrow> Q a s') \<Longrightarrow>
   (\<And>s e s'. P s \<Longrightarrow> m s = (Inl e, s') \<Longrightarrow> E e s') \<Longrightarrow> hoare P m Q E"
  by (auto simp: hoare_def split: prod.splits sum.splits)

lemma hoareD_Inr: "hoare P m Q E \<Longrightarrow> P s \<Longrightarrow> m s = (Inr a, s') \<Longrightarrow> Q a s'"
  by (fastforce simp: hoare_def)

lemma hoareD_Inl: "hoare P m Q E \<Longrightarrow> P s \<Longrightarrow> m s = (Inl e, s') \<Longrightarrow> E e s'"
  by (fastforce simp: hoare_def)

lemma hoare_weaken:
  assumes "hoare P' m Q' E'"
    and "\<And>s. P s \<Longrightarrow> P' s"
    and "\<And>a s. Q' a s \<Longrightarrow> Q a s"
    and "\<And>e s. E' e s \<Longrightarrow> E e s"
  shows "hoare P m Q E"
  by (rule hoareI) (blast intro: assms hoareD_Inr [OF assms(1)] hoareD_Inl [OF assms(1)])+

lemma hoare_pre: "hoare P' m Q E \<Longrightarrow> (\<And>s. P s \<Longrightarrow> P' s) \<Longrightarrow> hoare P m Q E"
  by (erule hoare_weaken) auto

lemma hoare_ret [hoare_rules]: "hoare (Q a) (ret a) Q E"
  by (simp add: hoare_def)

lemma hoare_throw [hoare_rules]: "hoare (E e) (throw e) Q E"
  by (simp add: hoare_def)

lemma hoare_gets [hoare_rules]: "hoare (\<lambda>s. Q (f s) s) (gets f) Q E"
  by (simp add: hoare_def)

lemma hoare_modify [hoare_rules]: "hoare (\<lambda>s. Q () (f s)) (modify f) Q E"
  by (simp add: hoare_def)

lemma hoare_lift_result [hoare_rules]:
  "hoare (\<lambda>s. (\<forall>a. r = Inr a \<longrightarrow> Q a s) \<and> (\<forall>e. r = Inl e \<longrightarrow> E e s)) (lift_result r) Q E"
  by (cases r) (simp_all add: hoare_def)

lemma hoare_bind [hoare_rules]:
  assumes "\<And>a. hoare (R a) (f a) Q E" and "hoare P m R E"
  shows "hoare P (bind m f) Q E"
proof (rule hoareI)
  fix s a s' assume P: "P s" and r: "bind m f s = (Inr a, s')"
  from r obtain b t where mb: "m s = (Inr b, t)" and fb: "f b t = (Inr a, s')"
    by (auto simp: bind_eq_Inr)
  from hoareD_Inr [OF assms(2) P mb] have "R b t" .
  then show "Q a s'" by (rule hoareD_Inr [OF assms(1) _ fb])
next
  fix s e s' assume P: "P s" and r: "bind m f s = (Inl e, s')"
  show "E e s'"
  proof (cases "m s")
    case (Pair rm t)
    show ?thesis
    proof (cases rm)
      case (Inl e')
      with Pair r have "m s = (Inl e, s')" by (simp add: bind_def)
      then show ?thesis by (rule hoareD_Inl [OF assms(2) P])
    next
      case (Inr b)
      with Pair r have mb: "m s = (Inr b, t)" and fb: "f b t = (Inl e, s')"
        by (simp_all add: bind_def)
      from hoareD_Inr [OF assms(2) P mb] have "R b t" .
      then show ?thesis by (rule hoareD_Inl [OF assms(1) _ fb])
    qed
  qed
qed

lemma hoare_seq [hoare_rules]:
  "hoare R k Q E \<Longrightarrow> hoare P m (\<lambda>_. R) E \<Longrightarrow> hoare P (seq m k) Q E"
  unfolding seq_def by (rule hoare_bind)

lemma hoare_for_each:
  assumes "\<And>x. x \<in> set xs \<Longrightarrow> hoare I (f x) (\<lambda>_. I) E"
  shows "hoare I (for_each xs f) (\<lambda>_. I) E"
  using assms
proof (induction xs)
  case Nil
  show ?case unfolding for_each.simps by (rule hoare_ret)
next
  case (Cons x xs)
  have "hoare I (for_each xs f) (\<lambda>_. I) E" by (rule Cons.IH) (simp add: Cons.prems)
  moreover have "hoare I (f x) (\<lambda>_. I) E" by (rule Cons.prems) simp
  ultimately show ?case unfolding for_each.simps by (rule hoare_seq)
qed

lemma hoare_fold_m:
  assumes "\<And>x b. x \<in> set xs \<Longrightarrow> hoare (I b) (f b x) I E"
  shows "hoare (I b) (fold_m f b xs) I E"
  using assms
proof (induction xs arbitrary: b)
  case Nil
  show ?case unfolding fold_m.simps by (rule hoare_ret)
next
  case (Cons x xs)
  have "hoare (I b') (fold_m f b' xs) I E" for b' by (rule Cons.IH) (simp add: Cons.prems)
  moreover have "hoare (I b) (f b x) I E" by (rule Cons.prems) simp
  ultimately show ?case unfolding fold_m.simps by (rule hoare_bind)
qed

lemma stepsD: "steps R m \<Longrightarrow> m s = (r, s') \<Longrightarrow> R s s'"
  by (metis steps_def snd_conv)

lemma preorder_relI:
  "(\<And>s. R s s) \<Longrightarrow> (\<And>a b c. R a b \<Longrightarrow> R b c \<Longrightarrow> R a c) \<Longrightarrow> preorder_rel R"
  by (auto simp: preorder_rel_def reflp_def intro: transpI)

lemma preorder_rel_refl: "preorder_rel R \<Longrightarrow> R s s"
  by (simp add: preorder_rel_def reflp_def)

lemma preorder_rel_trans: "preorder_rel R \<Longrightarrow> R a b \<Longrightarrow> R b c \<Longrightarrow> R a c"
  by (meson preorder_rel_def transpD)

lemma steps_ret [step_rules]: "preorder_rel R \<Longrightarrow> steps R (ret a)"
  by (simp add: steps_def preorder_rel_refl)

lemma steps_throw [step_rules]: "preorder_rel R \<Longrightarrow> steps R (throw e)"
  by (simp add: steps_def preorder_rel_refl)

lemma steps_gets [step_rules]: "preorder_rel R \<Longrightarrow> steps R (gets f)"
  by (simp add: steps_def preorder_rel_refl)

lemma steps_lift_result [step_rules]: "preorder_rel R \<Longrightarrow> steps R (lift_result r)"
  by (simp add: steps_def preorder_rel_refl)

lemma steps_modify: "(\<And>s. R s (f s)) \<Longrightarrow> steps R (modify f)"
  by (simp add: steps_def)

lemma steps_bind [step_rules]:
  assumes "preorder_rel R" and "steps R m" and "\<And>a. steps R (f a)"
  shows "steps R (bind m f)"
  unfolding steps_def
proof
  fix s
  have 1: "R s (snd (m s))" using assms(2) by (simp add: steps_def)
  have 2: "R t (snd (f a t))" for a t using assms(3) by (simp add: steps_def)
  show "R s (snd (bind m f s))"
    using 1 2 preorder_rel_trans [OF assms(1)]
    by (auto simp: bind_def split: prod.splits sum.splits)
qed

lemma steps_seq [step_rules]:
  "preorder_rel R \<Longrightarrow> steps R m \<Longrightarrow> steps R k \<Longrightarrow> steps R (seq m k)"
  unfolding seq_def by (rule steps_bind)

lemma steps_attempt [step_rules]: "steps R m \<Longrightarrow> steps R (attempt m)"
  by (simp add: steps_def attempt_def case_prod_unfold)

lemma steps_for_each [step_rules]:
  "preorder_rel R \<Longrightarrow> (\<And>x. x \<in> set xs \<Longrightarrow> steps R (f x)) \<Longrightarrow> steps R (for_each xs f)"
  by (induction xs) (auto intro: step_rules)

lemma steps_fold_m [step_rules]:
  "preorder_rel R \<Longrightarrow> (\<And>x b. x \<in> set xs \<Longrightarrow> steps R (f b x)) \<Longrightarrow> steps R (fold_m f b xs)"
  by (induction xs arbitrary: b) (auto intro: step_rules)

lemma steps_collect_m [step_rules]:
  "preorder_rel R \<Longrightarrow> (\<And>x. x \<in> set xs \<Longrightarrow> steps R (f x)) \<Longrightarrow> steps R (collect_m f xs)"
  by (induction xs) (auto intro!: step_rules)

lemma steps_if [step_rules]: "(b \<Longrightarrow> steps R m) \<Longrightarrow> (\<not> b \<Longrightarrow> steps R k) \<Longrightarrow> steps R (if b then m else k)"
  by simp

lemma steps_case_option [step_rules]:
  "(x = None \<Longrightarrow> steps R m) \<Longrightarrow> (\<And>a. x = Some a \<Longrightarrow> steps R (f a)) \<Longrightarrow>
   steps R (case x of None \<Rightarrow> m | Some a \<Rightarrow> f a)"
  by (cases x) simp_all

lemma steps_case_sum [step_rules]:
  "(\<And>e. x = Inl e \<Longrightarrow> steps R (g e)) \<Longrightarrow> (\<And>a. x = Inr a \<Longrightarrow> steps R (f a)) \<Longrightarrow>
   steps R (case x of Inl e \<Rightarrow> g e | Inr a \<Rightarrow> f a)"
  by (cases x) simp_all

lemma steps_case_list [step_rules]:
  "(xs = [] \<Longrightarrow> steps R m) \<Longrightarrow> (\<And>y ys. xs = y # ys \<Longrightarrow> steps R (f y ys)) \<Longrightarrow>
   steps R (case xs of [] \<Rightarrow> m | y # ys \<Rightarrow> f y ys)"
  by (cases xs) simp_all

lemma steps_Let [step_rules]: "steps R (f x) \<Longrightarrow> steps R (Let x f)"
  by simp


section \<open>Ordered maps and sets\<close>

text \<open>
  \<^verbatim>\<open>BTreeMap<K, V>\<close> is an association list in strictly increasing key order: iteration
  follows the list, lookup is \<^const>\<open>map_of\<close>, \<open>bt_insert\<close> overwrites in place.
  Collecting an iterator of pairs inserts them from left to right, so a later pair wins.
  Iterating a collected \<^verbatim>\<open>BTreeSet\<close> gives the sorted list of its distinct elements.
\<close>

fun bt_insert :: "'k::linorder \<Rightarrow> 'v \<Rightarrow> ('k \<times> 'v) list \<Rightarrow> ('k \<times> 'v) list" where
  "bt_insert k v [] = [(k, v)]"
| "bt_insert k v ((k', v') # m) =
     (if k < k' then (k, v) # (k', v') # m
      else if k = k' then (k, v) # m
      else (k', v') # bt_insert k v m)"

definition bt_remove :: "'k \<Rightarrow> ('k \<times> 'v) list \<Rightarrow> ('k \<times> 'v) list" where
  "bt_remove k m = filter (\<lambda>p. fst p \<noteq> k) m"

definition bt_collect :: "('k::linorder \<times> 'v) list \<Rightarrow> ('k \<times> 'v) list" where
  "bt_collect ps = fold (\<lambda>(k, v). bt_insert k v) ps []"

definition bt_ok :: "('k::linorder \<times> 'v) list \<Rightarrow> bool" where
  "bt_ok m \<longleftrightarrow> sorted_wrt (<) (map fst m)"

definition bset :: "'a::linorder list \<Rightarrow> 'a list" where
  "bset xs = sort (remdups xs)"

definition hm_collect :: "('k \<times> 'v) list \<Rightarrow> 'k \<Rightarrow> 'v option" where
  "hm_collect ps = map_of (rev ps)"

lemma set_bset [simp]: "set (bset xs) = set xs"
  by (simp add: bset_def)

lemma distinct_bset [simp]: "distinct (bset xs)"
  by (simp add: bset_def)

lemma sorted_bset [simp]: "sorted (bset xs)"
  by (simp add: bset_def)

lemma strict_sorted_bset: "sorted_wrt (<) (bset xs)"
  by (simp add: strict_sorted_iff)

lemma bset_eq_iff: "bset xs = bset ys \<longleftrightarrow> set xs = set ys"
  by (metis sorted_list_of_set_sort_remdups bset_def set_bset)

lemma bset_idem [simp]: "bset (bset xs) = bset xs"
  by (simp add: bset_eq_iff)

lemma bset_sorted_id: "sorted_wrt (<) xs \<Longrightarrow> bset xs = xs"
  by (simp add: bset_def strict_sorted_iff distinct_remdups_id sorted_sort_id)

lemma bset_Nil_iff [simp]: "bset xs = [] \<longleftrightarrow> xs = []"
  by (metis set_bset set_empty)

lemma bset_singleton_iff: "bset xs = [x] \<longleftrightarrow> set xs = {x}"
proof
  assume "bset xs = [x]"
  then show "set xs = {x}" by (metis set_bset list.set(1) list.set(2))
next
  assume "set xs = {x}"
  then have "bset xs = bset [x]" by (simp add: bset_eq_iff)
  then show "bset xs = [x]" by (simp add: bset_def)
qed

lemma sorted_remdups_adj_strict: "sorted (xs :: 'a::linorder list) \<Longrightarrow> sorted_wrt (<) (remdups_adj xs)"
  by (induction xs rule: remdups_adj.induct) (auto simp: less_le)

lemma remdups_adj_sort [simp]: "remdups_adj (sort xs) = bset xs"
proof -
  have "sorted_wrt (<) (remdups_adj (sort xs))" by (rule sorted_remdups_adj_strict) simp
  then have "bset (remdups_adj (sort xs)) = remdups_adj (sort xs)" by (rule bset_sorted_id)
  moreover have "bset (remdups_adj (sort xs)) = bset xs" by (simp add: bset_eq_iff)
  ultimately show ?thesis by simp
qed

lemma map_of_bt_insert [simp]: "map_of (bt_insert k v m) = (map_of m)(k \<mapsto> v)"
  by (induction m) (auto simp: fun_eq_iff)

lemma map_of_bt_remove [simp]: "map_of (bt_remove k m) = (map_of m)(k := None)"
  unfolding bt_remove_def by (induction m) (auto simp: fun_eq_iff)

lemma set_keys_bt_insert [simp]: "fst ` set (bt_insert k v m) = insert k (fst ` set m)"
proof -
  have "dom (map_of (bt_insert k v m)) = insert k (dom (map_of m))" by simp
  then show ?thesis by (simp add: dom_map_of_conv_image_fst del: map_of_bt_insert)
qed

lemma bt_ok_Nil [simp]: "bt_ok []"
  by (simp add: bt_ok_def)

lemma bt_ok_Cons: "bt_ok ((k, v) # m) \<longleftrightarrow> (\<forall>k' \<in> fst ` set m. k < k') \<and> bt_ok m"
  by (simp add: bt_ok_def)

lemma bt_ok_insert [simp]: "bt_ok m \<Longrightarrow> bt_ok (bt_insert k v m)"
proof (induction m)
  case Nil
  show ?case by (simp add: bt_ok_def)
next
  case (Cons p m)
  then show ?case by (cases p) (auto simp: bt_ok_Cons dest: order.strict_trans)
qed

lemma bt_ok_filter [simp]: "bt_ok m \<Longrightarrow> bt_ok (filter P m)"
  unfolding bt_ok_def by (induction m) auto

lemma bt_ok_remove [simp]: "bt_ok m \<Longrightarrow> bt_ok (bt_remove k m)"
  by (simp add: bt_remove_def)

lemma bt_ok_distinct: "bt_ok m \<Longrightarrow> distinct (map fst m)"
  by (simp add: bt_ok_def strict_sorted_iff)

lemma map_of_eq_Some_iff_bt [simp]: "bt_ok m \<Longrightarrow> map_of m k = Some v \<longleftrightarrow> (k, v) \<in> set m"
  by (simp add: bt_ok_distinct)

lemma set_bt_insert:
  assumes "bt_ok m"
  shows "set (bt_insert k v m) = insert (k, v) {p \<in> set m. fst p \<noteq> k}"
proof -
  have "(k', v') \<in> set (bt_insert k v m) \<longleftrightarrow> (k', v') \<in> insert (k, v) {p \<in> set m. fst p \<noteq> k}"
    for k' v'
  proof -
    have "(k', v') \<in> set (bt_insert k v m) \<longleftrightarrow> map_of (bt_insert k v m) k' = Some v'"
      using assms by (simp del: map_of_bt_insert)
    also have "\<dots> \<longleftrightarrow> (if k' = k then v' = v else map_of m k' = Some v')" by auto
    also have "\<dots> \<longleftrightarrow> (k', v') \<in> insert (k, v) {p \<in> set m. fst p \<noteq> k}" using assms by auto
    finally show ?thesis .
  qed
  then show ?thesis by auto
qed

lemma set_bt_remove: "set (bt_remove k m) = {p \<in> set m. fst p \<noteq> k}"
  by (auto simp: bt_remove_def)

lemma map_of_filter_key:
  "map_of (filter (\<lambda>p. P (fst p)) m) k = (if P k then map_of m k else None)"
  by (induction m) auto

lemma bt_fold_insert:
  "map_of (fold (\<lambda>(k, v). bt_insert k v) ps m) = map_of m ++ map_of (rev ps)"
  by (induction ps arbitrary: m) (auto simp: fun_eq_iff map_add_def split: option.splits)

lemma map_of_bt_collect [simp]: "map_of (bt_collect ps) = map_of (rev ps)"
  by (simp add: bt_collect_def bt_fold_insert)

lemma bt_ok_fold: "bt_ok m \<Longrightarrow> bt_ok (fold (\<lambda>(k, v). bt_insert k v) ps m)"
  by (induction ps arbitrary: m) auto

lemma bt_ok_collect [simp]: "bt_ok (bt_collect ps)"
  by (simp add: bt_collect_def bt_ok_fold)

lemma keys_bt_collect [simp]: "fst ` set (bt_collect ps) = fst ` set ps"
  by (metis dom_map_of_conv_image_fst map_of_bt_collect set_rev)

lemma hm_collect_SomeD: "hm_collect ps k = Some v \<Longrightarrow> (k, v) \<in> set ps"
  unfolding hm_collect_def by (auto dest: map_of_SomeD)

lemma hm_collect_None_iff: "hm_collect ps k = None \<longleftrightarrow> k \<notin> fst ` set ps"
  unfolding hm_collect_def by (simp add: map_of_eq_None_iff)

section \<open>Numbers\<close>

text \<open>\<^verbatim>\<open>u32::try_from(n).unwrap_or(u32::MAX)\<close>.\<close>

definition saturate_u32 :: "nat \<Rightarrow> nat" where
  "saturate_u32 n = (if n < 2 ^ 32 then n else 2 ^ 32 - 1)"

lemma unat_word_of_nat: "n < 2 ^ LENGTH('a) \<Longrightarrow> unat (word_of_nat n :: 'a::len word) = n"
  by (simp add: unat_of_nat)

section \<open>Numbers as text\<close>

text \<open>\<^verbatim>\<open>format!("{n}")\<close> of an unsigned integer.\<close>

definition digit :: "nat \<Rightarrow> char" where
  "digit d = char_of (48 + d)"

fun decimal :: "nat \<Rightarrow> string" where
  "decimal n = (if n < 10 then [digit n] else decimal (n div 10) @ [digit (n mod 10)])"

declare decimal.simps [simp del]

lemma digit_inj: "d < 10 \<Longrightarrow> e < 10 \<Longrightarrow> digit d = digit e \<longleftrightarrow> d = e"
proof
  assume "d < 10" "e < 10" "digit d = digit e"
  then have "(of_char (digit d) :: nat) = of_char (digit e)" by simp
  then show "d = e" using \<open>d < 10\<close> \<open>e < 10\<close> by (simp add: digit_def)
qed simp

lemma digit_range: "d < 10 \<Longrightarrow> 48 \<le> (of_char (digit d) :: nat) \<and> (of_char (digit d) :: nat) < 58"
  by (simp add: digit_def)

lemma decimal_not_Nil: "decimal n \<noteq> []"
  by (subst decimal.simps) simp

lemma decimal_digits: "c \<in> set (decimal n) \<Longrightarrow> \<exists>d < 10. c = digit d"
proof (induction n rule: decimal.induct)
  case (1 n)
  show ?case
  proof (cases "n < 10")
    case True
    with "1.prems" show ?thesis by (subst (asm) decimal.simps) auto
  next
    case False
    with "1.prems" have "c \<in> set (decimal (n div 10)) \<or> c = digit (n mod 10)"
      by (subst (asm) decimal.simps) auto
    then show ?thesis using "1.IH" [OF False] by (auto intro: exI [of _ "n mod 10"])
  qed
qed

lemma decimal_inj: "decimal m = decimal n \<Longrightarrow> m = n"
proof (induction m arbitrary: n rule: less_induct)
  case (less m)
  have unfold: "decimal k = (if k < 10 then [digit k] else decimal (k div 10) @ [digit (k mod 10)])"
    for k by (rule decimal.simps)
  consider "m < 10" "n < 10" | "m < 10" "\<not> n < 10" | "\<not> m < 10" "n < 10" | "\<not> m < 10" "\<not> n < 10"
    by blast
  then show ?case
  proof cases
    case 1
    with less.prems show ?thesis by (simp add: unfold [of m] unfold [of n] digit_inj)
  next
    case 2
    with less.prems decimal_not_Nil [of "n div 10"] show ?thesis
      by (simp add: unfold [of m] unfold [of n])
  next
    case 3
    with less.prems decimal_not_Nil [of "m div 10"] show ?thesis
      by (simp add: unfold [of m] unfold [of n])
  next
    case 4
    with less.prems have "decimal (m div 10) = decimal (n div 10)" and "m mod 10 = n mod 10"
      by (simp_all add: unfold [of m] unfold [of n] digit_inj)
    moreover have "m div 10 < m" using 4 by simp
    ultimately have "m div 10 = n div 10" and "m mod 10 = n mod 10"
      using less.IH by blast+
    then show ?thesis by (metis div_mult_mod_eq)
  qed
qed

end
