(* ===== verification/Types.thy ===== *)
theory Types
  imports Prelude
begin

text \<open>
  The records and enums of \<^verbatim>\<open>src/src/v2_types.rs\<close> with their constructors and accessors, the crate
  error of \<^verbatim>\<open>src/src/types.rs\<close>, and the merge verdict of \<^verbatim>\<open>src/src/adapter.rs\<close>.

  Rust field names that several structs share get the struct's initials as a prefix. A \<^verbatim>\<open>u64\<close> that
  is stored or compared is a \<^typ>\<open>u64\<close>; the counts of a report are \<^typ>\<open>nat\<close>. A timestamp is the
  \<^typ>\<open>int\<close> that \<^verbatim>\<open>now_millis\<close> returned. BLAKE3 and the JSON rendering of the two values that are
  hashed are not under src/: they are the fields of \<open>crypto\<close>, an argument of what uses them.
\<close>

section \<open>Errors\<close>

datatype sync_error =
    IoError string
  | ConflictNeedResolution
  | CasConflict u64
  | RetryExhausted u32
  | SerdeError string
  | Corrupt string

definition error_display :: "sync_error \<Rightarrow> string" where
  "error_display e = (case e of
       IoError msg \<Rightarrow> ''I/O error: '' @ msg
     | ConflictNeedResolution \<Rightarrow> ''sync conflict, user policy required''
     | CasConflict sequence \<Rightarrow> ''compare-and-swap conflict at sequence '' @ decimal (unat sequence)
     | RetryExhausted attempts \<Rightarrow>
         ''retry exhausted after '' @ decimal (unat attempts) @ '' attempts''
     | SerdeError msg \<Rightarrow> ''serialization error: '' @ msg
     | Corrupt h \<Rightarrow> ''chunk '' @ h @ '' failed integrity check (corrupt or truncated)'')"

section \<open>Resource keys\<close>

record resource_key =
  scope_id :: string
  resource_id :: string

instantiation resource_key_ext :: (linorder) linorder
begin

definition less_eq_resource_key_ext ::
  "'a resource_key_ext \<Rightarrow> 'a resource_key_ext \<Rightarrow> bool" where
  "a \<le> b \<longleftrightarrow> (scope_id a, resource_id a, resource_key.more a)
               \<le> (scope_id b, resource_id b, resource_key.more b)"

definition less_resource_key_ext ::
  "'a resource_key_ext \<Rightarrow> 'a resource_key_ext \<Rightarrow> bool" where
  "a < b \<longleftrightarrow> (scope_id a, resource_id a, resource_key.more a)
               < (scope_id b, resource_id b, resource_key.more b)"

instance
proof
  fix x y z :: "'a resource_key_ext"
  show "(x < y) = (x \<le> y \<and> \<not> y \<le> x)"
    unfolding less_eq_resource_key_ext_def less_resource_key_ext_def by (rule less_le_not_le)
  show "x \<le> x"
    unfolding less_eq_resource_key_ext_def by (rule order_refl)
  show "x \<le> y \<Longrightarrow> y \<le> z \<Longrightarrow> x \<le> z"
    unfolding less_eq_resource_key_ext_def by (rule order_trans)
  show "x \<le> y \<Longrightarrow> y \<le> x \<Longrightarrow> x = y"
    unfolding less_eq_resource_key_ext_def by (drule (1) order_antisym) simp
  show "x \<le> y \<or> y \<le> x"
    unfolding less_eq_resource_key_ext_def by (rule linear)
qed

end

definition encoded :: "resource_key \<Rightarrow> string" where
  "encoded key = scope_id key @ [CHR 0x00] @ resource_id key"

datatype resource_kind = Binary | Text

section \<open>Replica, baseline and remote states\<close>

datatype replica_state =
    LocalMissing
  | LocalPresent (content_of: string) (size_of: u64) (token_of: string)
  | LocalDeleted string

definition replica_content_id :: "replica_state \<Rightarrow> string option" where
  "replica_content_id s = (case s of LocalPresent c _ _ \<Rightarrow> Some c | _ \<Rightarrow> None)"

definition version_token :: "replica_state \<Rightarrow> string option" where
  "version_token s = (case s of
       LocalPresent _ _ v \<Rightarrow> Some v | LocalDeleted v \<Rightarrow> Some v | LocalMissing \<Rightarrow> None)"

datatype baseline_state =
    BaselinePresent string string "string list"
  | BaselineDeleted "string list"

datatype remote_state =
    RemoteMissing
  | RemotePresent string u64 "string list"
  | RemoteDeleted "string list"
  | RemoteForked "string list"

definition remote_present :: "string \<Rightarrow> u64 \<Rightarrow> string list \<Rightarrow> remote_state" where
  "remote_present c n hs = RemotePresent c n (remdups_adj (sort hs))"

definition remote_heads_of :: "remote_state \<Rightarrow> string list" where
  "remote_heads_of r = (case r of
       RemotePresent _ _ hs \<Rightarrow> hs | RemoteDeleted hs \<Rightarrow> hs | RemoteForked hs \<Rightarrow> hs
     | RemoteMissing \<Rightarrow> [])"

definition remote_content_id :: "remote_state \<Rightarrow> string option" where
  "remote_content_id r = (case r of RemotePresent c _ _ \<Rightarrow> Some c | _ \<Rightarrow> None)"

section \<open>Commits\<close>

datatype resource_change =
    BinarySnapshot (bs_content: string) (bs_size: u64) (bs_hashes: "string list")
  | TextDelta bytes
  | Delete

record commit =
  cm_id :: string
  cm_resource :: resource_key
  cm_parents :: "string list"
  cm_author :: string
  cm_counter :: u64
  cm_timestamp :: int
  cm_change :: resource_change

datatype conflict_kind =
    InitialDivergence | ContentVsContent | DeleteVsModify | ModifyVsDelete | RemoteFork
  | PreconditionFailedKind

record crypto =
  blake3_hex :: "bytes \<Rightarrow> string"
  blake3_digest :: "bytes \<Rightarrow> bytes"
  json_conflict_seed ::
    "resource_key \<times> conflict_kind \<times> replica_state \<times> string list \<Rightarrow> bytes"
  json_commit_seed ::
    "resource_key \<times> string list \<times> string \<times> u64 \<times> int \<times> resource_change \<Rightarrow> bytes"

definition commit_create ::
  "crypto \<Rightarrow> int \<Rightarrow> resource_key \<Rightarrow> string list \<Rightarrow> string \<Rightarrow> u64 \<Rightarrow> resource_change \<Rightarrow> commit" where
  "commit_create cr now res parents author client_counter change =
     (let parents = remdups_adj (sort parents);
          seed = json_commit_seed cr (res, parents, author, client_counter, now, change);
          digest = blake3_hex cr seed
      in \<lparr>cm_id = author @ '':'' @ decimal (unat client_counter) @ '':'' @ digest,
          cm_resource = res, cm_parents = parents, cm_author = author,
          cm_counter = client_counter, cm_timestamp = now, cm_change = change\<rparr>)"

record conflict_record =
  cf_id :: string
  cf_resource :: resource_key
  cf_kind :: conflict_kind
  cf_local :: replica_state
  cf_remote_heads :: "string list"
  cf_created_at :: int

definition conflict_new ::
  "crypto \<Rightarrow> int \<Rightarrow> resource_key \<Rightarrow> conflict_kind \<Rightarrow> replica_state \<Rightarrow> remote_state \<Rightarrow> conflict_record"
  where
  "conflict_new cr now res kind loc rem =
     (let heads = sort (remote_heads_of rem)
      in \<lparr>cf_id = blake3_hex cr (json_conflict_seed cr (res, kind, loc, heads)),
          cf_resource = res, cf_kind = kind, cf_local = loc, cf_remote_heads = heads,
          cf_created_at = now\<rparr>)"

section \<open>Plans\<close>

datatype plan_operation =
    Noop resource_key
  | EstablishBaseline resource_key replica_state "string list"
  | EstablishDeletedBaseline resource_key "string list"
  | Upload resource_key replica_state
  | Download resource_key remote_state
  | PublishDelete resource_key
  | ApplyDelete resource_key replica_state "string list"
  | ConflictOp conflict_record

fun op_key :: "plan_operation \<Rightarrow> resource_key" where
  "op_key (Noop k) = k"
| "op_key (EstablishBaseline k _ _) = k"
| "op_key (EstablishDeletedBaseline k _) = k"
| "op_key (Upload k _) = k"
| "op_key (Download k _) = k"
| "op_key (PublishDelete k) = k"
| "op_key (ApplyDelete k _ _) = k"
| "op_key (ConflictOp r) = cf_resource r"

definition is_conflict :: "plan_operation \<Rightarrow> bool" where
  "is_conflict p = (case p of ConflictOp _ \<Rightarrow> True | _ \<Rightarrow> False)"

section \<open>Catalog, packs and acknowledgements\<close>

record catalog_cursor =
  cu_client :: string
  cu_scope :: string
  cu_counter :: u64

record catalog_event =
  ev_client :: string
  ev_counter :: u64
  ev_commit :: string
  ev_resource :: resource_key

record catalog_delta =
  cd_events :: "catalog_event list"
  cd_cursors :: "catalog_cursor list"
  cd_snapshot_cursors :: "catalog_cursor list"

record catalog_snapshot =
  sn_generation :: u64
  sn_scope :: string
  sn_events :: "catalog_event list"
  sn_cursors :: "catalog_cursor list"

record catalog_compaction =
  cc_snapshot :: catalog_snapshot
  cc_obsolete :: "string list"

record blob_object =
  ob_id :: string
  ob_data :: bytes

record commit_batch =
  cb_commits :: "commit list"
  cb_packs :: "blob_object list"
  cb_indexes :: "blob_object list"

record chunk_location =
  cl_hash :: string
  cl_pack :: string
  cl_offset :: u64
  cl_length :: u32

record range_data =
  rd_hash :: string
  rd_data :: bytes

record resource_ack =
  ack_client :: string
  ack_resource :: resource_key
  ack_heads :: "string list"
  ack_pinned :: "string list"

section \<open>Local replica values\<close>

record local_resource =
  lr_key :: resource_key
  lr_kind :: resource_kind
  lr_state :: replica_state

record resource_content =
  rc_key :: resource_key
  rc_kind :: resource_kind
  rc_version :: string
  rc_data :: bytes

datatype mutation_precondition = PreMissing | PreVersion string

datatype local_mutation =
    WritePresent resource_key bytes mutation_precondition
  | MutDelete resource_key mutation_precondition
  | CreateCopy resource_key bytes

datatype apply_status = Applied | PreconditionFailed | Failed

record local_apply_result =
  ar_key :: resource_key
  ar_status :: apply_status
  ar_version :: "string option"
  ar_error :: "string option"

datatype text_merge_result = NotHandled | Merged bytes | MergeConflict string

section \<open>Reports and requests\<close>

datatype scope_status = Complete | Partial | Blocked | FailedScope

record scope_report =
  sr_scope :: string
  sr_status :: scope_status
  sr_conflicts :: nat
  sr_failures :: nat

record sync_report =
  rp_run :: string
  uploaded :: nat
  downloaded :: nat
  deleted_remote :: nat
  deleted_local :: nat
  unchanged :: nat
  conflicts_count :: nat
  failures_count :: nat
  rp_scopes :: "scope_report list"

definition empty_report :: "string \<Rightarrow> sync_report" where
  "empty_report run =
     \<lparr>rp_run = run, uploaded = 0, downloaded = 0, deleted_remote = 0, deleted_local = 0,
      unchanged = 0, conflicts_count = 0, failures_count = 0, rp_scopes = []\<rparr>"

datatype version_choice = ChooseLocal | ChooseDelete | ChooseRemote string

record preserved_version =
  pv_source :: version_choice
  pv_target :: resource_key

record resolve_request =
  rq_conflict :: string
  rq_primary :: version_choice
  rq_preserved :: "preserved_version list"

record version_record =
  vr_commit :: string
  vr_parents :: "string list"
  vr_timestamp :: int
  vr_author :: string
  vr_deleted :: bool

record maintenance_report =
  mr_resources :: nat
  mr_commits_deleted :: nat
  mr_deferred :: nat
  mr_packs_deleted :: nat

text \<open>A \<^verbatim>\<open>serde_json::Value\<close> as the \<^verbatim>\<open>json!\<close> macro builds it for the detail of an event.\<close>

datatype json = JStr string | JNum nat | JBool bool | JArr "json list" | JObj "(string \<times> json) list"

record engine_event =
  ee_run :: string
  ee_operation :: string
  ee_stage :: string
  ee_resource :: "resource_key option"
  ee_detail :: json

text \<open>
  \<^verbatim>\<open>now_millis\<close>: milliseconds since the epoch, 0 for a clock before it, saturating at
  \<^verbatim>\<open>i64::MAX\<close>. The argument is the reading of the system clock.
\<close>

definition now_millis :: "int \<Rightarrow> int" where
  "now_millis clock = (if clock < 0 then 0 else min clock (2 ^ 63 - 1))"

text \<open>A concrete, collision-free instance of the parameters, for the witnesses.\<close>

definition demo_crypto :: crypto where
  "demo_crypto = \<lparr>blake3_hex = map (\<lambda>b. char_of (unat b)), blake3_digest = id,
     json_conflict_seed = (\<lambda>_. []), json_commit_seed = (\<lambda>_. [])\<rparr>"

section \<open>Properties of the types\<close>

lemma less_key_iff:
  "(a::resource_key) < b \<longleftrightarrow>
     scope_id a < scope_id b \<or> scope_id a = scope_id b \<and> resource_id a < resource_id b"
  by (auto simp: less_resource_key_ext_def less_prod_def less_le)

lemma encoded_inj:
  assumes "CHR 0x00 \<notin> set (scope_id a)" and "CHR 0x00 \<notin> set (scope_id b)"
    and "encoded a = encoded b"
  shows "a = b"
proof -
  have tw: "takeWhile (\<lambda>c. c \<noteq> CHR 0x00) (encoded k) = scope_id k"
    if "CHR 0x00 \<notin> set (scope_id k)" for k
    using that unfolding encoded_def by (subst takeWhile_append2) auto
  have scope: "scope_id a = scope_id b" using tw assms by metis
  with assms(3) have "resource_id a = resource_id b" by (simp add: encoded_def)
  with scope show ?thesis by simp
qed

lemma remote_heads_of_present [simp]: "remote_heads_of (remote_present c n hs) = bset hs"
  by (simp add: remote_present_def remote_heads_of_def)

lemma commit_create_simps [simp]:
  "cm_resource (commit_create cr now res ps a n ch) = res"
  "cm_parents (commit_create cr now res ps a n ch) = bset ps"
  "cm_author (commit_create cr now res ps a n ch) = a"
  "cm_counter (commit_create cr now res ps a n ch) = n"
  "cm_timestamp (commit_create cr now res ps a n ch) = now"
  "cm_change (commit_create cr now res ps a n ch) = ch"
  by (simp_all add: commit_create_def Let_def)

lemma conflict_new_simps [simp]:
  "cf_resource (conflict_new cr now res kind loc rem) = res"
  "cf_kind (conflict_new cr now res kind loc rem) = kind"
  "cf_local (conflict_new cr now res kind loc rem) = loc"
  "cf_remote_heads (conflict_new cr now res kind loc rem) = sort (remote_heads_of rem)"
  by (simp_all add: conflict_new_def Let_def)

lemma takeWhile_not_colon_decimal: "takeWhile (\<lambda>c. c \<noteq> CHR '':'') (decimal n @ '':'' @ d) = decimal n"
proof -
  have "\<forall>c \<in> set (decimal n). c \<noteq> CHR '':''"
  proof
    fix c assume "c \<in> set (decimal n)"
    then obtain k where "k < 10" "c = digit k" by (auto dest: decimal_digits)
    then have "(of_char c :: nat) < 58" by (simp add: digit_range)
    then show "c \<noteq> CHR '':''" by auto
  qed
  then show ?thesis by (subst takeWhile_append2) auto
qed

end
