(* ===== verification/Planner.thy ===== *)
theory Planner
  imports Types
begin

text \<open>
  The pure planner of \<^verbatim>\<open>src/src/core.rs\<close>. \<open>plan_resource\<close> decides one resource from the local,
  acknowledged and remote states; its nested case distinctions are the match arms of the source
  grouped by the remote state, with the guards tried in the order of the arms. \<open>plan_inventory\<close>
  plans the ordered union of the keys. The clock of the \<open>i\<close>-th planned resource is \<open>now i\<close>
  (only a conflict record reads it).
\<close>

definition plan_resource ::
  "crypto \<Rightarrow> int \<Rightarrow> resource_key \<Rightarrow> replica_state \<Rightarrow> baseline_state option \<Rightarrow> remote_state
     \<Rightarrow> plan_operation" where
  "plan_resource cr now key loc baseline rem =
     (let conflict = (\<lambda>kind. ConflictOp (conflict_new cr now key kind loc rem))
      in case rem of
           RemoteForked _ \<Rightarrow> conflict RemoteFork
         | RemotePresent remote_id _ heads \<Rightarrow>
             (case loc of
                LocalPresent local_id _ _ \<Rightarrow>
                  if local_id = remote_id then EstablishBaseline key loc heads
                  else (case baseline of
                      None \<Rightarrow> conflict InitialDivergence
                    | Some (BaselinePresent base _ _) \<Rightarrow>
                        if local_id = base then Download key rem
                        else if remote_id = base then Upload key loc
                        else conflict ContentVsContent
                    | Some (BaselineDeleted _) \<Rightarrow> conflict ContentVsContent)
              | _ \<Rightarrow>
                  (case baseline of
                      None \<Rightarrow> Download key rem
                    | Some (BaselineDeleted _) \<Rightarrow> Download key rem
                    | Some (BaselinePresent base _ _) \<Rightarrow>
                        if remote_id = base then PublishDelete key
                        else conflict DeleteVsModify))
         | RemoteDeleted heads \<Rightarrow>
             (case loc of
                LocalPresent local_id _ _ \<Rightarrow>
                  (case baseline of
                      Some (BaselinePresent base _ _) \<Rightarrow>
                        if local_id = base then ApplyDelete key loc heads
                        else conflict ModifyVsDelete
                    | Some (BaselineDeleted _) \<Rightarrow> Upload key loc
                    | None \<Rightarrow> conflict ModifyVsDelete)
              | _ \<Rightarrow> EstablishDeletedBaseline key heads)
         | RemoteMissing \<Rightarrow>
             (case loc of
                LocalPresent _ _ _ \<Rightarrow> Upload key loc
              | _ \<Rightarrow> Noop key))"

definition inventory_keys ::
  "(resource_key \<times> replica_state) list \<Rightarrow> (resource_key \<times> baseline_state) list \<Rightarrow>
   (resource_key \<times> remote_state) list \<Rightarrow> resource_key list" where
  "inventory_keys loc baselines rem = bset (map fst loc @ map fst baselines @ map fst rem)"

definition plan_inventory ::
  "crypto \<Rightarrow> (nat \<Rightarrow> int) \<Rightarrow> (resource_key \<times> replica_state) list \<Rightarrow>
   (resource_key \<times> baseline_state) list \<Rightarrow> (resource_key \<times> remote_state) list \<Rightarrow>
   plan_operation list" where
  "plan_inventory cr now loc baselines rem =
     (let loc = bt_collect loc; baselines = bt_collect baselines; rem = bt_collect rem;
          keys = inventory_keys loc baselines rem
      in map (\<lambda>(i, key). plan_resource cr (now i) key
                 (unwrap_or LocalMissing (map_of loc key))
                 (map_of baselines key)
                 (unwrap_or RemoteMissing (map_of rem key)))
           (enumerate 0 keys))"

section \<open>The three-way specification\<close>

text \<open>
  What the planner promises, without its record plumbing: compare the local content, the content
  both sides last agreed on and the remote content, an absent or deleted side having none.
\<close>

datatype verdict = Keep | Push | Pull | Diverged

definition three_way :: "'c option \<Rightarrow> 'c option \<Rightarrow> 'c option \<Rightarrow> verdict" where
  "three_way l b r = (if l = r then Keep else if l = b then Pull else if r = b then Push else Diverged)"

definition baseline_content :: "baseline_state option \<Rightarrow> string option" where
  "baseline_content b = (case b of Some (BaselinePresent c _ _) \<Rightarrow> Some c | _ \<Rightarrow> None)"

definition spec_verdict ::
  "replica_state \<Rightarrow> baseline_state option \<Rightarrow> remote_state \<Rightarrow> verdict" where
  "spec_verdict loc b rem =
     (let l = replica_content_id loc
      in case rem of
           RemoteForked _ \<Rightarrow> Diverged
         | RemotePresent c _ _ \<Rightarrow> three_way l (baseline_content b) (Some c)
         | RemoteDeleted _ \<Rightarrow>
             if b = None \<and> l \<noteq> None then Diverged else three_way l (baseline_content b) None
         | RemoteMissing \<Rightarrow> if l = None then Keep else Push)"

fun verdict_of :: "plan_operation \<Rightarrow> verdict" where
  "verdict_of (Noop _) = Keep"
| "verdict_of (EstablishBaseline _ _ _) = Keep"
| "verdict_of (EstablishDeletedBaseline _ _) = Keep"
| "verdict_of (Upload _ _) = Push"
| "verdict_of (PublishDelete _) = Push"
| "verdict_of (Download _ _) = Pull"
| "verdict_of (ApplyDelete _ _ _) = Pull"
| "verdict_of (ConflictOp _) = Diverged"

text \<open>
  The states a successful operation leaves: the uploading side's content on the remote under new
  heads, the downloaded content on the local side under a new version token, and the baseline the
  engine records for it.
\<close>

fun settled ::
  "plan_operation \<Rightarrow> string \<Rightarrow> string list \<Rightarrow> replica_state \<times> baseline_state option \<times> remote_state \<Rightarrow>
   replica_state \<times> baseline_state option \<times> remote_state" where
  "settled (Noop _) v hs s = s"
| "settled (EstablishBaseline _ loc hs') v hs (l, b, r) =
     (l, Some (BaselinePresent (content_of loc) (token_of loc) hs'), r)"
| "settled (EstablishDeletedBaseline _ hs') v hs (l, b, r) = (l, Some (BaselineDeleted hs'), r)"
| "settled (Upload _ loc) v hs (l, b, r) =
     (l, Some (BaselinePresent (content_of loc) (token_of loc) hs),
      RemotePresent (content_of loc) (size_of loc) hs)"
| "settled (Download _ rem) v hs (l, b, r) =
     (case rem of
        RemotePresent c n hs' \<Rightarrow> (LocalPresent c n v, Some (BaselinePresent c v hs'), r)
      | _ \<Rightarrow> (l, b, r))"
| "settled (PublishDelete _) v hs (l, b, r) = (l, Some (BaselineDeleted hs), RemoteDeleted hs)"
| "settled (ApplyDelete _ _ hs') v hs (l, b, r) = (LocalMissing, Some (BaselineDeleted hs'), r)"
| "settled (ConflictOp _) v hs s = s"

lemmas planner_splits = replica_state.splits remote_state.splits option.splits baseline_state.splits
  if_splits

lemma op_key_plan_resource [simp]: "op_key (plan_resource cr now key loc b rem) = key"
  by (simp add: plan_resource_def Let_def split: planner_splits)

lemma verdict_plan_resource:
  "verdict_of (plan_resource cr now key loc b rem) = spec_verdict loc b rem"
  by (simp add: plan_resource_def spec_verdict_def three_way_def baseline_content_def
      replica_content_id_def Let_def split: planner_splits)

lemma plan_resource_conflict_kind:
  "plan_resource cr now key loc b rem = ConflictOp rec \<Longrightarrow>
   \<exists>kind. rec = conflict_new cr now key kind loc rem"
  by (auto simp: plan_resource_def Let_def split: planner_splits)

lemma map_fst_plan_inventory:
  "map op_key (plan_inventory cr now loc b rem) =
     bset (map fst loc @ map fst b @ map fst rem)"
proof -
  have "map op_key (plan_inventory cr now loc b rem) =
      map snd (enumerate 0 (inventory_keys (bt_collect loc) (bt_collect b) (bt_collect rem)))"
    by (simp add: plan_inventory_def Let_def comp_def case_prod_unfold)
  also have "\<dots> = inventory_keys (bt_collect loc) (bt_collect b) (bt_collect rem)" by simp
  also have "\<dots> = bset (map fst loc @ map fst b @ map fst rem)"
    by (simp add: inventory_keys_def bset_eq_iff)
  finally show ?thesis .
qed

lemma plan_inventory_memE:
  assumes "p \<in> set (plan_inventory cr now loc b rem)"
  obtains i where "p = plan_resource cr (now i) (op_key p)
      (unwrap_or LocalMissing (map_of (rev loc) (op_key p)))
      (map_of (rev b) (op_key p))
      (unwrap_or RemoteMissing (map_of (rev rem) (op_key p)))"
  using assms by (auto simp: plan_inventory_def Let_def)

section \<open>Properties\<close>

text \<open>C3. The planner implements the three-way comparison: for every combination of local,
  acknowledged and remote state, the direction of the planned operation (nothing to transfer,
  push, pull, or a conflict) is the one the three-way specification gives.\<close>

theorem plan_resource_three_way:
  "verdict_of (plan_resource cr now key loc b rem) = spec_verdict loc b rem"
  by (rule verdict_plan_resource)

text \<open>C5. Local work is never overwritten: an operation that replaces or deletes present local
  content is planned only when that content is the acknowledged one.\<close>

theorem plan_resource_keeps_local_work:
  assumes "plan_resource cr now key (LocalPresent c n v) b rem = p"
    and "p = Download key rem \<or> (\<exists>l hs. p = ApplyDelete key l hs)"
  shows "\<exists>v' hs'. b = Some (BaselinePresent c v' hs')"
  using assms by (auto simp: plan_resource_def Let_def split: planner_splits)

theorem plan_resource_keeps_local_work_witness:
  "\<exists>v' hs'. Some (BaselinePresent ''a'' ''1'' [''h'']) = Some (BaselinePresent ''a'' v' hs')"
  by (rule plan_resource_keeps_local_work
        [where cr = demo_crypto and now = "0"
           and key = "\<lparr>scope_id = ''s'', resource_id = ''r''\<rparr>" and n = "1" and v = "''1''"
           and rem = "RemotePresent ''b'' 1 [''h2'']", OF refl])
    (simp add: plan_resource_def)

text \<open>C6. Remote work is never overwritten: publishing over a present remote version is planned
  only when that version is the acknowledged one, and publishing over a remote deletion only when
  that deletion was acknowledged.\<close>

theorem plan_resource_keeps_remote_work:
  assumes "plan_resource cr now key loc b rem = p"
    and "p = PublishDelete key \<or> p = Upload key loc"
  shows "(case rem of
            RemotePresent c _ _ \<Rightarrow> baseline_content b = Some c
          | RemoteDeleted _ \<Rightarrow> \<exists>hs. b = Some (BaselineDeleted hs)
          | RemoteMissing \<Rightarrow> True
          | RemoteForked _ \<Rightarrow> False)"
  using assms
  by (auto simp: plan_resource_def Let_def baseline_content_def split: planner_splits)

theorem plan_resource_keeps_remote_work_witness:
  "baseline_content (Some (BaselinePresent ''a'' ''1'' [''h''])) = Some ''a''"
  using plan_resource_keeps_remote_work
        [where cr = demo_crypto and now = "0"
           and key = "\<lparr>scope_id = ''s'', resource_id = ''r''\<rparr>"
           and loc = "LocalMissing"
           and b = "Some (BaselinePresent ''a'' ''1'' [''h''])"
           and rem = "RemotePresent ''a'' 1 [''h'']", OF refl]
  by (simp add: plan_resource_def)

text \<open>One successful round settles a resource: after any operation but a conflict has been
  carried out, planning again transfers nothing, whatever the new version token and heads are.\<close>

theorem plan_resource_settles:
  assumes "plan_resource cr now key loc b rem = p" and "\<not> is_conflict p"
    and "settled p v hs (loc, b, rem) = (loc', b', rem')"
  shows "verdict_of (plan_resource cr now' key loc' b' rem') = Keep"
  using assms
  by (auto simp: plan_resource_def Let_def is_conflict_def split: planner_splits)

theorem plan_resource_settles_witness:
  "verdict_of (plan_resource demo_crypto 0
     \<lparr>scope_id = ''s'', resource_id = ''r''\<rparr> (LocalPresent ''b'' 7 ''2'')
     (Some (BaselinePresent ''b'' ''2'' [''h''])) (RemotePresent ''b'' 7 [''h''])) = Keep"
  by (rule plan_resource_settles
        [where now = "0" and loc = "LocalPresent ''a'' 1 ''1''"
           and b = "Some (BaselinePresent ''a'' ''1'' [''g''])"
           and rem = "RemotePresent ''b'' 7 [''h'']" and v = "''2''" and hs = "[]", OF refl])
    (simp_all add: plan_resource_def is_conflict_def)

text \<open>A plan covers every resource known to any of the three inventories exactly once, in
  ascending key order, and each entry is the decision for the last state listed for its key.\<close>

theorem plan_inventory_complete:
  "map op_key (plan_inventory cr now loc b rem) = bset (map fst loc @ map fst b @ map fst rem)
   \<and> map verdict_of (plan_inventory cr now loc b rem) =
       map (\<lambda>key. spec_verdict (unwrap_or LocalMissing (map_of (rev loc) key))
              (map_of (rev b) key) (unwrap_or RemoteMissing (map_of (rev rem) key)))
         (bset (map fst loc @ map fst b @ map fst rem))"
proof -
  let ?plan = "plan_inventory cr now loc b rem"
  let ?spec = "\<lambda>key. spec_verdict (unwrap_or LocalMissing (map_of (rev loc) key))
    (map_of (rev b) key) (unwrap_or RemoteMissing (map_of (rev rem) key))"
  have keys: "map op_key ?plan = bset (map fst loc @ map fst b @ map fst rem)"
    by (rule map_fst_plan_inventory)
  have "verdict_of p = ?spec (op_key p)" if "p \<in> set ?plan" for p
    using that by (metis plan_inventory_memE verdict_plan_resource)
  then have "map verdict_of ?plan = map ?spec (map op_key ?plan)" by simp
  with keys show ?thesis by simp
qed

end
