(* ===== verification/Text_Doc.thy ===== *)
theory Text_Doc
  imports Types
begin

text \<open>
  The text document of \<^verbatim>\<open>src/src/text.rs\<close>. Text content is a list of Unicode scalar values; its
  UTF-8 bytes (\<^verbatim>\<open>as_bytes\<close>, \<^verbatim>\<open>from_utf8\<close>, \<^verbatim>\<open>len\<close>) and its UTF-16 code units
  (\<^verbatim>\<open>encode_utf16\<close>) are computed from it. \<open>diff_middle\<close> is the prefix/suffix diff with its three
  loops. The yrs document is not under src/: its operations are the fields of \<open>yrs\<close>, an argument
  of the document operations, over an arbitrary document type. \<^verbatim>\<open>Doc::new\<close> draws a random client
  id, so the model gives it a seed.
\<close>

section \<open>Unicode\<close>

type_synonym ustr = "nat list"

definition scalar :: "nat \<Rightarrow> bool" where
  "scalar c \<longleftrightarrow> c < 0xD800 \<or> (0xE000 \<le> c \<and> c < 0x110000)"

definition utf8_char :: "nat \<Rightarrow> nat list" where
  "utf8_char c =
     (if c < 0x80 then [c]
      else if c < 0x800 then [0xC0 + c div 64, 0x80 + c mod 64]
      else if c < 0x10000 then [0xE0 + c div 4096, 0x80 + c div 64 mod 64, 0x80 + c mod 64]
      else [0xF0 + c div 262144, 0x80 + c div 4096 mod 64, 0x80 + c div 64 mod 64,
            0x80 + c mod 64])"

definition len_utf8 :: "nat \<Rightarrow> nat" where
  "len_utf8 c = length (utf8_char c)"

definition as_bytes :: "ustr \<Rightarrow> bytes" where
  "as_bytes s = map word_of_nat (concat (map utf8_char s))"

definition continuation :: "nat \<Rightarrow> bool" where
  "continuation b \<longleftrightarrow> 0x80 \<le> b \<and> b < 0xC0"

fun utf8_decode :: "nat list \<Rightarrow> ustr option" where
  "utf8_decode [] = Some []"
| "utf8_decode (a # bs) =
     (if a < 0x80 then map_option ((#) a) (utf8_decode bs)
      else if 0xC2 \<le> a \<and> a < 0xE0 then
        (case bs of
           b # r \<Rightarrow>
             if continuation b
             then map_option ((#) ((a - 0xC0) * 64 + (b - 0x80))) (utf8_decode r) else None
         | _ \<Rightarrow> None)
      else if 0xE0 \<le> a \<and> a < 0xF0 then
        (case bs of
           b # c # r \<Rightarrow>
             let v = (a - 0xE0) * 4096 + (b - 0x80) * 64 + (c - 0x80)
             in if continuation b \<and> continuation c \<and> 0x800 \<le> v \<and> scalar v
                then map_option ((#) v) (utf8_decode r) else None
         | _ \<Rightarrow> None)
      else if 0xF0 \<le> a \<and> a < 0xF5 then
        (case bs of
           b # c # d # r \<Rightarrow>
             let v = (a - 0xF0) * 262144 + (b - 0x80) * 4096 + (c - 0x80) * 64 + (d - 0x80)
             in if continuation b \<and> continuation c \<and> continuation d \<and> 0x10000 \<le> v \<and> scalar v
                then map_option ((#) v) (utf8_decode r) else None
         | _ \<Rightarrow> None)
      else None)"

definition from_utf8 :: "bytes \<Rightarrow> ustr option" where
  "from_utf8 bs = utf8_decode (map unat bs)"

definition utf16_char :: "nat \<Rightarrow> nat list" where
  "utf16_char c =
     (if c < 0x10000 then [c]
      else [0xD800 + (c - 0x10000) div 0x400, 0xDC00 + (c - 0x10000) mod 0x400])"

definition len_utf16 :: "nat \<Rightarrow> nat" where
  "len_utf16 c = length (utf16_char c)"

definition encode_utf16 :: "ustr \<Rightarrow> nat list" where
  "encode_utf16 s = concat (map utf16_char s)"

section \<open>The diff\<close>

function common_prefix :: "nat list \<Rightarrow> nat list \<Rightarrow> nat \<Rightarrow> nat" where
  "common_prefix old new prefix =
     (if prefix < length old \<and> prefix < length new \<and> old ! prefix = new ! prefix
      then common_prefix old new (prefix + 1) else prefix)"
  by pat_completeness auto
termination
  by (relation "measure (\<lambda>(old, new, prefix). length old - prefix)") auto

function common_suffix :: "nat list \<Rightarrow> nat list \<Rightarrow> nat \<Rightarrow> nat \<Rightarrow> nat" where
  "common_suffix old new prefix suffix =
     (if suffix < length old - prefix \<and> suffix < length new - prefix
         \<and> old ! (length old - 1 - suffix) = new ! (length new - 1 - suffix)
      then common_suffix old new prefix (suffix + 1) else suffix)"
  by pat_completeness auto
termination
  by (relation "measure (\<lambda>(old, new, prefix, suffix). length old - prefix - suffix)") auto

declare common_prefix.simps [simp del] common_suffix.simps [simp del]

text \<open>The walk over \<^verbatim>\<open>new.char_indices()\<close>: byte index and code-unit position advance together.\<close>

fun char_walk :: "nat \<Rightarrow> nat \<Rightarrow> ustr \<Rightarrow> nat \<Rightarrow> nat \<Rightarrow> nat \<times> nat \<times> bool \<Rightarrow> nat \<times> nat" where
  "char_walk prefix end_cu [] byte_idx cu (byte_start, byte_end, start_set) = (byte_start, byte_end)"
| "char_walk prefix end_cu (ch # chs) byte_idx cu (byte_start, byte_end, start_set) =
     (let (byte_start, start_set) =
            (if \<not> start_set \<and> cu \<ge> prefix then (byte_idx, True) else (byte_start, start_set))
      in if cu \<ge> end_cu then (byte_start, byte_idx)
         else char_walk prefix end_cu chs (byte_idx + len_utf8 ch) (cu + len_utf16 ch)
                (byte_start, byte_end, start_set))"

definition str_len :: "ustr \<Rightarrow> nat" where
  "str_len s = sum_list (map len_utf8 s)"

text \<open>\<^verbatim>\<open>&s[a..b]\<close> at character boundaries: the characters whose byte index is in the range.\<close>

fun str_slice :: "ustr \<Rightarrow> nat \<Rightarrow> nat \<Rightarrow> nat \<Rightarrow> ustr" where
  "str_slice [] idx a b = []"
| "str_slice (c # cs) idx a b =
     (if a \<le> idx \<and> idx < b then c # str_slice cs (idx + len_utf8 c) a b
      else str_slice cs (idx + len_utf8 c) a b)"

definition diff_middle :: "ustr \<Rightarrow> ustr \<Rightarrow> nat \<times> nat \<times> ustr" where
  "diff_middle old new =
     (let old_u16 = encode_utf16 old;
          new_u16 = encode_utf16 new;
          prefix = common_prefix old_u16 new_u16 0;
          suffix = common_suffix old_u16 new_u16 prefix 0;
          del_len = length old_u16 - prefix - suffix;
          insert_end_cu = length new_u16 - suffix;
          (byte_start, byte_end) =
            char_walk prefix insert_end_cu new 0 0 (str_len new, str_len new, False)
      in (saturate_u32 prefix, saturate_u32 del_len, str_slice new 0 byte_start byte_end))"

section \<open>The document\<close>

record 'd yrs =
  y_new :: "nat \<Rightarrow> 'd"
  y_string :: "'d \<Rightarrow> ustr"
  y_remove_range :: "'d \<Rightarrow> nat \<Rightarrow> nat \<Rightarrow> 'd"
  y_insert :: "'d \<Rightarrow> nat \<Rightarrow> ustr \<Rightarrow> 'd"
  y_state_vector :: "'d \<Rightarrow> bytes"
  y_default_sv :: bytes
  y_encode_since :: "'d \<Rightarrow> bytes \<Rightarrow> bytes"
  y_apply_update :: "'d \<Rightarrow> bytes \<Rightarrow> string + 'd"

definition text_new :: "'d yrs \<Rightarrow> nat \<Rightarrow> 'd" where
  "text_new Y seed = y_new Y seed"

definition text_content :: "'d yrs \<Rightarrow> 'd \<Rightarrow> ustr" where
  "text_content Y doc = y_string Y doc"

definition set_text :: "'d yrs \<Rightarrow> 'd \<Rightarrow> ustr \<Rightarrow> bytes \<times> 'd" where
  "set_text Y doc new =
     (let sv_before = y_state_vector Y doc;
          old = text_content Y doc;
          (start, del_len, ins) = diff_middle old new;
          doc1 = (if del_len > 0 then y_remove_range Y doc start del_len else doc);
          doc2 = (if ins \<noteq> [] then y_insert Y doc1 start ins else doc1)
      in (y_encode_since Y doc2 sv_before, doc2))"

definition apply_delta :: "'d yrs \<Rightarrow> 'd \<Rightarrow> bytes \<Rightarrow> sync_error + 'd" where
  "apply_delta Y doc delta =
     (case y_apply_update Y doc delta of Inl msg \<Rightarrow> Inl (SerdeError msg) | Inr d \<Rightarrow> Inr d)"

definition full_update :: "'d yrs \<Rightarrow> 'd \<Rightarrow> bytes" where
  "full_update Y doc = y_encode_since Y doc (y_default_sv Y)"

fun apply_deltas :: "'d yrs \<Rightarrow> 'd \<Rightarrow> bytes list \<Rightarrow> sync_error + 'd" where
  "apply_deltas Y doc [] = Inr doc"
| "apply_deltas Y doc (d # ds) = bind_result (apply_delta Y doc d) (\<lambda>doc'. apply_deltas Y doc' ds)"

definition from_baseline_and_deltas ::
  "'d yrs \<Rightarrow> nat \<Rightarrow> bytes option \<Rightarrow> bytes list \<Rightarrow> sync_error + 'd" where
  "from_baseline_and_deltas Y seed baseline deltas =
     bind_result
       (case baseline of None \<Rightarrow> Inr (text_new Y seed) | Some b \<Rightarrow> apply_delta Y (text_new Y seed) b)
       (\<lambda>doc. apply_deltas Y doc deltas)"


section \<open>Encodings\<close>

lemma div_mod_64: "(c::nat) div 4096 * 4096 + c div 64 mod 64 * 64 + c mod 64 = c"
proof -
  have q: "c div 4096 = c div 64 div 64" by (simp add: div_mult2_eq [symmetric])
  have "c div 64 div 64 * 64 + c div 64 mod 64 = c div 64" by (rule div_mult_mod_eq)
  moreover have "c div 64 * 64 + c mod 64 = c" by (rule div_mult_mod_eq)
  ultimately show ?thesis unfolding q by linarith
qed

lemma div_mod_64_4:
  "(c::nat) div 262144 * 262144 + c div 4096 mod 64 * 4096 + c div 64 mod 64 * 64 + c mod 64 = c"
proof -
  have q: "c div 262144 = c div 64 div 4096" "c div 4096 = c div 64 div 64"
    by (simp_all add: div_mult2_eq [symmetric])
  have "c div 64 div 4096 * 4096 + c div 64 div 64 mod 64 * 64 + c div 64 mod 64 = c div 64"
    by (rule div_mod_64)
  moreover have "c div 64 * 64 + c mod 64 = c" by (rule div_mult_mod_eq)
  ultimately show ?thesis unfolding q by linarith
qed

lemma div_mod_64_2: "(c::nat) div 64 * 64 + c mod 64 = c"
  by presburger

lemma continuation_128: "n < 64 \<Longrightarrow> continuation (128 + n)"
  by (simp add: continuation_def)

lemma utf8_decode_char:
  assumes "scalar c"
  shows "utf8_decode (utf8_char c @ bs) = map_option ((#) c) (utf8_decode bs)"
proof -
  consider "c < 0x80" | "0x80 \<le> c" "c < 0x800" | "0x800 \<le> c" "c < 0x10000" | "0x10000 \<le> c"
    by linarith
  then show ?thesis
  proof cases
    case 1
    then show ?thesis by (simp add: utf8_char_def)
  next
    case 2
    then have "2 \<le> c div 64" and "c div 64 < 32" by (simp_all add: less_mult_imp_div_less div_le_mono [of 128 c 64, simplified])
    with 2 show ?thesis by (simp add: utf8_char_def continuation_128 div_mod_64_2)
  next
    case 3
    then have "c div 4096 < 16" by (simp add: less_mult_imp_div_less)
    with 3 assms show ?thesis by (simp add: utf8_char_def continuation_128 Let_def div_mod_64)
  next
    case 4
    from assms have "c < 0x110000" by (auto simp: scalar_def)
    then have "c div 262144 < 5" by (simp add: less_mult_imp_div_less)
    with 4 assms show ?thesis by (simp add: utf8_char_def continuation_128 Let_def div_mod_64_4)
  qed
qed

lemma utf8_decode_encode:
  "\<forall>c \<in> set s. scalar c \<Longrightarrow> utf8_decode (concat (map utf8_char s)) = Some s"
  by (induction s) (simp_all add: utf8_decode_char)

lemma utf8_char_bytes: "scalar c \<Longrightarrow> b \<in> set (utf8_char c) \<Longrightarrow> b < 256"
proof -
  assume c: "scalar c" and b: "b \<in> set (utf8_char c)"
  from c have "c < 0x110000" by (auto simp: scalar_def)
  then have "c div 262144 < 5" by (simp add: less_mult_imp_div_less)
  moreover have "c < 0x800 \<Longrightarrow> c div 64 < 32" by (simp add: less_mult_imp_div_less)
  moreover have "c < 0x10000 \<Longrightarrow> c div 4096 < 16" by (simp add: less_mult_imp_div_less)
  moreover have "n mod 64 < 64" for n :: nat by simp
  ultimately show "b < 256" using b
    by (auto simp: utf8_char_def split: if_splits)
qed

lemma from_utf8_as_bytes: "\<forall>c \<in> set s. scalar c \<Longrightarrow> from_utf8 (as_bytes s) = Some s"
proof -
  assume s: "\<forall>c \<in> set s. scalar c"
  then have "\<forall>b \<in> set (concat (map utf8_char s)). b < 256" by (auto dest: utf8_char_bytes)
  then have "map (unat \<circ> (word_of_nat :: nat \<Rightarrow> u8)) (concat (map utf8_char s)) = concat (map utf8_char s)"
    by (intro map_idI) (auto simp: unat_of_nat)
  then show ?thesis using s by (simp add: from_utf8_def as_bytes_def utf8_decode_encode)
qed


section \<open>The character walk\<close>

text \<open>
  \<open>cut n s\<close> is the number of characters the walk has passed when its code-unit position first
  reaches \<open>n\<close>; the position is a character boundary when those characters are \<open>n\<close> units long.
\<close>

fun cut :: "nat \<Rightarrow> ustr \<Rightarrow> nat" where
  "cut n [] = 0"
| "cut n (c # cs) = (if n = 0 then 0 else Suc (cut (n - len_utf16 c) cs))"

definition u16_boundary :: "ustr \<Rightarrow> nat \<Rightarrow> bool" where
  "u16_boundary s n \<longleftrightarrow> length (encode_utf16 (take (cut n s) s)) = n"

lemma len_utf16_pos: "0 < len_utf16 c"
  by (simp add: len_utf16_def utf16_char_def)

lemma len_utf8_pos: "0 < len_utf8 c"
  by (simp add: len_utf8_def utf8_char_def)

lemma encode_utf16_simps [simp]:
  "encode_utf16 [] = []"
  "encode_utf16 (c # cs) = utf16_char c @ encode_utf16 cs"
  "encode_utf16 (s @ t) = encode_utf16 s @ encode_utf16 t"
  by (simp_all add: encode_utf16_def)

lemma str_len_simps [simp]:
  "str_len [] = 0"
  "str_len (c # cs) = len_utf8 c + str_len cs"
  by (simp_all add: str_len_def)

lemma cut_le [simp]: "cut n s \<le> length s"
  by (induction s arbitrary: n) auto

lemma cut_0 [simp]: "cut 0 s = 0"
  by (cases s) simp_all

lemma cut_mono: "m \<le> n \<Longrightarrow> cut m s \<le> cut n s"
  by (induction s arbitrary: m n) (auto simp: diff_le_mono)

lemma cut_encode [simp]: "cut (length (encode_utf16 pre)) (pre @ post) = length pre"
proof (induction pre)
  case Nil
  show ?case by simp
next
  case (Cons c cs)
  moreover have "length (utf16_char c) \<noteq> 0" using len_utf16_pos [of c] by (simp add: len_utf16_def)
  ultimately show ?case by (simp add: len_utf16_def)
qed

lemma take_encode_boundary:
  "u16_boundary s n \<Longrightarrow> take n (encode_utf16 s) = encode_utf16 (take (cut n s) s)"
  unfolding u16_boundary_def
  by (metis append_eq_conv_conj append_take_drop_id encode_utf16_simps(3))

lemma char_walk_end:
  "char_walk p e s idx cu (bs, idx + str_len s, True) =
     (bs, idx + str_len (take (cut (e - cu) s) s))"
proof (induction s arbitrary: idx cu)
  case Nil
  show ?case by simp
next
  case (Cons c cs)
  show ?case
  proof (cases "e \<le> cu")
    case True
    then show ?thesis by simp
  next
    case False
    with Cons.IH [of "idx + len_utf8 c" "cu + len_utf16 c"] show ?thesis
      by (simp add: add.assoc)
  qed
qed

lemma char_walk_cuts:
  assumes "p \<le> e"
  shows "char_walk p e s idx cu (idx + str_len s, idx + str_len s, False) =
     (idx + str_len (take (cut (p - cu) s) s), idx + str_len (take (cut (e - cu) s) s))"
proof (induction s arbitrary: idx cu)
  case Nil
  show ?case by simp
next
  case (Cons c cs)
  show ?case
  proof (cases "p \<le> cu")
    case True
    then show ?thesis
      using char_walk_end [of p e cs "idx + len_utf8 c" "cu + len_utf16 c" idx]
      by (simp add: add.assoc)
  next
    case False
    with assms have "\<not> e \<le> cu" by simp
    with False Cons.IH [of "idx + len_utf8 c" "cu + len_utf16 c"] show ?thesis
      by (simp add: add.assoc)
  qed
qed

lemma str_slice_above: "b \<le> idx \<Longrightarrow> str_slice s idx a b = []"
  by (induction s arbitrary: idx) auto

lemma str_slice_take:
  "a \<le> idx \<Longrightarrow> str_slice s idx a (idx + str_len (take j s)) = take j s"
proof (induction s arbitrary: idx j)
  case Nil
  show ?case by simp
next
  case (Cons c cs)
  show ?case
  proof (cases j)
    case 0
    then show ?thesis by (simp add: str_slice_above)
  next
    case (Suc i)
    with Cons.IH [of "idx + len_utf8 c" i] Cons.prems len_utf8_pos [of c] show ?thesis
      by (simp add: add.assoc)
  qed
qed

lemma str_slice_cuts:
  "i \<le> j \<Longrightarrow>
   str_slice s idx (idx + str_len (take i s)) (idx + str_len (take j s)) = drop i (take j s)"
proof (induction s arbitrary: idx i j)
  case Nil
  show ?case by simp
next
  case (Cons c cs)
  show ?case
  proof (cases i)
    case 0
    then show ?thesis using str_slice_take [of idx idx "c # cs" j] by simp
  next
    case (Suc i')
    with Cons.prems obtain j' where j: "j = Suc j'" "i' \<le> j'" by (cases j) auto
    with Suc Cons.IH [of i' j' "idx + len_utf8 c"] len_utf8_pos [of c] show ?thesis
      by (simp add: add.assoc)
  qed
qed

section \<open>The prefix and suffix scans\<close>

lemma common_prefix_spec:
  assumes "k \<le> length u" and "k \<le> length w" and "take k u = take k w"
  shows "common_prefix u w k \<le> length u \<and> common_prefix u w k \<le> length w
    \<and> take (common_prefix u w k) u = take (common_prefix u w k) w"
  using assms
proof (induction u w k rule: common_prefix.induct)
  case (1 u w k)
  show ?case
  proof (cases "k < length u \<and> k < length w \<and> u ! k = w ! k")
    case True
    then have "take (k + 1) u = take (k + 1) w" using "1.prems" by (simp add: take_Suc_conv_app_nth)
    with True "1.IH" show ?thesis by (simp add: common_prefix.simps [of u w k])
  next
    case False
    with "1.prems" show ?thesis by (auto simp: common_prefix.simps [of u w k])
  qed
qed

lemma drop_one_more:
  assumes "s < length u"
  shows "drop (length u - Suc s) u = u ! (length u - Suc s) # drop (length u - s) u"
  using assms Cons_nth_drop_Suc [of "length u - Suc s" u] by (simp add: Suc_diff_Suc)

lemma common_suffix_spec:
  assumes "s + p \<le> length u" and "s + p \<le> length w"
    and "drop (length u - s) u = drop (length w - s) w"
  shows "common_suffix u w p s + p \<le> length u \<and> common_suffix u w p s + p \<le> length w
    \<and> drop (length u - common_suffix u w p s) u = drop (length w - common_suffix u w p s) w"
  using assms
proof (induction u w p s rule: common_suffix.induct)
  case (1 u w p s)
  let ?c = "s < length u - p \<and> s < length w - p \<and> u ! (length u - 1 - s) = w ! (length w - 1 - s)"
  show ?case
  proof (cases ?c)
    case True
    then have "s < length u" "s < length w" by auto
    with True "1.prems" have "drop (length u - Suc s) u = drop (length w - Suc s) w"
      using drop_one_more [of s u] drop_one_more [of s w] by simp
    moreover from True have "(s + 1) + p \<le> length u" "(s + 1) + p \<le> length w" by auto
    ultimately show ?thesis using True "1.IH" by (simp add: common_suffix.simps [of u w p s])
  next
    case False
    with "1.prems" show ?thesis by (auto simp: common_suffix.simps [of u w p s])
  qed
qed

section \<open>Correctness of the diff\<close>

definition diff_prefix :: "ustr \<Rightarrow> ustr \<Rightarrow> nat" where
  "diff_prefix old new = common_prefix (encode_utf16 old) (encode_utf16 new) 0"

definition diff_suffix :: "ustr \<Rightarrow> ustr \<Rightarrow> nat" where
  "diff_suffix old new =
     common_suffix (encode_utf16 old) (encode_utf16 new) (diff_prefix old new) 0"

definition diff_end :: "ustr \<Rightarrow> ustr \<Rightarrow> nat" where
  "diff_end old new = length (encode_utf16 new) - diff_suffix old new"

lemma diff_scan_spec:
  "diff_prefix old new + diff_suffix old new \<le> length (encode_utf16 old)"
  "diff_prefix old new + diff_suffix old new \<le> length (encode_utf16 new)"
  "take (diff_prefix old new) (encode_utf16 old) = take (diff_prefix old new) (encode_utf16 new)"
  "drop (length (encode_utf16 old) - diff_suffix old new) (encode_utf16 old) =
   drop (length (encode_utf16 new) - diff_suffix old new) (encode_utf16 new)"
proof -
  note p = common_prefix_spec [of 0 "encode_utf16 old" "encode_utf16 new", simplified,
      folded diff_prefix_def]
  show "take (diff_prefix old new) (encode_utf16 old) = take (diff_prefix old new) (encode_utf16 new)"
    using p by simp
  note s = common_suffix_spec [of 0 "diff_prefix old new" "encode_utf16 old" "encode_utf16 new",
      simplified, folded diff_suffix_def, OF conjunct1 [OF p] conjunct1 [OF conjunct2 [OF p]]]
  show "diff_prefix old new + diff_suffix old new \<le> length (encode_utf16 old)"
    "diff_prefix old new + diff_suffix old new \<le> length (encode_utf16 new)"
    "drop (length (encode_utf16 old) - diff_suffix old new) (encode_utf16 old) =
     drop (length (encode_utf16 new) - diff_suffix old new) (encode_utf16 new)"
    using s by (simp_all add: add.commute)
qed

lemma diff_middle_eq:
  "diff_middle old new =
     (saturate_u32 (diff_prefix old new),
      saturate_u32 (length (encode_utf16 old) - diff_prefix old new - diff_suffix old new),
      drop (cut (diff_prefix old new) new) (take (cut (diff_end old new) new) new))"
proof -
  have le: "diff_prefix old new \<le> diff_end old new"
    using diff_scan_spec(2) [of old new] by (simp add: diff_end_def)
  have w: "char_walk (diff_prefix old new) (diff_end old new) new 0 0 (str_len new, str_len new, False)
      = (str_len (take (cut (diff_prefix old new) new) new),
         str_len (take (cut (diff_end old new) new) new))"
    using char_walk_cuts [OF le, of new 0 0] by simp
  have sl: "str_slice new 0 (str_len (take (cut (diff_prefix old new) new) new))
      (str_len (take (cut (diff_end old new) new) new)) =
      drop (cut (diff_prefix old new) new) (take (cut (diff_end old new) new) new)"
    using str_slice_cuts [OF cut_mono [OF le], of new 0] by simp
  show ?thesis
    by (simp add: diff_middle_def Let_def diff_prefix_def [symmetric] diff_suffix_def [symmetric]
        diff_end_def [symmetric] w sl)
qed

lemma u16_boundary_bmp:
  assumes "\<forall>c \<in> set s. c < 0x10000" and "n \<le> length s"
  shows "u16_boundary s n"
proof -
  have "cut n s = n" if "\<forall>c \<in> set s. c < 0x10000" "n \<le> length s" for n
    using that by (induction s arbitrary: n) (auto simp: len_utf16_def utf16_char_def split: nat.splits)
  moreover have "length (encode_utf16 t) = length t" if "\<forall>c \<in> set t. c < 0x10000" for t
    using that by (induction t) (auto simp: utf16_char_def)
  moreover from assms have "\<forall>c \<in> set (take n s). c < 0x10000" by (auto dest: in_set_takeD)
  ultimately show ?thesis using assms by (simp add: u16_boundary_def)
qed


text \<open>
  The diff is aligned when neither scan stops inside a surrogate pair: in both texts the prefix
  ends and the suffix starts at a character boundary.
\<close>

definition diff_aligned :: "ustr \<Rightarrow> ustr \<Rightarrow> bool" where
  "diff_aligned old new \<longleftrightarrow>
     u16_boundary old (diff_prefix old new)
     \<and> u16_boundary old (length (encode_utf16 old) - diff_suffix old new)
     \<and> u16_boundary new (diff_prefix old new)
     \<and> u16_boundary new (diff_end old new)"

lemma length_encode_bmp: "\<forall>c \<in> set s. c < 0x10000 \<Longrightarrow> length (encode_utf16 s) = length s"
  by (induction s) (auto simp: utf16_char_def)

lemma diff_aligned_bmp:
  assumes "\<forall>c \<in> set old. c < 0x10000" and "\<forall>c \<in> set new. c < 0x10000"
  shows "diff_aligned old new"
  using diff_scan_spec(1,2) [of old new] assms
  unfolding diff_aligned_def diff_end_def
  by (auto intro!: u16_boundary_bmp simp: length_encode_bmp)

lemma encode_utf16_middle:
  assumes "u16_boundary s i" and "u16_boundary s j" and "i \<le> j"
  shows "encode_utf16 (drop (cut i s) (take (cut j s) s)) = drop i (take j (encode_utf16 s))"
proof -
  have pre: "take (cut i s) (take (cut j s) s) = take (cut i s) s"
    using cut_mono [OF assms(3), of s] by (simp add: min_absorb1)
  have "take j (encode_utf16 s) = encode_utf16 (take (cut j s) s)"
    by (rule take_encode_boundary [OF assms(2)])
  also have "\<dots> = encode_utf16 (take (cut i s) (take (cut j s) s))
      @ encode_utf16 (drop (cut i s) (take (cut j s) s))"
    by (metis append_take_drop_id encode_utf16_simps(3))
  finally have "take j (encode_utf16 s) = encode_utf16 (take (cut i s) s)
      @ encode_utf16 (drop (cut i s) (take (cut j s) s))" unfolding pre .
  moreover have "length (encode_utf16 (take (cut i s) s)) = i"
    using assms(1) by (simp add: u16_boundary_def)
  ultimately show ?thesis by simp
qed

lemma diff_middle_decompose:
  assumes "length (encode_utf16 old) < 2 ^ 32" and "diff_aligned old new"
    and "diff_middle old new = (start, del_len, ins)"
  shows "take start (encode_utf16 old) @ encode_utf16 ins
           @ drop (start + del_len) (encode_utf16 old) = encode_utf16 new"
    and "start = diff_prefix old new"
    and "start + del_len = length (encode_utf16 old) - diff_suffix old new"
proof -
  let ?u = "encode_utf16 old" and ?w = "encode_utf16 new"
  let ?p = "diff_prefix old new" and ?s = "diff_suffix old new"
  note spec = diff_scan_spec [of old new]
  have le: "?p \<le> diff_end old new" using spec(2) by (simp add: diff_end_def)
  from spec(1) assms(1) have sat: "saturate_u32 ?p = ?p"
    "saturate_u32 (length ?u - ?p - ?s) = length ?u - ?p - ?s"
    by (simp_all add: saturate_u32_def)
  note eq = assms(3) [unfolded diff_middle_eq sat]
  from eq have start: "start = ?p" and del: "del_len = length ?u - ?p - ?s"
    and ins: "ins = drop (cut ?p new) (take (cut (diff_end old new) new) new)"
    by auto
  show "start = ?p" by (rule start)
  show end_old: "start + del_len = length ?u - ?s" using spec(1) by (simp add: start del)
  have "encode_utf16 ins = drop ?p (take (diff_end old new) ?w)"
    using encode_utf16_middle [OF _ _ le] assms(2) by (simp add: ins diff_aligned_def)
  moreover have "take ?p ?u = take ?p (take (diff_end old new) ?w)"
    using spec(3) le by (simp add: min_absorb1)
  moreover have "drop (length ?u - ?s) ?u = drop (diff_end old new) ?w"
    using spec(4) by (simp add: diff_end_def)
  ultimately show "take start ?u @ encode_utf16 ins @ drop (start + del_len) ?u = ?w"
    unfolding end_old unfolding start by (metis append.assoc append_take_drop_id)
qed

lemma div_mod_recompose: "\<not> k < m \<Longrightarrow> (k::nat) = m + ((k - m) div n * n + (k - m) mod n)"
  by (simp only: div_mult_mod_eq)

lemma utf16_char_inj:
  assumes "scalar c" and "scalar d" and "utf16_char c @ x = utf16_char d @ y"
  shows "c = d \<and> x = y"
proof -
  have high: "0xD800 \<le> 0xD800 + (k - 0x10000) div 0x400 \<and> 0xD800 + (k - 0x10000) div 0x400 < 0xDC00"
    if "scalar k" for k :: nat
  proof -
    from that have "k - 0x10000 < 0x400 * 0x400" by (auto simp: scalar_def)
    then have "(k - 0x10000) div 0x400 < 0x400" by (rule less_mult_imp_div_less)
    then show ?thesis by simp
  qed
  have low: "\<not> (0xD800 \<le> k \<and> k < 0xDC00)" if "scalar k" for k :: nat
    using that by (auto simp: scalar_def)
  show ?thesis
  proof (cases "c < 0x10000"; cases "d < 0x10000")
    assume "c < 0x10000" "d < 0x10000"
    then show ?thesis using assms(3) by (simp add: utf16_char_def)
  next
    assume "c < 0x10000" "\<not> d < 0x10000"
    then have "c = 0xD800 + (d - 0x10000) div 0x400" using assms(3) by (simp add: utf16_char_def)
    with high [OF assms(2)] have "0xD800 \<le> c \<and> c < 0xDC00" by (simp only:)
    with low [OF assms(1)] show ?thesis by contradiction
  next
    assume "\<not> c < 0x10000" "d < 0x10000"
    then have "d = 0xD800 + (c - 0x10000) div 0x400" using assms(3) by (simp add: utf16_char_def)
    with high [OF assms(1)] have "0xD800 \<le> d \<and> d < 0xDC00" by (simp only:)
    with low [OF assms(2)] show ?thesis by contradiction
  next
    assume cd: "\<not> c < 0x10000" "\<not> d < 0x10000"
    then have "(c - 0x10000) div 0x400 = (d - 0x10000) div 0x400"
      "(c - 0x10000) mod 0x400 = (d - 0x10000) mod 0x400" "x = y"
      using assms(3) by (simp_all add: utf16_char_def)
    then show ?thesis
      using div_mod_recompose [OF cd(1), of "0x400"] div_mod_recompose [OF cd(2), of "0x400"]
      by metis
  qed
qed

lemma encode_utf16_inj:
  "\<forall>c \<in> set s. scalar c \<Longrightarrow> \<forall>c \<in> set t. scalar c \<Longrightarrow> encode_utf16 s = encode_utf16 t \<Longrightarrow> s = t"
proof (induction s arbitrary: t)
  case Nil
  then show ?case using len_utf16_pos by (cases t) (auto simp: len_utf16_def)
next
  case (Cons c s)
  then obtain d t' where t: "t = d # t'"
    using len_utf16_pos [of c] by (cases t) (auto simp: len_utf16_def)
  from Cons.prems(1,2) t have sc: "scalar c" "scalar d" "\<forall>c \<in> set s. scalar c" "\<forall>c \<in> set t'. scalar c"
    by simp_all
  from Cons.prems(3) t have "utf16_char c @ encode_utf16 s = utf16_char d @ encode_utf16 t'" by simp
  then have eq: "c = d \<and> encode_utf16 s = encode_utf16 t'" by (rule utf16_char_inj [OF sc(1,2)])
  from Cons.IH [OF sc(3,4)] eq have "s = t'" by blast
  with eq t show ?case by blast
qed

section \<open>Editing through the document\<close>

text \<open>
  What the engine relies on of yrs: a range given in UTF-16 units that covers whole characters is
  removed, and text is inserted at a unit offset that is a character boundary.
\<close>

definition yrs_edits :: "'d yrs \<Rightarrow> bool" where
  "yrs_edits Y \<longleftrightarrow>
     (\<forall>d pre mid post. y_string Y d = pre @ mid @ post \<longrightarrow>
        y_string Y (y_remove_range Y d (length (encode_utf16 pre)) (length (encode_utf16 mid)))
          = pre @ post)
     \<and> (\<forall>d pre post s. y_string Y d = pre @ post \<longrightarrow>
        y_string Y (y_insert Y d (length (encode_utf16 pre)) s) = pre @ s @ post)"

text \<open>A document that is its text, for the witnesses.\<close>

definition demo_yrs :: "ustr yrs" where
  "demo_yrs =
     \<lparr>y_new = (\<lambda>_. []), y_string = (\<lambda>d. d),
      y_remove_range = (\<lambda>d i n. take (cut i d) d @ drop (cut (i + n) d) d),
      y_insert = (\<lambda>d i s. take (cut i d) d @ s @ drop (cut i d) d),
      y_state_vector = (\<lambda>_. []), y_default_sv = [],
      y_encode_since = (\<lambda>d _. map word_of_nat d),
      y_apply_update = (\<lambda>d u. Inr (d @ map unat u))\<rparr>"

lemma yrs_edits_demo: "yrs_edits demo_yrs"
proof -
  have "cut (length (encode_utf16 pre) + length (encode_utf16 mid)) (pre @ mid @ post)
      = length pre + length mid" for pre mid post
    using cut_encode [of "pre @ mid" post] by simp
  then show ?thesis by (simp add: yrs_edits_def demo_yrs_def)
qed

lemma set_text_string:
  assumes Y: "yrs_edits Y"
    and sc: "\<forall>c \<in> set (y_string Y doc). scalar c" "\<forall>c \<in> set new. scalar c"
    and len: "length (encode_utf16 (y_string Y doc)) < 2 ^ 32"
    and al: "diff_aligned (y_string Y doc) new"
  shows "y_string Y (snd (set_text Y doc new)) = new"
proof -
  let ?old = "y_string Y doc"
  obtain start del_len ins where d: "diff_middle ?old new = (start, del_len, ins)"
    by (cases "diff_middle ?old new") auto
  note dec = diff_middle_decompose [OF len al d]
  define pre where "pre = take (cut start ?old) ?old"
  define post where "post = drop (cut (start + del_len) ?old) ?old"
  define mid where "mid = drop (cut start ?old) (take (cut (start + del_len) ?old) ?old)"
  have b: "u16_boundary ?old start" "u16_boundary ?old (start + del_len)"
    using al by (simp_all add: diff_aligned_def dec(2) dec(3))
      (simp add: dec(2) [symmetric] dec(3) [symmetric])
  have old: "?old = pre @ mid @ post"
    using cut_mono [of start "start + del_len" ?old]
    unfolding pre_def mid_def post_def
    by (metis append.assoc append_take_drop_id le_add1 min.absorb1 take_take)
  have lpre: "length (encode_utf16 pre) = start"
    using b(1) by (simp add: u16_boundary_def pre_def)
  have lmid: "length (encode_utf16 mid) = del_len"
  proof -
    have "length (encode_utf16 (pre @ mid)) = start + del_len"
      using b(2) cut_mono [of start "start + del_len" ?old]
      unfolding u16_boundary_def pre_def mid_def
      by (metis append_take_drop_id le_add1 min.absorb1 take_take)
    then show ?thesis using lpre by simp
  qed
  have epost: "drop (start + del_len) (encode_utf16 ?old) = encode_utf16 post"
    and epre: "take start (encode_utf16 ?old) = encode_utf16 pre"
    using lpre lmid by (simp_all add: old)
  define doc1 where "doc1 = (if del_len > 0 then y_remove_range Y doc start del_len else doc)"
  have d1: "y_string Y doc1 = pre @ post"
  proof (cases "del_len > 0")
    case True
    moreover have "y_string Y (y_remove_range Y doc (length (encode_utf16 pre)) (length (encode_utf16 mid)))
        = pre @ post"
      using Y old unfolding yrs_edits_def by blast
    ultimately show ?thesis by (simp add: doc1_def lpre lmid)
  next
    case False
    with lmid have "mid = []" using len_utf16_pos by (cases mid) (auto simp: len_utf16_def)
    then show ?thesis using False old by (simp add: doc1_def)
  qed
  have "y_string Y (if ins \<noteq> [] then y_insert Y doc1 start ins else doc1) = pre @ ins @ post"
  proof (cases "ins = []")
    case False
    moreover have "y_string Y (y_insert Y doc1 (length (encode_utf16 pre)) ins) = pre @ ins @ post"
      using Y d1 unfolding yrs_edits_def by blast
    ultimately show ?thesis by (simp add: lpre)
  qed (simp add: d1)
  then have st: "y_string Y (snd (set_text Y doc new)) = pre @ ins @ post"
    by (simp only: set_text_def text_content_def Let_def d prod.case snd_conv doc1_def [symmetric])
  have "ins = drop (cut (diff_prefix ?old new) new) (take (cut (diff_end ?old new) new) new)"
    using d by (simp add: diff_middle_eq)
  then have "set ins \<subseteq> set new" by (auto dest: in_set_dropD in_set_takeD)
  then have "\<forall>c \<in> set (pre @ ins @ post). scalar c" using sc old by auto
  moreover have "encode_utf16 (pre @ ins @ post) = encode_utf16 new"
    using dec(1) epre epost by simp
  ultimately have "pre @ ins @ post = new" using sc(2) encode_utf16_inj by blast
  with st show ?thesis by simp
qed


lemma emoji_scan:
  "diff_prefix [0x1F600] [0x1F601] = 1"
  "diff_suffix [0x1F600] [0x1F601] = 0"
  "diff_end [0x1F600] [0x1F601] = 2"
proof -
  show p: "diff_prefix [0x1F600] [0x1F601] = 1"
    by (simp add: diff_prefix_def utf16_char_def common_prefix.simps)
  show s: "diff_suffix [0x1F600] [0x1F601] = 0"
    unfolding diff_suffix_def p by (simp add: utf16_char_def common_suffix.simps)
  show "diff_end [0x1F600] [0x1F601] = 2"
    unfolding diff_end_def s by (simp add: utf16_char_def)
qed

lemma ascii_scan:
  "diff_prefix [97, 98, 99] [97, 98, 100, 99] = 2"
  "diff_suffix [97, 98, 99] [97, 98, 100, 99] = 1"
  "diff_end [97, 98, 99] [97, 98, 100, 99] = 3"
proof -
  show p: "diff_prefix [97, 98, 99] [97, 98, 100, 99] = 2"
    by (simp add: diff_prefix_def utf16_char_def common_prefix.simps)
  show s: "diff_suffix [97, 98, 99] [97, 98, 100, 99] = 1"
    unfolding diff_suffix_def p by (simp add: utf16_char_def common_suffix.simps)
  show "diff_end [97, 98, 99] [97, 98, 100, 99] = 3"
    unfolding diff_end_def s by (simp add: utf16_char_def)
qed

section \<open>Properties\<close>

text \<open>Bytes published for a text decode back to it: reading the UTF-8 encoding of any sequence of
  Unicode scalar values with the validating decoder returns that sequence.\<close>

theorem utf8_round_trip:
  assumes "\<forall>c \<in> set s. scalar c"
  shows "from_utf8 (as_bytes s) = Some s"
  using assms by (rule from_utf8_as_bytes)

theorem utf8_round_trip_witness:
  "from_utf8 (as_bytes [0x61, 0xE9, 0x20AC, 0x1F600]) = Some [0x61, 0xE9, 0x20AC, 0x1F600]"
  by (rule utf8_round_trip) (simp add: scalar_def)



text \<open>A text inside the Basic Multilingual Plane never misaligns the diff, so there the code-unit
  splice that \<open>diff_middle\<close> describes (keep, delete, insert, keep) rebuilds the new text.\<close>

theorem diff_middle_splice_bmp:
  assumes "\<forall>c \<in> set old. c < 0x10000" and "\<forall>c \<in> set new. c < 0x10000"
    and "length old < 2 ^ 32" and "diff_middle old new = (start, del_len, ins)"
  shows "take start (encode_utf16 old) @ encode_utf16 ins
           @ drop (start + del_len) (encode_utf16 old) = encode_utf16 new"
  by (rule diff_middle_decompose(1) [OF _ diff_aligned_bmp [OF assms(1,2)] assms(4)])
    (use assms(3) in \<open>simp add: length_encode_bmp [OF assms(1)]\<close>)

theorem diff_middle_splice_bmp_witness:
  "take 2 (encode_utf16 [97, 98, 99]) @ encode_utf16 [100] @ drop (2 + 0) (encode_utf16 [97, 98, 99])
     = encode_utf16 [97, 98, 100, 99]"
  by (rule diff_middle_splice_bmp)
    (simp_all add: diff_middle_eq ascii_scan saturate_u32_def utf16_char_def len_utf16_def)


end
