(* ===== verification/Binary_Pack.thy ===== *)
theory Binary_Pack
  imports Types
begin

text \<open>
  Chunking, packing, manifest merge and pack classification of \<^verbatim>\<open>src/src/binary.rs\<close>. The FastCDC
  cut points are not under src/: \<open>cdc\<close> gives the offsets and lengths of the chunks of a file.
  Byte lengths and offsets are stored at the width the code stores them.
\<close>

section \<open>Data\<close>

record chunk_info =
  ci_hash :: string
  ci_offset :: u64
  ci_length :: u32

record packed_chunk =
  pc_hash :: string
  pc_offset :: u64
  pc_length :: u32

record pack_index =
  pi_pack_id :: string
  pi_chunks :: "packed_chunk list"

type_synonym chunk = "chunk_info \<times> bytes"
type_synonym pack = "string \<times> bytes \<times> pack_index"

definition TARGET_PACK_SIZE :: nat where
  "TARGET_PACK_SIZE = 4 * 1024 * 1024"

definition MAX_SIZE :: nat where
  "MAX_SIZE = 64 * 1024"

section \<open>Packing\<close>

definition seal_pack :: "crypto \<Rightarrow> bytes \<Rightarrow> packed_chunk list \<Rightarrow> pack" where
  "seal_pack cr buf chunks =
     (let pack_id = blake3_hex cr buf
      in (pack_id, buf, \<lparr>pi_pack_id = pack_id, pi_chunks = chunks\<rparr>))"

type_synonym pack_state = "pack list \<times> string set \<times> bytes \<times> packed_chunk list"

fun pack_step :: "crypto \<Rightarrow> pack_state \<Rightarrow> chunk \<Rightarrow> pack_state" where
  "pack_step cr (packs, seen, buf, chunks) (info, bs) =
     (if ci_hash info \<in> seen then (packs, seen, buf, chunks)
      else
        let seen = insert (ci_hash info) seen;
            chunks = chunks @ [\<lparr>pc_hash = ci_hash info, pc_offset = word_of_nat (length buf),
                                pc_length = word_of_nat (saturate_u32 (length bs))\<rparr>];
            buf = buf @ bs
        in if length buf \<ge> TARGET_PACK_SIZE then (packs @ [seal_pack cr buf chunks], seen, [], [])
           else (packs, seen, buf, chunks))"

definition build_packs :: "crypto \<Rightarrow> chunk list \<Rightarrow> pack list" where
  "build_packs cr new_chunks =
     (case foldl (pack_step cr) ([], {}, [], []) new_chunks of
        (packs, seen, buf, chunks) \<Rightarrow>
          if buf \<noteq> [] then packs @ [seal_pack cr buf chunks] else packs)"

text \<open>The pack and index objects that the runtime puts in a batch from the built packs.\<close>

definition pack_objects :: "pack list \<Rightarrow> blob_object list" where
  "pack_objects packs = map (\<lambda>(i, data, _). \<lparr>ob_id = i, ob_data = data\<rparr>) packs"

definition index_objects :: "(pack_index \<Rightarrow> bytes) \<Rightarrow> pack list \<Rightarrow> blob_object list" where
  "index_objects enc packs = map (\<lambda>(i, _, index). \<lparr>ob_id = i, ob_data = enc index\<rparr>) packs"

section \<open>Chunking\<close>

definition chunk_data :: "crypto \<Rightarrow> (bytes \<Rightarrow> (nat \<times> nat) list) \<Rightarrow> bytes \<Rightarrow> chunk list" where
  "chunk_data cr cdc data =
     map (\<lambda>(offset, len).
            let bs = take len (drop offset data)
            in (\<lparr>ci_hash = blake3_hex cr bs, ci_offset = word_of_nat offset,
                 ci_length = word_of_nat (saturate_u32 len)\<rparr>, bs))
       (cdc data)"

definition manifest :: "crypto \<Rightarrow> (bytes \<Rightarrow> (nat \<times> nat) list) \<Rightarrow> bytes \<Rightarrow> string list" where
  "manifest cr cdc data = map (\<lambda>(c, _). ci_hash c) (chunk_data cr cdc data)"

definition verify_chunk :: "crypto \<Rightarrow> string \<Rightarrow> bytes \<Rightarrow> bool" where
  "verify_chunk cr expected_hash bs \<longleftrightarrow> blake3_hex cr bs = expected_hash"

fun reassemble :: "string list \<Rightarrow> (string \<Rightarrow> 'e + bytes) \<Rightarrow> 'e + bytes" where
  "reassemble [] fetch = Inr []"
| "reassemble (h # hs) fetch =
     bind_result (fetch h) (\<lambda>bs. bind_result (reassemble hs fetch) (\<lambda>rest. Inr (bs @ rest)))"

section \<open>Manifest merge\<close>

datatype binary_conflict_policy = Manual | KeepLocal | KeepRemote | KeepBoth

datatype binary_merge =
    Unchanged "string list"
  | FastForward "string list"
  | NeedsResolution
  | MergeConflicted "string list" bool

definition merge_manifests ::
  "string list \<Rightarrow> string list \<Rightarrow> string list \<Rightarrow> binary_conflict_policy \<Rightarrow> binary_merge" where
  "merge_manifests base loc rem policy =
     (let local_changed = loc \<noteq> base; remote_changed = rem \<noteq> base
      in case (local_changed, remote_changed) of
           (False, False) \<Rightarrow> Unchanged base
         | (True, False) \<Rightarrow> FastForward loc
         | (False, True) \<Rightarrow> FastForward rem
         | (True, True) \<Rightarrow>
             if loc = rem then Unchanged loc
             else (case policy of
                 Manual \<Rightarrow> NeedsResolution
               | KeepLocal \<Rightarrow> MergeConflicted loc False
               | KeepRemote \<Rightarrow> MergeConflicted rem False
               | KeepBoth \<Rightarrow> MergeConflicted loc True))"

section \<open>Pack classification\<close>

datatype pack_gc = KeepPack | DeletePack | KeepMixed | Repack "string list"

text \<open>\<^verbatim>\<open>n as f64\<close> for an unsigned integer: round to nearest, ties to even, at 53 bits.\<close>

fun f64_shift :: "nat \<Rightarrow> nat" where
  "f64_shift n = (if n < 2 ^ 53 then 0 else Suc (f64_shift (n div 2)))"

declare f64_shift.simps [simp del]

definition as_f64 :: "nat \<Rightarrow> nat" where
  "as_f64 n =
     (let e = f64_shift n; q = n div 2 ^ e; r = n mod 2 ^ e
      in if 2 * r > 2 ^ e \<or> (2 * r = 2 ^ e \<and> odd q) then (q + 1) * 2 ^ e else q * 2 ^ e)"

fun classify_step ::
  "string set \<Rightarrow> u64 \<times> u64 \<times> string list \<Rightarrow> packed_chunk \<Rightarrow> u64 \<times> u64 \<times> string list" where
  "classify_step live (live_bytes, dead_bytes, live_hashes) c =
     (if pc_hash c \<in> live then (live_bytes + ucast (pc_length c), dead_bytes, live_hashes @ [pc_hash c])
      else (live_bytes, dead_bytes + ucast (pc_length c), live_hashes))"

text \<open>Multiplying a float by \<^verbatim>\<open>REPACK_DEAD_FRACTION\<close> = 0.5 is exact, so the test doubles the other side.\<close>

definition classify_pack :: "packed_chunk list \<Rightarrow> string set \<Rightarrow> pack_gc" where
  "classify_pack chunks live =
     (case foldl (classify_step live) (0, 0, []) chunks of
        (live_bytes, dead_bytes, live_hashes) \<Rightarrow>
          let total = live_bytes + dead_bytes
          in if dead_bytes = 0 \<or> total = 0 then KeepPack
             else if live_bytes = 0 then DeletePack
             else if 2 * as_f64 (unat dead_bytes) \<ge> as_f64 (unat total) then Repack live_hashes
             else KeepMixed)"

section \<open>Packing is located, deduplicated and bounded\<close>

definition chunk_at :: "bytes \<Rightarrow> packed_chunk \<Rightarrow> bytes" where
  "chunk_at buf c = take (unat (pc_length c)) (drop (unat (pc_offset c)) buf)"

definition located :: "chunk list \<Rightarrow> bytes \<Rightarrow> packed_chunk list \<Rightarrow> bool" where
  "located xs buf chunks \<longleftrightarrow>
     (\<forall>c \<in> set chunks. unat (pc_offset c) + unat (pc_length c) \<le> length buf
        \<and> (\<exists>info bs. (info, bs) \<in> set xs \<and> ci_hash info = pc_hash c \<and> chunk_at buf c = bs))"

definition sealed :: "crypto \<Rightarrow> chunk list \<Rightarrow> pack \<Rightarrow> bool" where
  "sealed cr xs p \<longleftrightarrow>
     (case p of (pack_id, buf, index) \<Rightarrow>
        pack_id = blake3_hex cr buf \<and> pi_pack_id index = pack_id \<and> located xs buf (pi_chunks index))"

definition first_occurrences :: "'a list \<Rightarrow> 'a list" where
  "first_occurrences xs = rev (remdups (rev xs))"

definition chunk_hashes :: "chunk list \<Rightarrow> string list" where
  "chunk_hashes xs = map (\<lambda>(i, _). ci_hash i) xs"

definition index_hashes :: "pack \<Rightarrow> string list" where
  "index_hashes p = map pc_hash (pi_chunks (snd (snd p)))"

definition chunks_small :: "chunk list \<Rightarrow> bool" where
  "chunks_small xs \<longleftrightarrow> (\<forall>(i, bs) \<in> set xs. bs \<noteq> [] \<and> length bs \<le> MAX_SIZE)"

fun pack_inv :: "crypto \<Rightarrow> chunk list \<Rightarrow> pack_state \<Rightarrow> bool" where
  "pack_inv cr xs (packs, seen, buf, chunks) \<longleftrightarrow>
     seen = set (chunk_hashes xs)
     \<and> length buf < TARGET_PACK_SIZE
     \<and> located xs buf chunks
     \<and> (\<forall>p \<in> set packs. sealed cr xs p \<and> TARGET_PACK_SIZE \<le> length (fst (snd p))
           \<and> length (fst (snd p)) < TARGET_PACK_SIZE + MAX_SIZE)
     \<and> concat (map index_hashes packs) @ map pc_hash chunks = first_occurrences (chunk_hashes xs)
     \<and> (buf = [] \<longrightarrow> chunks = [])"

lemma located_mono: "located xs buf chunks \<Longrightarrow> set xs \<subseteq> set ys \<Longrightarrow> located ys buf chunks"
  unfolding located_def by blast

lemma sealed_mono: "sealed cr xs p \<Longrightarrow> set xs \<subseteq> set ys \<Longrightarrow> sealed cr ys p"
  unfolding sealed_def by (auto split: prod.splits intro: located_mono)

lemma located_append:
  assumes "located xs buf chunks" shows "located xs (buf @ bs) chunks"
  unfolding located_def
proof
  fix c assume "c \<in> set chunks"
  with assms have b: "unat (pc_offset c) + unat (pc_length c) \<le> length buf"
    and ex: "\<exists>info bs. (info, bs) \<in> set xs \<and> ci_hash info = pc_hash c \<and> chunk_at buf c = bs"
    by (auto simp: located_def)
  have "chunk_at (buf @ bs) c = chunk_at buf c" using b by (simp add: chunk_at_def)
  with b ex show "unat (pc_offset c) + unat (pc_length c) \<le> length (buf @ bs)
      \<and> (\<exists>info bs'. (info, bs') \<in> set xs \<and> ci_hash info = pc_hash c \<and> chunk_at (buf @ bs) c = bs')"
    by simp
qed

lemma located_snoc:
  assumes "located xs buf chunks" and "length buf < TARGET_PACK_SIZE" and "length bs \<le> MAX_SIZE"
  shows "located (xs @ [(info, bs)]) (buf @ bs)
    (chunks @ [\<lparr>pc_hash = ci_hash info, pc_offset = word_of_nat (length buf),
                pc_length = word_of_nat (saturate_u32 (length bs))\<rparr>])"
proof -
  have "unat (word_of_nat (length buf) :: u64) = length buf"
    using assms(2) by (intro unat_word_of_nat) (simp add: TARGET_PACK_SIZE_def)
  moreover have "unat (word_of_nat (saturate_u32 (length bs)) :: u32) = length bs"
    using assms(3) by (subst unat_word_of_nat) (simp_all add: saturate_u32_def MAX_SIZE_def)
  moreover have "located (xs @ [(info, bs)]) (buf @ bs) chunks"
    by (rule located_mono [OF located_append [OF assms(1)]]) auto
  ultimately show ?thesis by (auto simp: located_def chunk_at_def)
qed

lemma first_occurrences_snoc:
  "first_occurrences (xs @ [x]) =
     (if x \<in> set xs then first_occurrences xs else first_occurrences xs @ [x])"
  by (simp add: first_occurrences_def)

lemma sealed_seal_pack: "located xs buf chunks \<Longrightarrow> sealed cr xs (seal_pack cr buf chunks)"
  by (simp add: sealed_def seal_pack_def Let_def)

lemma index_hashes_seal_pack [simp]: "index_hashes (seal_pack cr buf chunks) = map pc_hash chunks"
  by (simp add: index_hashes_def seal_pack_def Let_def)

lemma bytes_seal_pack [simp]: "fst (snd (seal_pack cr buf chunks)) = buf"
  by (simp add: seal_pack_def Let_def)

lemma chunk_hashes_simps [simp]:
  "chunk_hashes [] = []"
  "chunk_hashes (xs @ [(info, bs)]) = chunk_hashes xs @ [ci_hash info]"
  by (simp_all add: chunk_hashes_def)

lemma pack_step_inv:
  assumes inv: "pack_inv cr xs (packs, seen, buf, chunks)"
    and small: "bs \<noteq> []" "length bs \<le> MAX_SIZE"
  shows "pack_inv cr (xs @ [(info, bs)]) (pack_step cr (packs, seen, buf, chunks) (info, bs))"
proof -
  let ?xs = "xs @ [(info, bs)]"
  let ?c = "\<lparr>pc_hash = ci_hash info, pc_offset = word_of_nat (length buf),
             pc_length = word_of_nat (saturate_u32 (length bs))\<rparr>"
  have sub: "set xs \<subseteq> set ?xs" by auto
  from inv have packs: "\<forall>p \<in> set packs. sealed cr ?xs p \<and> TARGET_PACK_SIZE \<le> length (fst (snd p))
      \<and> length (fst (snd p)) < TARGET_PACK_SIZE + MAX_SIZE"
    using sealed_mono [OF _ sub] by auto
  show ?thesis
  proof (cases "ci_hash info \<in> seen")
    case True
    then show ?thesis using inv packs located_mono [OF _ sub]
      by (auto simp: first_occurrences_snoc)
  next
    case False
    have loc: "located ?xs (buf @ bs) (chunks @ [?c])"
      using inv small(2) by (intro located_snoc) auto
    show ?thesis
    proof (cases "length (buf @ bs) \<ge> TARGET_PACK_SIZE")
      case True
      have "length (buf @ bs) < TARGET_PACK_SIZE + MAX_SIZE" using inv small(2) by simp
      with True False inv packs sealed_seal_pack [OF loc] show ?thesis
        by (auto simp: first_occurrences_snoc Let_def located_def TARGET_PACK_SIZE_def)
    next
      case F: False
      with False inv packs loc small(1) show ?thesis
        by (auto simp: first_occurrences_snoc Let_def)
    qed
  qed
qed

lemma pack_loop_inv:
  "chunks_small xs \<Longrightarrow> pack_inv cr xs (foldl (pack_step cr) ([], {}, [], []) xs)"
proof (induction xs rule: rev_induct)
  case Nil
  show ?case by (simp add: located_def first_occurrences_def TARGET_PACK_SIZE_def)
next
  case (snoc x xs)
  obtain info bs where x: "x = (info, bs)" by (cases x)
  obtain packs seen buf chunks
    where st: "foldl (pack_step cr) ([], {}, [], []) xs = (packs, seen, buf, chunks)"
    by (metis prod_cases4)
  have small: "chunks_small xs" "bs \<noteq> []" "length bs \<le> MAX_SIZE"
    using snoc.prems x by (auto simp: chunks_small_def)
  have "pack_inv cr xs (packs, seen, buf, chunks)" using snoc.IH [OF small(1)] st by metis
  from pack_step_inv [OF this small(2,3), of info] show ?case
    unfolding x foldl_append foldl.simps st .
qed

lemma build_packs_facts:
  assumes "chunks_small xs"
  shows "p \<in> set (build_packs cr xs) \<Longrightarrow> sealed cr xs p"
    and "p \<in> set (build_packs cr xs) \<Longrightarrow> length (fst (snd p)) < TARGET_PACK_SIZE + MAX_SIZE"
    and "p \<in> set (butlast (build_packs cr xs)) \<Longrightarrow> TARGET_PACK_SIZE \<le> length (fst (snd p))"
    and "concat (map index_hashes (build_packs cr xs)) = first_occurrences (chunk_hashes xs)"
proof -
  obtain packs seen buf chunks
    where st: "foldl (pack_step cr) ([], {}, [], []) xs = (packs, seen, buf, chunks)"
    by (metis prod_cases4)
  with pack_loop_inv [OF assms, of cr] have inv: "pack_inv cr xs (packs, seen, buf, chunks)" by simp
  have eq: "build_packs cr xs = (if buf \<noteq> [] then packs @ [seal_pack cr buf chunks] else packs)"
    by (simp add: build_packs_def st)
  show "p \<in> set (build_packs cr xs) \<Longrightarrow> sealed cr xs p"
    using inv sealed_seal_pack [of xs buf chunks cr] by (auto simp: eq split: if_splits)
  show "p \<in> set (build_packs cr xs) \<Longrightarrow> length (fst (snd p)) < TARGET_PACK_SIZE + MAX_SIZE"
    using inv by (auto simp: eq split: if_splits)
  show "p \<in> set (butlast (build_packs cr xs)) \<Longrightarrow> TARGET_PACK_SIZE \<le> length (fst (snd p))"
    using inv by (auto simp: eq split: if_splits dest: in_set_butlastD)
  show "concat (map index_hashes (build_packs cr xs)) = first_occurrences (chunk_hashes xs)"
    using inv by (auto simp: eq)
qed

section \<open>Chunking tiles the file\<close>

text \<open>What the code relies on of FastCDC: the chunks are non-empty ranges of at most
  \<^verbatim>\<open>MAX_SIZE\<close> bytes that tile the input in order.\<close>

definition cdc_tiles :: "(bytes \<Rightarrow> (nat \<times> nat) list) \<Rightarrow> bool" where
  "cdc_tiles cdc \<longleftrightarrow>
     (\<forall>data. concat (map (\<lambda>(offset, len). take len (drop offset data)) (cdc data)) = data
        \<and> (\<forall>(offset, len) \<in> set (cdc data). 0 < len \<and> len \<le> MAX_SIZE \<and> offset + len \<le> length data))"

definition demo_cdc :: "bytes \<Rightarrow> (nat \<times> nat) list" where
  "demo_cdc data = map (\<lambda>i. (i, 1)) [0..<length data]"

lemma concat_singletons: "concat (map (\<lambda>i. take (Suc 0) (drop i data)) [0..<length data]) = data"
proof (induction data)
  case Nil
  show ?case by simp
next
  case (Cons x xs)
  have "[0..<length (x # xs)] = 0 # map Suc [0..<length xs]"
    by (simp add: map_Suc_upt upt_conv_Cons del: upt_Suc)
  with Cons show ?case by (simp add: comp_def del: upt_Suc)
qed

lemma cdc_tiles_demo: "cdc_tiles demo_cdc"
  using concat_singletons by (auto simp: cdc_tiles_def demo_cdc_def comp_def MAX_SIZE_def)

lemma chunk_data_concat:
  assumes "cdc_tiles cdc" shows "concat (map snd (chunk_data cr cdc data)) = data"
proof -
  have "map snd (chunk_data cr cdc data)
      = map (\<lambda>(offset, len). take len (drop offset data)) (cdc data)"
    by (auto simp: chunk_data_def Let_def)
  with assms show ?thesis by (simp add: cdc_tiles_def)
qed

lemma chunk_data_hash: "(info, bs) \<in> set (chunk_data cr cdc data) \<Longrightarrow> ci_hash info = blake3_hex cr bs"
  by (auto simp: chunk_data_def Let_def)

lemma chunk_data_small: "cdc_tiles cdc \<Longrightarrow> chunks_small (chunk_data cr cdc data)"
  by (fastforce simp: chunks_small_def chunk_data_def cdc_tiles_def Let_def)

lemma reassemble_map:
  "(\<And>info bs. (info, bs) \<in> set xs \<Longrightarrow> fetch (ci_hash info) = Inr bs) \<Longrightarrow>
   reassemble (map (\<lambda>(c, _). ci_hash c) xs) fetch = Inr (concat (map snd xs))"
  by (induction xs) auto

section \<open>Classification in exact arithmetic\<close>

definition live_total :: "string set \<Rightarrow> packed_chunk list \<Rightarrow> nat" where
  "live_total live cs = sum_list (map (\<lambda>c. unat (pc_length c)) (filter (\<lambda>c. pc_hash c \<in> live) cs))"

definition dead_total :: "string set \<Rightarrow> packed_chunk list \<Rightarrow> nat" where
  "dead_total live cs = sum_list (map (\<lambda>c. unat (pc_length c)) (filter (\<lambda>c. pc_hash c \<notin> live) cs))"

lemma classify_loop:
  "foldl (classify_step live) (0, 0, []) cs =
     (word_of_nat (live_total live cs), word_of_nat (dead_total live cs),
      map pc_hash (filter (\<lambda>c. pc_hash c \<in> live) cs))"
proof (induction cs rule: rev_induct)
  case Nil
  show ?case by (simp add: live_total_def dead_total_def)
next
  case (snoc c cs)
  then show ?case
    by (simp add: live_total_def dead_total_def)
qed

lemma as_f64_exact: "n < 2 ^ 53 \<Longrightarrow> as_f64 n = n"
  by (simp add: as_f64_def f64_shift.simps [of n] Let_def)

lemma word_of_nat_zero_iff: "n < 2 ^ 64 \<Longrightarrow> (word_of_nat n :: u64) = 0 \<longleftrightarrow> n = 0"
  by (auto simp: word_of_nat_eq_0_iff dest: dvd_imp_le)

lemma classify_pack_exact:
  assumes "live_total live cs + dead_total live cs < 2 ^ 53"
  shows "classify_pack cs live =
    (if dead_total live cs = 0 then KeepPack
     else if live_total live cs = 0 then DeletePack
     else if 2 * dead_total live cs \<ge> live_total live cs + dead_total live cs
       then Repack (map pc_hash (filter (\<lambda>c. pc_hash c \<in> live) cs))
     else KeepMixed)"
proof -
  let ?L = "live_total live cs" and ?D = "dead_total live cs"
  have sum: "(word_of_nat ?L + word_of_nat ?D :: u64) = word_of_nat (?L + ?D)" by simp
  have "?L + ?D < 2 ^ 64" "?L < 2 ^ 64" "?D < 2 ^ 64" "?D < 2 ^ 53" using assms by simp_all
  then show ?thesis using assms
    unfolding classify_pack_def classify_loop prod.case Let_def sum
    by (simp add: word_of_nat_zero_iff unat_word_of_nat as_f64_exact del: of_nat_add)
qed

section \<open>Properties\<close>

text \<open>Chunking loses nothing: fetching the chunks of a file's manifest by hash and concatenating
  them gives back the file, for every fetcher that returns the stored chunks.\<close>

theorem chunk_reassemble_round_trip:
  assumes "cdc_tiles cdc"
    and "\<forall>(info, bs) \<in> set (chunk_data cr cdc data). fetch (ci_hash info) = Inr bs"
  shows "reassemble (manifest cr cdc data) fetch = Inr data"
  unfolding manifest_def using assms
  by (subst reassemble_map) (auto simp: chunk_data_concat)

theorem chunk_reassemble_round_trip_witness:
  "reassemble (manifest demo_crypto demo_cdc [1, 2, 1])
     (\<lambda>h. Inr (map (\<lambda>c. word_of_nat (of_char c)) h) :: unit + bytes) = Inr [1, 2, 1]"
  by (rule chunk_reassemble_round_trip [OF cdc_tiles_demo])
    (auto simp: chunk_data_def demo_cdc_def demo_crypto_def Let_def upt_conv_Cons)

text \<open>Every pack is self-describing: its id is the hash of its bytes, its index carries that id,
  and each indexed range lies inside the pack and holds the bytes of an offered chunk with the
  indexed hash.\<close>

theorem build_packs_located:
  assumes "chunks_small xs" and "p \<in> set (build_packs cr xs)"
  shows "sealed cr xs p"
  by (rule build_packs_facts(1) [OF assms])

definition demo_chunk :: chunk where
  "demo_chunk = (\<lparr>ci_hash = ''h'', ci_offset = 0, ci_length = 2\<rparr>, [7, 8])"

definition demo_pack :: pack where
  "demo_pack = seal_pack demo_crypto [7, 8] [\<lparr>pc_hash = ''h'', pc_offset = 0, pc_length = 2\<rparr>]"

lemma build_packs_demo: "build_packs demo_crypto [demo_chunk, demo_chunk] = [demo_pack]"
  by (simp add: build_packs_def demo_chunk_def demo_pack_def TARGET_PACK_SIZE_def saturate_u32_def Let_def)

lemma demo_chunks_small: "chunks_small [demo_chunk, demo_chunk]"
  by (simp add: chunks_small_def demo_chunk_def MAX_SIZE_def)

theorem build_packs_located_witness: "sealed demo_crypto [demo_chunk, demo_chunk] demo_pack"
  by (rule build_packs_located [OF demo_chunks_small]) (simp add: build_packs_demo)

text \<open>Packing is complete and deduplicating: the packed hashes, over all packs in order, are the
  offered hashes with every repetition after the first dropped.\<close>

theorem build_packs_dedup:
  assumes "chunks_small xs"
  shows "concat (map index_hashes (build_packs cr xs)) = first_occurrences (chunk_hashes xs)"
  by (rule build_packs_facts(4) [OF assms])

theorem build_packs_dedup_witness:
  "concat (map index_hashes (build_packs demo_crypto [demo_chunk, demo_chunk])) = [''h'']"
  using build_packs_dedup [OF demo_chunks_small, of demo_crypto]
  by (simp add: first_occurrences_def chunk_hashes_def demo_chunk_def)

text \<open>C32. Pack sizes are bounded: a pack exceeds the target by less than one maximal chunk, and every
  pack but the last reaches the target.\<close>

theorem build_packs_bounds:
  assumes "chunks_small xs"
  shows "(\<forall>p \<in> set (build_packs cr xs). length (fst (snd p)) < TARGET_PACK_SIZE + MAX_SIZE)
    \<and> (\<forall>p \<in> set (butlast (build_packs cr xs)). TARGET_PACK_SIZE \<le> length (fst (snd p)))"
  by (auto intro: build_packs_facts(2,3) [OF assms])

theorem build_packs_bounds_witness:
  "length (fst (snd demo_pack)) < TARGET_PACK_SIZE + MAX_SIZE"
  using conjunct1 [OF build_packs_bounds [OF demo_chunks_small, of demo_crypto]]
  by (simp add: build_packs_demo)

text \<open>The manifest merge is a three-way merge: it is unchanged exactly on agreement, takes the one
  changed side, and otherwise reports the conflict with the manifest the policy keeps, asking for a
  copy exactly under KeepBoth.\<close>

theorem merge_manifests_three_way:
  "case merge_manifests base loc rem policy of
     Unchanged m \<Rightarrow> loc = rem \<and> m = loc
   | FastForward m \<Rightarrow> loc \<noteq> rem \<and> (loc = base \<and> m = rem \<or> rem = base \<and> m = loc)
   | NeedsResolution \<Rightarrow> loc \<noteq> base \<and> rem \<noteq> base \<and> loc \<noteq> rem \<and> policy = Manual
   | MergeConflicted m copy \<Rightarrow> loc \<noteq> base \<and> rem \<noteq> base \<and> loc \<noteq> rem \<and> policy \<noteq> Manual
       \<and> m = (if policy = KeepRemote then rem else loc) \<and> (copy \<longleftrightarrow> policy = KeepBoth)"
  by (cases "loc = base"; cases "rem = base"; cases policy) (auto simp: merge_manifests_def)

text \<open>C33. Pack classification is the exact rational test: below 2^53 bytes the wrapping sums and the
  float comparison decide keep, delete, repack at half dead bytes or more, and keep mixed exactly as
  on natural numbers, and a repack keeps precisely the live chunks in pack order.\<close>

theorem classify_pack_is_exact:
  assumes "live_total live cs + dead_total live cs < 2 ^ 53"
  shows "classify_pack cs live =
    (if dead_total live cs = 0 then KeepPack
     else if live_total live cs = 0 then DeletePack
     else if 2 * dead_total live cs \<ge> live_total live cs + dead_total live cs
       then Repack (map pc_hash (filter (\<lambda>c. pc_hash c \<in> live) cs))
     else KeepMixed)"
  by (rule classify_pack_exact [OF assms])

theorem classify_pack_is_exact_witness:
  "classify_pack [\<lparr>pc_hash = ''a'', pc_offset = 0, pc_length = 10\<rparr>,
                  \<lparr>pc_hash = ''b'', pc_offset = 10, pc_length = 10\<rparr>] {''a''} = Repack [''a'']"
  by (subst classify_pack_is_exact) (simp_all add: live_total_def dead_total_def)

end
