(* ===== verification/Cursors.thy ===== *)
theory Cursors
  imports Types
begin

text \<open>
  Catalog cursors as the remote and the runtime both keep them: the newest counter seen of each
  client in each scope. \<^verbatim>\<open>entry(k).and_modify(max).or_insert\<close> is \<open>cursor_bump\<close>.
\<close>

definition str_bytes :: "string \<Rightarrow> bytes" where
  "str_bytes s = map (\<lambda>c. word_of_nat (of_char c)) s"

definition commit_event :: "commit \<Rightarrow> catalog_event" where
  "commit_event c = \<lparr>ev_client = cm_author c, ev_counter = cm_counter c, ev_commit = cm_id c,
                     ev_resource = cm_resource c\<rparr>"

type_synonym cursor_map = "((string \<times> string) \<times> u64) list"

definition cursor_get :: "cursor_map \<Rightarrow> string \<times> string \<Rightarrow> u64" where
  "cursor_get m k = unwrap_or 0 (map_of m k)"

definition cursor_bump :: "string \<times> string \<Rightarrow> u64 \<Rightarrow> cursor_map \<Rightarrow> cursor_map" where
  "cursor_bump k n m = bt_insert k (case map_of m k of None \<Rightarrow> n | Some v \<Rightarrow> max v n) m"

definition cursor_key :: "catalog_cursor \<Rightarrow> string \<times> string" where
  "cursor_key c = (cu_client c, cu_scope c)"

definition event_key :: "catalog_event \<Rightarrow> string \<times> string" where
  "event_key e = (ev_client e, scope_id (ev_resource e))"

definition cursors_of :: "cursor_map \<Rightarrow> catalog_cursor list" where
  "cursors_of m = map (\<lambda>((c, s), n). \<lparr>cu_client = c, cu_scope = s, cu_counter = n\<rparr>) m"

definition covered_by :: "catalog_cursor list \<Rightarrow> cursor_map" where
  "covered_by cs = bt_collect (map (\<lambda>c. (cursor_key c, cu_counter c)) cs)"

definition bumps :: "((string \<times> string) \<times> u64) list \<Rightarrow> cursor_map \<Rightarrow> cursor_map" where
  "bumps ps m = foldl (\<lambda>m (k, n). cursor_bump k n m) m ps"

section \<open>Cursors only advance\<close>

lemma cursor_get_bump:
  "cursor_get (cursor_bump k n m) k' = (if k' = k then max (cursor_get m k) n else cursor_get m k')"
  by (auto simp: cursor_get_def cursor_bump_def split: option.splits)

lemma cursor_get_bumps_ge: "cursor_get m k \<le> cursor_get (bumps ps m) k"
proof (induction ps arbitrary: m)
  case Nil
  show ?case by (simp add: bumps_def)
next
  case (Cons p ps)
  obtain k' n where p: "p = (k', n)" by (cases p)
  have "cursor_get m k \<le> cursor_get (cursor_bump k' n m) k" by (simp add: cursor_get_bump)
  also have "\<dots> \<le> cursor_get (bumps ps (cursor_bump k' n m)) k" by (rule Cons.IH)
  finally show ?case by (simp add: bumps_def p)
qed

lemma cursor_get_bumps_mem: "(k, n) \<in> set ps \<Longrightarrow> n \<le> cursor_get (bumps ps m) k"
proof (induction ps arbitrary: m)
  case Nil
  then show ?case by simp
next
  case (Cons p ps)
  show ?case
  proof (cases "p = (k, n)")
    case True
    have "n \<le> cursor_get (cursor_bump k n m) k" by (simp add: cursor_get_bump)
    also have "\<dots> \<le> cursor_get (bumps ps (cursor_bump k n m)) k" by (rule cursor_get_bumps_ge)
    finally show ?thesis by (simp add: bumps_def True)
  next
    case False
    with Cons.prems have "(k, n) \<in> set ps" by auto
    from Cons.IH [OF this] show ?thesis by (simp add: bumps_def split: prod.splits)
  qed
qed

lemma cursor_get_bumps_source:
  "cursor_get (bumps ps m) k = cursor_get m k \<or> (k, cursor_get (bumps ps m) k) \<in> set ps"
proof (induction ps arbitrary: m)
  case Nil
  show ?case by (simp add: bumps_def)
next
  case (Cons p ps)
  obtain k' n where p: "p = (k', n)" by (cases p)
  from Cons.IH [of "cursor_bump k' n m"] show ?case
    by (auto simp: bumps_def p cursor_get_bump max_def split: if_splits)
qed

lemma bt_ok_bumps: "bt_ok m \<Longrightarrow> bt_ok (bumps ps m)"
  by (induction ps arbitrary: m) (auto simp: bumps_def cursor_bump_def)

text \<open>The cursor list of a delta is a map again when it comes back with the next request.\<close>

lemma covered_by_cursors_of:
  assumes "bt_ok m" shows "map_of (covered_by (cursors_of m)) = map_of m"
proof -
  have "map (\<lambda>c. (cursor_key c, cu_counter c)) (cursors_of m) = m"
    by (induction m) (auto simp: cursors_of_def cursor_key_def)
  moreover have "map_of (rev m) = map_of m"
    using bt_ok_distinct [OF assms] by (subst map_of_inject_set) (simp_all add: rev_map [symmetric])
  ultimately show ?thesis by (simp add: covered_by_def)
qed

end
