(* ===== verification/Folder_Remote.thy ===== *)
theory Folder_Remote
  imports Binary_Pack Cursors
begin

text \<open>
  \<^verbatim>\<open>LocalFolderRemoteV2\<close> of \<^verbatim>\<open>src/src/v2_remote.rs\<close>: the catalog of immutable objects kept in a
  directory tree. The tree is the list of its files, a path below the root with its bytes; the
  order of the list is the order in which \<^verbatim>\<open>read_dir\<close> happens to return them, and no definition
  depends on it beyond that. A read of an absent file fails; a write succeeds (device failures are
  not modelled), and \<^verbatim>\<open>write_immutable\<close>'s write-then-rename is the atomic appearance of the file.
  Serde is not under src/: \<open>folder_codec\<close> carries the rendering and the parser of each stored type.
\<close>

section \<open>The directory tree\<close>

type_synonym path = "string list"
type_synonym fs = "(path \<times> bytes) list"

definition not_found :: sync_error where
  "not_found = IoError ''No such file or directory (os error 2)''"

definition fs_exists :: "fs \<Rightarrow> path \<Rightarrow> bool" where
  "fs_exists fs p \<longleftrightarrow> map_of fs p \<noteq> None"

definition fs_read :: "fs \<Rightarrow> path \<Rightarrow> sync_error + bytes" where
  "fs_read fs p = ok_or not_found (map_of fs p)"

definition fs_write :: "path \<Rightarrow> bytes \<Rightarrow> fs \<Rightarrow> fs" where
  "fs_write p data fs = (p, data) # filter (\<lambda>f. fst f \<noteq> p) fs"

definition fs_remove :: "path \<Rightarrow> fs \<Rightarrow> fs" where
  "fs_remove p fs = filter (\<lambda>f. fst f \<noteq> p) fs"

definition below :: "path \<Rightarrow> path \<Rightarrow> bool" where
  "below root p \<longleftrightarrow> length root < length p \<and> take (length root) p = root"

definition files_recursive :: "fs \<Rightarrow> path \<Rightarrow> path list" where
  "files_recursive fs root = filter (below root) (map fst fs)"

definition object_name :: "crypto \<Rightarrow> string \<Rightarrow> string" where
  "object_name cr ident = blake3_hex cr (str_bytes ident)"

definition write_immutable :: "path \<Rightarrow> bytes \<Rightarrow> fs \<Rightarrow> fs" where
  "write_immutable p data fs = (if fs_exists fs p then fs else fs_write p data fs)"

text \<open>\<^verbatim>\<open>format!("{n:020}")\<close>.\<close>

definition pad20 :: "u64 \<Rightarrow> string" where
  "pad20 n = (let d = decimal (unat n) in replicate (20 - length d) (CHR ''0'') @ d)"

section \<open>Stored types and layout\<close>

record catalog_segment =
  sg_client :: string
  sg_scope :: string
  sg_first :: u64
  sg_last :: u64
  sg_events :: "catalog_event list"

record folder_codec =
  enc_commit :: "commit \<Rightarrow> bytes"
  dec_commit :: "bytes \<Rightarrow> string + commit"
  enc_segment :: "catalog_segment \<Rightarrow> bytes"
  dec_segment :: "bytes \<Rightarrow> string + catalog_segment"
  enc_snapshot :: "catalog_snapshot \<Rightarrow> bytes"
  dec_snapshot :: "bytes \<Rightarrow> string + catalog_snapshot"
  enc_generation :: "u64 \<Rightarrow> bytes"
  dec_generation :: "bytes \<Rightarrow> string + u64"
  enc_ack :: "resource_ack \<Rightarrow> bytes"
  dec_ack :: "bytes \<Rightarrow> string + resource_ack"
  enc_index :: "pack_index \<Rightarrow> bytes"
  dec_index :: "bytes \<Rightarrow> string + pack_index"

definition parse_with :: "(bytes \<Rightarrow> string + 'a) \<Rightarrow> bytes \<Rightarrow> sync_error + 'a" where
  "parse_with dec bs = (case dec bs of Inl msg \<Rightarrow> Inl (SerdeError msg) | Inr a \<Rightarrow> Inr a)"

definition commits_dir :: path where "commits_dir = [''commits'']"
definition packs_dir :: path where "packs_dir = [''packs'']"
definition indexes_dir :: path where "indexes_dir = [''pack-indexes'']"
definition segments_dir :: path where "segments_dir = [''catalog'', ''clients'']"
definition acks_dir :: path where "acks_dir = [''acknowledgements'']"
definition snapshots_dir :: path where "snapshots_dir = [''catalog'', ''snapshots'']"

definition in_scopes :: "string list \<Rightarrow> string \<Rightarrow> bool" where
  "in_scopes scopes s \<longleftrightarrow> scopes = [] \<or> s \<in> set scopes"

definition load_snapshot :: "folder_codec \<Rightarrow> fs \<Rightarrow> path \<Rightarrow> sync_error + catalog_snapshot" where
  "load_snapshot cd fs latest =
     bind_result (fs_read fs latest) (\<lambda>bs.
     bind_result (parse_with (dec_generation cd) bs) (\<lambda>generation.
     bind_result (fs_read fs (butlast latest @ [pad20 generation @ ''.json''])) (\<lambda>bs.
     parse_with (dec_snapshot cd) bs)))"

definition load_snapshots ::
  "folder_codec \<Rightarrow> string list \<Rightarrow> fs \<Rightarrow> sync_error + catalog_snapshot list" where
  "load_snapshots cd scopes fs =
     (let latest_files = filter (\<lambda>p. last p = ''latest.json'') (files_recursive fs snapshots_dir)
      in bind_result (collect_result (load_snapshot cd fs) latest_files) (\<lambda>snapshots.
         Inr (filter (\<lambda>s. in_scopes scopes (sn_scope s)) snapshots)))"

section \<open>Scanning the catalog\<close>

record scan_state =
  ss_events :: "catalog_event list"
  ss_next :: cursor_map
  ss_covered :: cursor_map
  ss_snapshot_cursors :: "catalog_cursor list"

definition scan_snapshot_cursor :: "scan_state \<Rightarrow> catalog_cursor \<Rightarrow> scan_state" where
  "scan_snapshot_cursor st c =
     st\<lparr>ss_snapshot_cursors := ss_snapshot_cursors st @ [c],
        ss_covered := bt_insert (cursor_key c) (cu_counter c) (ss_covered st),
        ss_next := cursor_bump (cursor_key c) (cu_counter c) (ss_next st)\<rparr>"

definition fresh_event :: "string list \<Rightarrow> u64 \<Rightarrow> catalog_event \<Rightarrow> bool" where
  "fresh_event scopes cursor e \<longleftrightarrow> ev_counter e > cursor \<and> in_scopes scopes (scope_id (ev_resource e))"

definition scan_snapshot ::
  "string list \<Rightarrow> cursor_map \<Rightarrow> scan_state \<Rightarrow> catalog_snapshot \<Rightarrow> scan_state" where
  "scan_snapshot scopes cursors st snapshot =
     (let st = foldl scan_snapshot_cursor st (sn_cursors snapshot)
      in st\<lparr>ss_events := ss_events st
            @ filter (\<lambda>e. fresh_event scopes (cursor_get cursors (event_key e)) e) (sn_events snapshot)\<rparr>)"

definition scan_segment ::
  "string list \<Rightarrow> cursor_map \<Rightarrow> scan_state \<Rightarrow> catalog_segment \<Rightarrow> scan_state" where
  "scan_segment scopes cursors st seg =
     (let k = (sg_client seg, sg_scope seg);
          cursor = max (cursor_get cursors k) (cursor_get (ss_covered st) k)
      in if \<not> in_scopes scopes (sg_scope seg) \<or> sg_last seg \<le> cursor then st
         else st\<lparr>ss_events := ss_events st @ filter (fresh_event scopes cursor) (sg_events seg),
                 ss_next := cursor_bump k (sg_last seg) (ss_next st)\<rparr>)"

definition read_segments :: "folder_codec \<Rightarrow> fs \<Rightarrow> sync_error + catalog_segment list" where
  "read_segments cd fs =
     collect_result (\<lambda>p. bind_result (fs_read fs p) (parse_with (dec_segment cd)))
       (files_recursive fs segments_dir)"

definition scan_catalog_fs ::
  "folder_codec \<Rightarrow> string list \<Rightarrow> catalog_cursor list \<Rightarrow> fs \<Rightarrow> sync_error + catalog_delta" where
  "scan_catalog_fs cd scopes req_cursors fs =
     (let cursors = bt_collect (map (\<lambda>c. (cursor_key c, cu_counter c)) req_cursors)
      in bind_result (load_snapshots cd scopes fs) (\<lambda>snapshots.
         let st = foldl (scan_snapshot scopes cursors)
               \<lparr>ss_events = [], ss_next = cursors, ss_covered = [], ss_snapshot_cursors = []\<rparr> snapshots
         in bind_result (read_segments cd fs) (\<lambda>segments.
            let st = foldl (scan_segment scopes cursors) st segments
            in Inr \<lparr>cd_events = sort_key (\<lambda>e. (ev_client e, ev_counter e)) (ss_events st),
                    cd_cursors = cursors_of (ss_next st),
                    cd_snapshot_cursors = ss_snapshot_cursors st\<rparr>)))"

definition folder_scan_catalog ::
  "folder_codec \<Rightarrow> string list \<Rightarrow> catalog_cursor list \<Rightarrow> (fs, sync_error, catalog_delta) rm" where
  "folder_scan_catalog cd scopes cursors = (\<lambda>fs. (scan_catalog_fs cd scopes cursors fs, fs))"

section \<open>Commits\<close>

definition load_commit :: "crypto \<Rightarrow> folder_codec \<Rightarrow> fs \<Rightarrow> string \<Rightarrow> sync_error + commit" where
  "load_commit cr cd fs ident =
     bind_result (fs_read fs (commits_dir @ [object_name cr ident])) (parse_with (dec_commit cd))"

definition folder_load_commits ::
  "crypto \<Rightarrow> folder_codec \<Rightarrow> string list \<Rightarrow> (fs, sync_error, commit list) rm" where
  "folder_load_commits cr cd ids = (\<lambda>fs. (collect_result (load_commit cr cd fs) ids, fs))"

definition commit_group :: "commit \<Rightarrow> string \<times> string" where
  "commit_group c = (cm_author c, scope_id (cm_resource c))"

definition by_client_scope :: "commit list \<Rightarrow> ((string \<times> string) \<times> commit list) list" where
  "by_client_scope cs =
     map (\<lambda>k. (k, filter (\<lambda>c. commit_group c = k) cs)) (bset (map commit_group cs))"

definition group_segment :: "(string \<times> string) \<times> commit list \<Rightarrow> catalog_segment" where
  "group_segment g =
     (case g of ((client, scope), commits) \<Rightarrow>
        let events = map (\<lambda>c. (commit_event c)\<lparr>ev_client := client\<rparr>) (sort_key cm_counter commits)
        in \<lparr>sg_client = client, sg_scope = scope,
            sg_first = (case events of [] \<Rightarrow> 0 | e # _ \<Rightarrow> ev_counter e),
            sg_last = (if events = [] then 0 else ev_counter (last events)),
            sg_events = events\<rparr>)"

definition segment_path :: "crypto \<Rightarrow> folder_codec \<Rightarrow> catalog_segment \<Rightarrow> path" where
  "segment_path cr cd seg =
     segments_dir @ [object_name cr (sg_client seg), object_name cr (sg_scope seg),
       pad20 (sg_first seg) @ ''-'' @ pad20 (sg_last seg) @ ''-''
         @ blake3_hex cr (enc_segment cd seg) @ ''.json'']"

definition write_packs :: "commit_batch \<Rightarrow> fs \<Rightarrow> fs" where
  "write_packs batch fs =
     fold (\<lambda>b. write_immutable (indexes_dir @ [ob_id b]) (ob_data b)) (cb_indexes batch)
       (fold (\<lambda>b. write_immutable (packs_dir @ [ob_id b]) (ob_data b)) (cb_packs batch) fs)"

definition write_commits :: "crypto \<Rightarrow> folder_codec \<Rightarrow> commit list \<Rightarrow> fs \<Rightarrow> fs" where
  "write_commits cr cd cs fs =
     fold (\<lambda>c. write_immutable (commits_dir @ [object_name cr (cm_id c)]) (enc_commit cd c)) cs fs"

definition write_segments :: "crypto \<Rightarrow> folder_codec \<Rightarrow> commit list \<Rightarrow> fs \<Rightarrow> fs" where
  "write_segments cr cd cs fs =
     fold (\<lambda>seg. write_immutable (segment_path cr cd seg) (enc_segment cd seg))
       (map group_segment (by_client_scope cs)) fs"

definition folder_commit_batch ::
  "crypto \<Rightarrow> folder_codec \<Rightarrow> commit_batch \<Rightarrow> (fs, sync_error, string list) rm" where
  "folder_commit_batch cr cd batch = (\<lambda>fs.
     (Inr (map cm_id (cb_commits batch)),
      write_segments cr cd (cb_commits batch)
        (write_commits cr cd (cb_commits batch) (write_packs batch fs))))"

section \<open>Packs\<close>

definition chunk_found ::
  "string set \<Rightarrow> string \<Rightarrow> (string \<times> chunk_location) list \<Rightarrow> packed_chunk \<Rightarrow>
   (string \<times> chunk_location) list" where
  "chunk_found wanted pack found c =
     (if pc_hash c \<in> wanted \<and> map_of found (pc_hash c) = None
      then bt_insert (pc_hash c)
             \<lparr>cl_hash = pc_hash c, cl_pack = pack, cl_offset = pc_offset c, cl_length = pc_length c\<rparr> found
      else found)"

definition index_found ::
  "string set \<Rightarrow> (string \<times> chunk_location) list \<Rightarrow> pack_index \<Rightarrow> (string \<times> chunk_location) list" where
  "index_found wanted found index = foldl (chunk_found wanted (pi_pack_id index)) found (pi_chunks index)"

definition read_indexes :: "folder_codec \<Rightarrow> fs \<Rightarrow> sync_error + pack_index list" where
  "read_indexes cd fs =
     collect_result (\<lambda>p. bind_result (fs_read fs p) (parse_with (dec_index cd)))
       (files_recursive fs indexes_dir)"

definition lookup_chunks_fs ::
  "folder_codec \<Rightarrow> string list \<Rightarrow> fs \<Rightarrow> sync_error + chunk_location list" where
  "lookup_chunks_fs cd hashes fs =
     bind_result (read_indexes cd fs) (\<lambda>indexes.
     Inr (map snd (foldl (index_found (set hashes)) [] indexes)))"

definition folder_lookup_chunks ::
  "folder_codec \<Rightarrow> string list \<Rightarrow> (fs, sync_error, chunk_location list) rm" where
  "folder_lookup_chunks cd hashes = (\<lambda>fs. (lookup_chunks_fs cd hashes fs, fs))"

definition read_range :: "crypto \<Rightarrow> fs \<Rightarrow> chunk_location \<Rightarrow> sync_error + range_data" where
  "read_range cr fs rg =
     bind_result (fs_read fs (packs_dir @ [cl_pack rg])) (\<lambda>file.
     let data = take (unat (cl_length rg)) (drop (unat (cl_offset rg)) file)
     in if length data < unat (cl_length rg) then Inl (IoError ''failed to fill whole buffer'')
        else if blake3_hex cr data \<noteq> cl_hash rg then Inl (Corrupt (cl_hash rg))
        else Inr \<lparr>rd_hash = cl_hash rg, rd_data = data\<rparr>)"

definition folder_read_ranges ::
  "crypto \<Rightarrow> chunk_location list \<Rightarrow> (fs, sync_error, range_data list) rm" where
  "folder_read_ranges cr ranges = (\<lambda>fs. (collect_result (read_range cr fs) ranges, fs))"

definition folder_list_pack_ids :: "(fs, sync_error, string list) rm" where
  "folder_list_pack_ids = (\<lambda>fs. (Inr (map last (files_recursive fs packs_dir)), fs))"

definition delete_packs_fs :: "string list \<Rightarrow> fs \<Rightarrow> fs" where
  "delete_packs_fs ids fs =
     fold (\<lambda>i fs. fs_remove (indexes_dir @ [i]) (fs_remove (packs_dir @ [i]) fs)) ids fs"

definition folder_delete_pack_objects :: "string list \<Rightarrow> (fs, sync_error, unit) rm" where
  "folder_delete_pack_objects ids = (\<lambda>fs. (Inr (), delete_packs_fs ids fs))"

section \<open>Acknowledgements\<close>

definition ack_path :: "crypto \<Rightarrow> resource_ack \<Rightarrow> path" where
  "ack_path cr ack =
     acks_dir @ [object_name cr (ack_client ack @ [CHR 0x00] @ encoded (ack_resource ack))]"

definition folder_write_acknowledgements ::
  "crypto \<Rightarrow> folder_codec \<Rightarrow> resource_ack list \<Rightarrow> (fs, sync_error, unit) rm" where
  "folder_write_acknowledgements cr cd acks = (\<lambda>fs.
     (Inr (), fold (\<lambda>a. fs_write (ack_path cr a) (enc_ack cd a)) acks fs))"

definition list_acks_fs :: "folder_codec \<Rightarrow> resource_key list \<Rightarrow> fs \<Rightarrow> sync_error + resource_ack list" where
  "list_acks_fs cd wanted fs =
     bind_result
       (collect_result (\<lambda>p. bind_result (fs_read fs p) (parse_with (dec_ack cd)))
         (files_recursive fs acks_dir))
       (\<lambda>acks. Inr (filter (\<lambda>a. wanted = [] \<or> ack_resource a \<in> set wanted) acks))"

definition folder_list_acknowledgements ::
  "folder_codec \<Rightarrow> resource_key list \<Rightarrow> (fs, sync_error, resource_ack list) rm" where
  "folder_list_acknowledgements cd wanted = (\<lambda>fs. (list_acks_fs cd wanted fs, fs))"

section \<open>Compaction\<close>

definition snapshot_dir :: "crypto \<Rightarrow> string \<Rightarrow> path" where
  "snapshot_dir cr scope = snapshots_dir @ [object_name cr scope]"

definition publish_snapshot :: "crypto \<Rightarrow> folder_codec \<Rightarrow> catalog_snapshot \<Rightarrow> fs \<Rightarrow> fs" where
  "publish_snapshot cr cd snapshot fs =
     (let dir = snapshot_dir cr (sn_scope snapshot);
          fs = write_immutable (dir @ [pad20 (sn_generation snapshot) @ ''.json''])
                 (enc_snapshot cd snapshot) fs
      in fs_write (dir @ [''latest.json'']) (enc_generation cd (sn_generation snapshot)) fs)"

fun drop_covered_segments :: "folder_codec \<Rightarrow> cursor_map \<Rightarrow> path list \<Rightarrow> (fs, sync_error, unit) rm" where
  "drop_covered_segments cd covered [] = ret ()"
| "drop_covered_segments cd covered (p # ps) = (\<lambda>fs.
     case bind_result (fs_read fs p) (parse_with (dec_segment cd)) of
       Inl e \<Rightarrow> (Inl e, fs)
     | Inr seg \<Rightarrow>
         drop_covered_segments cd covered ps
           (if sg_last seg \<le> cursor_get covered (sg_client seg, sg_scope seg) then fs_remove p fs
            else fs))"

definition remove_commits :: "crypto \<Rightarrow> string list \<Rightarrow> fs \<Rightarrow> fs" where
  "remove_commits cr ids fs = fold (\<lambda>i. fs_remove (commits_dir @ [object_name cr i])) ids fs"

definition folder_compact_catalog ::
  "crypto \<Rightarrow> folder_codec \<Rightarrow> catalog_compaction \<Rightarrow> (fs, sync_error, unit) rm" where
  "folder_compact_catalog cr cd compaction = (\<lambda>fs.
     let snapshot = cc_snapshot compaction;
         fs = publish_snapshot cr cd snapshot fs;
         covered = bt_collect (map (\<lambda>c. (cursor_key c, cu_counter c)) (sn_cursors snapshot))
     in seq (drop_covered_segments cd covered (files_recursive fs segments_dir))
          (modify (remove_commits cr (cc_obsolete compaction))) fs)"


section \<open>Lemmas on the tree\<close>

lemma map_of_fs_write [simp]: "map_of (fs_write p d fs) = (map_of fs)(p \<mapsto> d)"
  by (auto simp: fs_write_def fun_eq_iff map_of_filter_key [where P = "\<lambda>k. k \<noteq> p"])

lemma map_of_fs_remove [simp]: "map_of (fs_remove p fs) = (map_of fs)(p := None)"
  by (auto simp: fs_remove_def fun_eq_iff map_of_filter_key [where P = "\<lambda>k. k \<noteq> p"])

lemma map_of_write_immutable:
  "map_of (write_immutable p d fs) q =
     (if q = p \<and> map_of fs p = None then Some d else map_of fs q)"
  by (auto simp: write_immutable_def fs_exists_def)

lemma map_of_fold_write_immutable_other:
  "q \<notin> f ` set xs \<Longrightarrow> map_of (fold (\<lambda>x. write_immutable (f x) (g x)) xs fs) q = map_of fs q"
  by (induction xs arbitrary: fs) (auto simp: map_of_write_immutable)

lemma map_of_fold_write_immutable_kept:
  "map_of fs q = Some d \<Longrightarrow> map_of (fold (\<lambda>x. write_immutable (f x) (g x)) xs fs) q = Some d"
proof (induction xs arbitrary: fs)
  case Nil
  then show ?case by simp
next
  case (Cons x xs)
  have "map_of (write_immutable (f x) (g x) fs) q = Some d"
    using Cons.prems by (auto simp: map_of_write_immutable)
  then show ?case by (simp add: Cons.IH)
qed

lemma map_of_fold_write_immutable:
  assumes "x \<in> set xs" and "\<And>y. y \<in> set xs \<Longrightarrow> f y = f x \<Longrightarrow> g y = g x"
    and "map_of fs (f x) = None \<or> map_of fs (f x) = Some (g x)"
  shows "map_of (fold (\<lambda>x. write_immutable (f x) (g x)) xs fs) (f x) = Some (g x)"
  using assms
proof (induction xs arbitrary: fs)
  case Nil
  then show ?case by simp
next
  case (Cons y ys)
  show ?case
  proof (cases "f y = f x")
    case True
    have "g y = g x" by (rule Cons.prems(2) [OF _ True]) simp
    with True Cons.prems(3) have "map_of (write_immutable (f y) (g y) fs) (f x) = Some (g x)"
      by (auto simp: map_of_write_immutable)
    then show ?thesis unfolding fold_Cons comp_def by (rule map_of_fold_write_immutable_kept)
  next
    case False
    with Cons.prems(1) have "x \<in> set ys" by auto
    moreover from False Cons.prems(3)
    have "map_of (write_immutable (f y) (g y) fs) (f x) = None
        \<or> map_of (write_immutable (f y) (g y) fs) (f x) = Some (g x)"
      by (auto simp: map_of_write_immutable)
    ultimately show ?thesis unfolding fold_Cons comp_def
      by (intro Cons.IH) (auto intro: Cons.prems(2))
  qed
qed

lemma fs_read_Inr_iff [simp]: "fs_read fs p = Inr d \<longleftrightarrow> map_of fs p = Some d"
  by (simp add: fs_read_def)

lemma parse_with_Inr_iff [simp]: "parse_with dec bs = Inr a \<longleftrightarrow> dec bs = Inr a"
  by (auto simp: parse_with_def split: sum.splits)

lemma set_files_recursive: "p \<in> set (files_recursive fs root) \<longleftrightarrow> below root p \<and> map_of fs p \<noteq> None"
  unfolding files_recursive_def by (auto simp: map_of_eq_None_iff)

lemma below_append [simp]: "below root (root @ [x])" "below root (root @ [x, y, z])"
  by (simp_all add: below_def)

lemmas dir_defs = indexes_dir_def packs_dir_def commits_dir_def segments_dir_def acks_dir_def
  snapshots_dir_def

lemma dir_distinct [simp]:
  "indexes_dir \<noteq> packs_dir" "packs_dir \<noteq> indexes_dir" "commits_dir \<noteq> packs_dir"
  "commits_dir \<noteq> indexes_dir" "packs_dir \<noteq> commits_dir" "indexes_dir \<noteq> commits_dir"
  "commits_dir @ [k] \<noteq> segments_dir @ [a, b, c]" "packs_dir @ [k] \<noteq> segments_dir @ [a, b, c]"
  "indexes_dir @ [k] \<noteq> segments_dir @ [a, b, c]"
  "\<not> below indexes_dir (packs_dir @ [j])" "\<not> below indexes_dir (commits_dir @ [k])"
  "\<not> below indexes_dir (segments_dir @ [a, b, c])"
  "\<not> below segments_dir (packs_dir @ [j])" "\<not> below segments_dir (commits_dir @ [k])"
  "\<not> below segments_dir (indexes_dir @ [j])"
  by (simp_all add: dir_defs below_def)

section \<open>Commit objects\<close>

definition commit_path :: "crypto \<Rightarrow> string \<Rightarrow> path" where
  "commit_path cr ident = commits_dir @ [object_name cr ident]"

text \<open>
  The batch can be stored: the rendering of each commit parses back, the ids do not collide under
  the object name, and an object already stored under such a name is the same commit.
\<close>

definition storable :: "crypto \<Rightarrow> folder_codec \<Rightarrow> commit list \<Rightarrow> fs \<Rightarrow> bool" where
  "storable cr cd cs fs \<longleftrightarrow>
     (\<forall>c \<in> set cs. dec_commit cd (enc_commit cd c) = Inr c)
     \<and> inj_on (\<lambda>c. object_name cr (cm_id c)) (set cs)
     \<and> (\<forall>c \<in> set cs. map_of fs (commit_path cr (cm_id c)) \<in> {None, Some (enc_commit cd c)})"

lemma map_of_write_packs_commit:
  "map_of (write_packs b fs) (commit_path cr i) = map_of fs (commit_path cr i)"
proof -
  have "map_of (write_packs b fs) (commit_path cr i)
      = map_of (fold (\<lambda>b. write_immutable (packs_dir @ [ob_id b]) (ob_data b)) (cb_packs b) fs)
          (commit_path cr i)"
    unfolding write_packs_def
    by (rule map_of_fold_write_immutable_other) (auto simp: commit_path_def)
  also have "\<dots> = map_of fs (commit_path cr i)"
    by (rule map_of_fold_write_immutable_other) (auto simp: commit_path_def)
  finally show ?thesis .
qed

lemma map_of_write_segments_commit:
  "map_of (write_segments cr cd cs fs) (commit_path cr i) = map_of fs (commit_path cr i)"
  unfolding write_segments_def commit_path_def
  by (subst map_of_fold_write_immutable_other) (auto simp: segment_path_def)

lemma commit_batch_stores:
  assumes "storable cr cd (cb_commits b) fs" and "c \<in> set (cb_commits b)"
  shows "map_of (snd (folder_commit_batch cr cd b fs)) (commit_path cr (cm_id c)) = Some (enc_commit cd c)"
proof -
  have "map_of (write_commits cr cd (cb_commits b) (write_packs b fs)) (commit_path cr (cm_id c))
      = Some (enc_commit cd c)"
    unfolding write_commits_def commit_path_def [symmetric]
  proof (rule map_of_fold_write_immutable [OF assms(2)])
    fix c' assume "c' \<in> set (cb_commits b)" "commit_path cr (cm_id c') = commit_path cr (cm_id c)"
    with assms have "c' = c" unfolding storable_def inj_on_def commit_path_def by blast
    then show "enc_commit cd c' = enc_commit cd c" by simp
  qed (use assms in \<open>auto simp: storable_def map_of_write_packs_commit\<close>)
  then show ?thesis by (simp add: folder_commit_batch_def map_of_write_segments_commit)
qed

lemma load_commit_stored:
  "map_of fs (commit_path cr i) = Some (enc_commit cd c) \<Longrightarrow>
   dec_commit cd (enc_commit cd c) = Inr c \<Longrightarrow> load_commit cr cd fs i = Inr c"
  by (simp add: load_commit_def commit_path_def [symmetric] fs_read_def parse_with_def)

lemma load_commits_after_batch:
  assumes "storable cr cd (cb_commits b) fs"
  shows "folder_load_commits cr cd (map cm_id (cb_commits b)) (snd (folder_commit_batch cr cd b fs))
    = (Inr (cb_commits b), snd (folder_commit_batch cr cd b fs))"
proof -
  let ?fs = "snd (folder_commit_batch cr cd b fs)"
  have "load_commit cr cd ?fs (cm_id c) = Inr c" if "c \<in> set (cb_commits b)" for c
    using commit_batch_stores [OF assms that] assms that
    by (auto simp: storable_def intro: load_commit_stored)
  then have "collect_result (load_commit cr cd ?fs) (map cm_id (cb_commits b)) = Inr (cb_commits b)"
    by (induction "cb_commits b" arbitrary: b rule: list.induct)
       (auto simp: collect_result_Inr_iff list_all2_map1 list_all2_same)
  then show ?thesis by (simp add: folder_load_commits_def)
qed

end
