(* ===== verification/Chunk_Store.thy ===== *)
theory Chunk_Store
  imports Binary_Pack
begin

text \<open>
  Reading a binary version back from its manifest: the \<^verbatim>\<open>BinarySnapshot\<close> branch of
  \<^verbatim>\<open>SyncRuntime::content_for_remote\<close> in \<^verbatim>\<open>src/src/runtime.rs\<close>, over any remote, and the contract
  of \<^verbatim>\<open>lookup_chunks\<close> and \<^verbatim>\<open>read_ranges\<close> it relies on as the locale \<open>chunk_store\<close>.
\<close>

section \<open>Fetching a manifest\<close>

type_synonym 's lookup_port = "string list \<Rightarrow> ('s, sync_error, chunk_location list) rm"
type_synonym 's read_port = "chunk_location list \<Rightarrow> ('s, sync_error, range_data list) rm"

definition range_of ::
  "(string \<Rightarrow> chunk_location option) \<Rightarrow> string \<Rightarrow> sync_error + chunk_location" where
  "range_of locs h =
     bind_result (ok_or (IoError (''chunk '' @ h @ '' is missing'')) (locs h)) (\<lambda>l.
       Inr \<lparr>cl_hash = h, cl_pack = cl_pack l, cl_offset = cl_offset l, cl_length = cl_length l\<rparr>)"

definition fetch_manifest ::
  "'s lookup_port \<Rightarrow> 's read_port \<Rightarrow> string list \<Rightarrow> ('s, sync_error, bytes) rm" where
  "fetch_manifest lookup read hashes =
     bind (lookup hashes) (\<lambda>found.
     let locs = hm_collect (map (\<lambda>l. (cl_hash l, l)) found)
     in bind (lift_result (collect_result (range_of locs) hashes)) (\<lambda>ranges.
        bind (read ranges) (\<lambda>rs.
        let chunks = hm_collect (map (\<lambda>r. (rd_hash r, rd_data r)) rs)
        in lift_result (bind_result
             (collect_result
               (\<lambda>h. ok_or (IoError (''range '' @ h @ '' was not returned'')) (chunks h)) hashes)
             (\<lambda>ds. Inr (concat ds))))))"

section \<open>The contract\<close>

lemma hm_collect_keyed:
  "distinct (map f xs) \<Longrightarrow> x \<in> set xs \<Longrightarrow> hm_collect (map (\<lambda>x. (f x, x)) xs) (f x) = Some x"
  by (simp add: hm_collect_def rev_map comp_def distinct_map inj_on_def)

lemma hm_collect_keyed_None:
  "k \<notin> f ` set xs \<Longrightarrow> hm_collect (map (\<lambda>x. (f x, g x)) xs) k = None"
  by (auto simp: hm_collect_None_iff)

locale chunk_store =
  fixes lookup :: "string list \<Rightarrow> ('s, sync_error, chunk_location list) rm"
    and read :: "chunk_location list \<Rightarrow> ('s, sync_error, range_data list) rm"
    and inv :: "'s \<Rightarrow> bool"
    and stored :: "'s \<Rightarrow> string set"
    and readable :: "'s \<Rightarrow> chunk_location \<Rightarrow> bool"
    and hash :: "bytes \<Rightarrow> string"
  assumes lookup_law: "inv s \<Longrightarrow> \<exists>ls. lookup hs s = (Inr ls, s) \<and> distinct (map cl_hash ls)
      \<and> set (map cl_hash ls) = set hs \<inter> stored s \<and> (\<forall>l \<in> set ls. readable s l)"
    and read_law: "\<forall>l \<in> set ls. readable s l \<Longrightarrow> \<exists>rs. read ls s = (Inr rs, s)
      \<and> map rd_hash rs = map cl_hash ls \<and> (\<forall>r \<in> set rs. hash (rd_data r) = rd_hash r)"
begin

lemma fetch_stored:
  assumes inv: "inv s" and sub: "set hs \<subseteq> stored s"
  obtains ds where "fetch_manifest lookup read hs s = (Inr (concat ds), s)" and "map hash ds = hs"
proof -
  from lookup_law [OF inv, of hs] sub obtain ls where ls: "lookup hs s = (Inr ls, s)"
    "distinct (map cl_hash ls)" "cl_hash ` set ls = set hs" "\<forall>l \<in> set ls. readable s l"
    by auto
  let ?locs = "hm_collect (map (\<lambda>l. (cl_hash l, l)) ls)"
  have "\<exists>l. range_of ?locs h = Inr l \<and> l \<in> set ls \<and> cl_hash l = h" if h: "h \<in> set hs" for h
  proof -
    from h ls(3) obtain l where l: "l \<in> set ls" "cl_hash l = h" by force
    then have "?locs h = Some l" using hm_collect_keyed [OF ls(2)] by blast
    then have "range_of ?locs h = Inr l" using l(2) by (cases l) (simp add: range_of_def)
    with l show ?thesis by blast
  qed
  then obtain rg where rg: "range_of ?locs h = Inr (rg h) \<and> rg h \<in> set ls \<and> cl_hash (rg h) = h"
    if "h \<in> set hs" for h by metis
  have ranges: "collect_result (range_of ?locs) hs = Inr (map rg hs)"
    by (rule collect_result_total) (simp add: rg)
  have "\<forall>l \<in> set (map rg hs). readable s l" using rg ls(4) by auto
  from read_law [OF this] obtain rs where rs: "read (map rg hs) s = (Inr rs, s)"
    "map rd_hash rs = map cl_hash (map rg hs)" "\<forall>r \<in> set rs. hash (rd_data r) = rd_hash r"
    by blast
  let ?chunks = "hm_collect (map (\<lambda>r. (rd_hash r, rd_data r)) rs)"
  have keys: "rd_hash ` set rs = set hs"
  proof -
    have "set (map rd_hash rs) = cl_hash ` rg ` set hs" by (simp only: rs(2) set_map)
    also have "\<dots> = set hs" using rg by (force simp: image_iff)
    finally show ?thesis by simp
  qed
  have "\<exists>d. ?chunks h = Some d \<and> hash d = h" if "h \<in> set hs" for h
  proof -
    have "?chunks h \<noteq> None" using that keys by (simp add: hm_collect_None_iff image_image)
    then obtain d where d: "?chunks h = Some d" by blast
    then have "(h, d) \<in> set (map (\<lambda>r. (rd_hash r, rd_data r)) rs)" by (rule hm_collect_SomeD)
    with rs(3) d show ?thesis by auto
  qed
  then obtain dat where dat: "?chunks h = Some (dat h) \<and> hash (dat h) = h"
    if "h \<in> set hs" for h by metis
  have "collect_result (\<lambda>h. ok_or (IoError (''range '' @ h @ '' was not returned'')) (?chunks h)) hs
      = Inr (map dat hs)"
    by (rule collect_result_total) (simp add: dat)
  then have "fetch_manifest lookup read hs s = (Inr (concat (map dat hs)), s)"
    by (simp add: fetch_manifest_def bind_def Let_def ls(1) ranges rs(1))
  moreover have "map hash (map dat hs) = hs" using dat by (simp add: map_idI)
  ultimately show ?thesis by (rule that)
qed

lemma fetch_missing:
  assumes inv: "inv s" and pre: "set as \<subseteq> stored s" and h: "h \<notin> stored s"
  shows "fetch_manifest lookup read (as @ h # bs) s
    = (Inl (IoError (''chunk '' @ h @ '' is missing'')), s)"
proof -
  from lookup_law [OF inv, of "as @ h # bs"] obtain ls where ls:
    "lookup (as @ h # bs) s = (Inr ls, s)" "distinct (map cl_hash ls)"
    "cl_hash ` set ls = set (as @ h # bs) \<inter> stored s" by auto
  let ?locs = "hm_collect (map (\<lambda>l. (cl_hash l, l)) ls)"
  have here: "\<exists>l. range_of ?locs a = Inr l" if "a \<in> set as" for a
  proof -
    from that pre ls(3) have "a \<in> cl_hash ` set ls" by auto
    then obtain l where "l \<in> set ls" "cl_hash l = a" by auto
    then have "?locs a = Some l" using hm_collect_keyed [OF ls(2)] by blast
    then show ?thesis by (simp add: range_of_def)
  qed
  have gone: "?locs h = None" using h ls(3) by (intro hm_collect_keyed_None) auto
  have "collect_result (range_of ?locs) (as @ h # bs)
      = Inl (IoError (''chunk '' @ h @ '' is missing''))"
    by (rule collect_result_Inl [OF here]) (simp_all add: range_of_def gone)
  then show ?thesis by (simp add: fetch_manifest_def bind_def Let_def ls(1))
qed

lemma fetch_exact:
  assumes "inv s" and "inj hash" and "map hash ds = hs" and "set hs \<subseteq> stored s"
  shows "fetch_manifest lookup read hs s = (Inr (concat ds), s)"
proof -
  from assms obtain ds' where "fetch_manifest lookup read hs s = (Inr (concat ds'), s)"
    and "map hash ds' = hs" using fetch_stored by blast
  moreover from this(2) assms(2,3) have "ds' = ds"
    by (auto simp: map_injective dest!: inj_map_eq_map [THEN iffD1, rotated])
  ultimately show ?thesis by simp
qed

end

end
