(* ===== verification/Folder_Packs.thy ===== *)
theory Folder_Packs
  imports Folder_Remote Chunk_Store
begin

text \<open>
  The contract of the pack store inside \<open>Folder_Remote\<close>: what a lookup finds, the invariant that
  every indexed chunk can be read back and hashes to its name, and that publishing packs, publishing
  commits and collecting packs keep it.
\<close>

section \<open>What a lookup finds\<close>

definition location :: "string \<Rightarrow> packed_chunk \<Rightarrow> chunk_location" where
  "location pack c =
     \<lparr>cl_hash = pc_hash c, cl_pack = pack, cl_offset = pc_offset c, cl_length = pc_length c\<rparr>"

definition locations :: "pack_index list \<Rightarrow> chunk_location list" where
  "locations indexes = concat (map (\<lambda>i. map (location (pi_pack_id i)) (pi_chunks i)) indexes)"

definition first_found ::
  "string set \<Rightarrow> (string \<times> chunk_location) list \<Rightarrow> chunk_location \<Rightarrow>
   (string \<times> chunk_location) list" where
  "first_found wanted found l =
     (if cl_hash l \<in> wanted \<and> map_of found (cl_hash l) = None then bt_insert (cl_hash l) l found
      else found)"

lemma chunk_found_location: "chunk_found wanted p found c = first_found wanted found (location p c)"
  by (simp add: chunk_found_def first_found_def location_def)

lemma foldl_index_found:
  "foldl (index_found wanted) found indexes = foldl (first_found wanted) found (locations indexes)"
proof (induction indexes arbitrary: found)
  case Nil
  show ?case by (simp add: locations_def)
next
  case (Cons i indexes)
  have "index_found wanted found i
      = foldl (first_found wanted) found (map (location (pi_pack_id i)) (pi_chunks i))"
    by (simp add: index_found_def chunk_found_location [abs_def] foldl_map)
  with Cons show ?case by (simp add: locations_def)
qed

definition found_inv ::
  "string set \<Rightarrow> chunk_location list \<Rightarrow> (string \<times> chunk_location) list \<Rightarrow> bool" where
  "found_inv wanted ls found \<longleftrightarrow>
     bt_ok found \<and> (\<forall>(h, l) \<in> set found. cl_hash l = h \<and> l \<in> set ls)
     \<and> fst ` set found = wanted \<inter> cl_hash ` set ls"

lemma found_inv_step:
  assumes "found_inv wanted ls found"
  shows "found_inv wanted (ls @ [l]) (first_found wanted found l)"
proof (cases "cl_hash l \<in> wanted \<and> map_of found (cl_hash l) = None")
  case True
  then have ins: "first_found wanted found l = bt_insert (cl_hash l) l found"
    by (simp add: first_found_def)
  from True have fresh: "{p \<in> set found. fst p \<noteq> cl_hash l} = set found"
    by (force simp: map_of_eq_None_iff)
  from assms have ok: "bt_ok found"
    and src: "\<forall>(h, l) \<in> set found. cl_hash l = h \<and> l \<in> set ls"
    and keys: "fst ` set found = wanted \<inter> cl_hash ` set ls"
    by (simp_all add: found_inv_def)
  have "\<forall>(h, l') \<in> insert (cl_hash l, l) (set found). cl_hash l' = h \<and> l' \<in> set (ls @ [l])"
    using src by auto
  moreover have "fst ` insert (cl_hash l, l) (set found) = wanted \<inter> cl_hash ` set (ls @ [l])"
    using True keys by auto
  ultimately show ?thesis
    unfolding found_inv_def ins set_bt_insert [OF ok] fresh using ok by simp
next
  case False
  then have "first_found wanted found l = found" by (auto simp: first_found_def)
  moreover from False have "cl_hash l \<in> wanted \<Longrightarrow> cl_hash l \<in> fst ` set found"
    by (auto simp: map_of_eq_None_iff)
  ultimately show ?thesis using assms by (auto simp: found_inv_def)
qed

lemma found_inv_foldl: "found_inv wanted ls (foldl (first_found wanted) [] ls)"
proof (induction ls rule: rev_induct)
  case Nil
  show ?case by (simp add: found_inv_def)
next
  case (snoc l ls)
  then show ?case by (simp add: found_inv_step)
qed

lemma lookup_chunks_spec:
  assumes "lookup_chunks_fs cd hashes fs = Inr ls"
  obtains indexes where "read_indexes cd fs = Inr indexes"
    and "sorted_wrt (<) (map cl_hash ls)"
    and "set (map cl_hash ls) = set hashes \<inter> cl_hash ` set (locations indexes)"
    and "set ls \<subseteq> set (locations indexes)"
proof -
  from assms obtain indexes where ri: "read_indexes cd fs = Inr indexes"
    and ls: "ls = map snd (foldl (first_found (set hashes)) [] (locations indexes))"
    by (auto simp: lookup_chunks_fs_def foldl_index_found)
  let ?found = "foldl (first_found (set hashes)) [] (locations indexes)"
  have inv: "found_inv (set hashes) (locations indexes) ?found" by (rule found_inv_foldl)
  then have "map cl_hash ls = map fst ?found" unfolding ls found_inv_def by auto
  with inv have "sorted_wrt (<) (map cl_hash ls)"
    and "set (map cl_hash ls) = set hashes \<inter> cl_hash ` set (locations indexes)"
    by (simp_all add: found_inv_def bt_ok_def)
  moreover have "set ls \<subseteq> set (locations indexes)"
    using inv unfolding ls found_inv_def by auto
  ultimately show ?thesis using that ri by blast
qed

section \<open>The invariant of the pack store\<close>

definition chunk_readable :: "crypto \<Rightarrow> fs \<Rightarrow> string \<Rightarrow> packed_chunk \<Rightarrow> bool" where
  "chunk_readable cr fs pack c \<longleftrightarrow>
     (case map_of fs (packs_dir @ [pack]) of
        None \<Rightarrow> False
      | Some file \<Rightarrow> unat (pc_offset c) + unat (pc_length c) \<le> length file
          \<and> blake3_hex cr (chunk_at file c) = pc_hash c)"

definition index_file_ok :: "crypto \<Rightarrow> folder_codec \<Rightarrow> fs \<Rightarrow> path \<Rightarrow> bool" where
  "index_file_ok cr cd fs p \<longleftrightarrow>
     (case dec_index cd (the (map_of fs p)) of
        Inl _ \<Rightarrow> False
      | Inr index \<Rightarrow> p = indexes_dir @ [pi_pack_id index]
          \<and> (\<forall>c \<in> set (pi_chunks index). chunk_readable cr fs (pi_pack_id index) c))"

definition packs_ok :: "crypto \<Rightarrow> folder_codec \<Rightarrow> fs \<Rightarrow> bool" where
  "packs_ok cr cd fs \<longleftrightarrow> (\<forall>p \<in> set (files_recursive fs indexes_dir). index_file_ok cr cd fs p)"

definition indexed_at :: "folder_codec \<Rightarrow> fs \<Rightarrow> string \<Rightarrow> packed_chunk \<Rightarrow> bool" where
  "indexed_at cd fs pack c \<longleftrightarrow>
     (case map_of fs (indexes_dir @ [pack]) of
        None \<Rightarrow> False
      | Some bs \<Rightarrow> (case dec_index cd bs of Inl _ \<Rightarrow> False | Inr index \<Rightarrow> c \<in> set (pi_chunks index)))"

definition indexed_hashes :: "folder_codec \<Rightarrow> fs \<Rightarrow> string set" where
  "indexed_hashes cd fs = {pc_hash c | p c. indexed_at cd fs p c}"

lemma indexed_atE:
  assumes "indexed_at cd fs p c"
  obtains bs index where "map_of fs (indexes_dir @ [p]) = Some bs"
    and "dec_index cd bs = Inr index" and "c \<in> set (pi_chunks index)"
proof (cases "map_of fs (indexes_dir @ [p])")
  case None
  with assms show ?thesis by (simp add: indexed_at_def)
next
  case (Some bs)
  with assms that show ?thesis by (cases "dec_index cd bs") (simp_all add: indexed_at_def)
qed

lemma read_indexes_ok:
  assumes "packs_ok cr cd fs"
  obtains indexes where "read_indexes cd fs = Inr indexes"
    and "\<And>l. l \<in> set (locations indexes) \<longleftrightarrow> (\<exists>p c. indexed_at cd fs p c \<and> l = location p c)"
proof -
  let ?ps = "files_recursive fs indexes_dir"
  let ?get = "\<lambda>p. case dec_index cd (the (map_of fs p)) of Inr i \<Rightarrow> i"
  have ok: "\<exists>i bs. map_of fs p = Some bs \<and> dec_index cd bs = Inr i \<and> p = indexes_dir @ [pi_pack_id i]"
    if "p \<in> set ?ps" for p
    using assms that unfolding packs_ok_def index_file_ok_def
    by (fastforce simp: set_files_recursive split: sum.splits)
  have "collect_result (\<lambda>p. bind_result (fs_read fs p) (parse_with (dec_index cd))) ?ps
      = Inr (map ?get ?ps)"
    by (rule collect_result_total) (auto dest!: ok simp: fs_read_def parse_with_def)
  then have ri: "read_indexes cd fs = Inr (map ?get ?ps)" by (simp add: read_indexes_def)
  have "l \<in> set (locations (map ?get ?ps)) \<longleftrightarrow> (\<exists>p c. indexed_at cd fs p c \<and> l = location p c)" for l
  proof
    assume "l \<in> set (locations (map ?get ?ps))"
    then obtain p where p: "p \<in> set ?ps"
      and l: "l \<in> location (pi_pack_id (?get p)) ` set (pi_chunks (?get p))"
      by (auto simp: locations_def)
    from ok [OF p] obtain i bs where i: "map_of fs p = Some bs" "dec_index cd bs = Inr i"
      "p = indexes_dir @ [pi_pack_id i]" by blast
    with l obtain c where "c \<in> set (pi_chunks i)" "l = location (pi_pack_id i) c" by auto
    with i have "indexed_at cd fs (pi_pack_id i) c \<and> l = location (pi_pack_id i) c"
      by (simp add: indexed_at_def)
    then show "\<exists>p c. indexed_at cd fs p c \<and> l = location p c" by blast
  next
    assume "\<exists>p c. indexed_at cd fs p c \<and> l = location p c"
    then obtain i c bs index where l: "l = location i c"
      and bs: "map_of fs (indexes_dir @ [i]) = Some bs" "dec_index cd bs = Inr index"
        "c \<in> set (pi_chunks index)"
      by (blast elim: indexed_atE)
    then have p: "indexes_dir @ [i] \<in> set ?ps" by (simp add: set_files_recursive)
    from ok [OF p] bs have "pi_pack_id index = i" by auto
    with p bs l show "l \<in> set (locations (map ?get ?ps))"
      by (force simp: locations_def)
  qed
  with ri show ?thesis by (rule that)
qed

lemma packs_okD:
  assumes "packs_ok cr cd fs" and "indexed_at cd fs p c"
  shows "chunk_readable cr fs p c"
proof -
  from assms(2) obtain bs index where bs: "map_of fs (indexes_dir @ [p]) = Some bs"
    "dec_index cd bs = Inr index" "c \<in> set (pi_chunks index)"
    by (rule indexed_atE)
  then have "indexes_dir @ [p] \<in> set (files_recursive fs indexes_dir)" by (simp add: set_files_recursive)
  with assms(1) have "index_file_ok cr cd fs (indexes_dir @ [p])" by (simp add: packs_ok_def)
  with bs show ?thesis by (auto simp: index_file_ok_def)
qed

lemma lookup_chunks_ok:
  assumes "packs_ok cr cd fs"
  obtains ls where "lookup_chunks_fs cd hashes fs = Inr ls"
    and "sorted_wrt (<) (map cl_hash ls)"
    and "set (map cl_hash ls) = set hashes \<inter> indexed_hashes cd fs"
    and "\<And>l. l \<in> set ls \<Longrightarrow> \<exists>p c. indexed_at cd fs p c \<and> l = location p c"
proof -
  from assms obtain indexes where ri: "read_indexes cd fs = Inr indexes"
    and mem: "\<And>l. l \<in> set (locations indexes) \<longleftrightarrow> (\<exists>p c. indexed_at cd fs p c \<and> l = location p c)"
    by (rule read_indexes_ok) blast
  from ri obtain ls where ls: "lookup_chunks_fs cd hashes fs = Inr ls"
    by (simp add: lookup_chunks_fs_def)
  from ls obtain indexes' where "read_indexes cd fs = Inr indexes'"
    "sorted_wrt (<) (map cl_hash ls)"
    "set (map cl_hash ls) = set hashes \<inter> cl_hash ` set (locations indexes')"
    "set ls \<subseteq> set (locations indexes')"
    by (rule lookup_chunks_spec)
  moreover have "cl_hash (location p c) = pc_hash c" for p c by (simp add: location_def)
  then have "cl_hash ` set (locations indexes) = indexed_hashes cd fs"
    unfolding image_def Bex_def mem indexed_hashes_def by auto metis
  moreover have "\<exists>p c. indexed_at cd fs p c \<and> l = location p c"
    if "l \<in> set ls" "set ls \<subseteq> set (locations indexes)" for l
    using that by (simp add: subset_iff mem)
  ultimately show ?thesis using ls ri that by force
qed

lemma read_range_location:
  assumes "chunk_readable cr fs p c"
  shows "\<exists>data. read_range cr fs (location p c) = Inr \<lparr>rd_hash = pc_hash c, rd_data = data\<rparr>
    \<and> blake3_hex cr data = pc_hash c"
  using assms by (auto simp: chunk_readable_def read_range_def location_def chunk_at_def fs_read_def
      split: option.splits)

lemma read_ranges_ok:
  assumes "\<forall>l \<in> set ls. \<exists>p c. chunk_readable cr fs p c \<and> l = location p c"
  shows "\<exists>rs. folder_read_ranges cr ls fs = (Inr rs, fs) \<and> map rd_hash rs = map cl_hash ls
    \<and> (\<forall>r \<in> set rs. blake3_hex cr (rd_data r) = rd_hash r)"
proof -
  have "\<exists>r. read_range cr fs l = Inr r \<and> rd_hash r = cl_hash l
      \<and> blake3_hex cr (rd_data r) = cl_hash l" if "l \<in> set ls" for l
  proof -
    from assms that obtain p c where l: "chunk_readable cr fs p c" "l = location p c" by blast
    obtain data where "read_range cr fs l = Inr \<lparr>rd_hash = pc_hash c, rd_data = data\<rparr>"
      and "blake3_hex cr data = pc_hash c"
      using read_range_location [OF l(1)] l(2) by auto
    moreover have "cl_hash l = pc_hash c" by (simp add: l(2) location_def)
    ultimately show ?thesis by simp
  qed
  then obtain data where each: "read_range cr fs l = Inr (data l) \<and> rd_hash (data l) = cl_hash l
      \<and> blake3_hex cr (rd_data (data l)) = cl_hash l" if "l \<in> set ls" for l
    by metis
  have "collect_result (read_range cr fs) ls = Inr (map data ls)"
    by (rule collect_result_total) (simp add: each)
  moreover have "map rd_hash (map data ls) = map cl_hash ls" using each by simp
  moreover have "\<forall>r \<in> set (map data ls). blake3_hex cr (rd_data r) = rd_hash r"
    using each by simp
  ultimately show ?thesis by (auto simp: folder_read_ranges_def)
qed

text \<open>The folder is a chunk store: its invariant is \<open>packs_ok\<close>, it stores what its indexes list.\<close>

definition range_readable :: "crypto \<Rightarrow> fs \<Rightarrow> chunk_location \<Rightarrow> bool" where
  "range_readable cr fs l \<longleftrightarrow> (\<exists>p c. chunk_readable cr fs p c \<and> l = location p c)"

interpretation folder: chunk_store "folder_lookup_chunks cd" "folder_read_ranges cr"
    "packs_ok cr cd" "indexed_hashes cd" "range_readable cr" "blake3_hex cr"
  for cr :: crypto and cd :: folder_codec
proof
  fix fs hs assume ok: "packs_ok cr cd fs"
  then obtain ls where ls: "lookup_chunks_fs cd hs fs = Inr ls" "sorted_wrt (<) (map cl_hash ls)"
    "set (map cl_hash ls) = set hs \<inter> indexed_hashes cd fs"
    "\<And>l. l \<in> set ls \<Longrightarrow> \<exists>p c. indexed_at cd fs p c \<and> l = location p c"
    by (rule lookup_chunks_ok) blast
  moreover have "\<forall>l \<in> set ls. range_readable cr fs l"
    using ls(4) packs_okD [OF ok] unfolding range_readable_def by blast
  ultimately show "\<exists>ls. folder_lookup_chunks cd hs fs = (Inr ls, fs) \<and> distinct (map cl_hash ls)
      \<and> set (map cl_hash ls) = set hs \<inter> indexed_hashes cd fs \<and> (\<forall>l \<in> set ls. range_readable cr fs l)"
    by (auto simp: folder_lookup_chunks_def strict_sorted_iff)
next
  fix ls fs assume "\<forall>l \<in> set ls. range_readable cr fs l"
  then show "\<exists>rs. folder_read_ranges cr ls fs = (Inr rs, fs) \<and> map rd_hash rs = map cl_hash ls
      \<and> (\<forall>r \<in> set rs. blake3_hex cr (rd_data r) = rd_hash r)"
    unfolding range_readable_def by (rule read_ranges_ok)
qed

section \<open>Publishing and collecting packs\<close>

text \<open>
  The packs can be stored: the rendering of each index parses back, their ids are distinct, and what
  the tree already holds under such an id is the same pack with the same index.
\<close>

definition packs_storable :: "folder_codec \<Rightarrow> pack list \<Rightarrow> fs \<Rightarrow> bool" where
  "packs_storable cd packs fs \<longleftrightarrow>
     distinct (map fst packs)
     \<and> (\<forall>(i, data, index) \<in> set packs. dec_index cd (enc_index cd index) = Inr index
          \<and> map_of fs (packs_dir @ [i]) \<in> {None, Some data}
          \<and> map_of fs (indexes_dir @ [i]) \<in> {None, Some (enc_index cd index)})"

lemma map_of_fold_write_immutable_Some:
  "map_of (fold (\<lambda>x. write_immutable (f x) (g x)) xs fs) q = Some d \<Longrightarrow>
   map_of fs q = Some d \<or> (\<exists>x \<in> set xs. q = f x \<and> d = g x)"
proof (induction xs arbitrary: fs)
  case Nil
  then show ?case by simp
next
  case (Cons x xs)
  from Cons.IH [of "write_immutable (f x) (g x) fs"] Cons.prems
  show ?case by (auto simp: map_of_write_immutable split: if_splits)
qed

lemma map_of_fold_write_immutable_cong:
  "map_of fs1 p = map_of fs2 p \<Longrightarrow>
   map_of (fold (\<lambda>x. write_immutable (f x) (g x)) xs fs1) p
     = map_of (fold (\<lambda>x. write_immutable (f x) (g x)) xs fs2) p"
proof (induction xs arbitrary: fs1 fs2)
  case (Cons x xs)
  have "map_of (write_immutable (f x) (g x) fs1) p = map_of (write_immutable (f x) (g x) fs2) p"
    using Cons.prems by (auto simp: map_of_write_immutable)
  then show ?case unfolding fold_Cons comp_def by (rule Cons.IH)
qed simp

lemma map_of_write_packs_index:
  assumes "below indexes_dir p"
  shows "map_of (write_packs b fs) p
     = map_of (fold (\<lambda>b. write_immutable (indexes_dir @ [ob_id b]) (ob_data b)) (cb_indexes b) fs) p"
  unfolding write_packs_def using assms
  by (intro map_of_fold_write_immutable_cong map_of_fold_write_immutable_other) auto

lemma map_of_write_packs_pack:
  "map_of (write_packs b fs) (packs_dir @ [i])
     = map_of (fold (\<lambda>b. write_immutable (packs_dir @ [ob_id b]) (ob_data b)) (cb_packs b) fs)
         (packs_dir @ [i])"
  unfolding write_packs_def by (rule map_of_fold_write_immutable_other) auto

lemma commit_batch_packs:
  assumes "below indexes_dir p \<or> p = packs_dir @ [i]"
  shows "map_of (snd (folder_commit_batch cr cd b fs)) p = map_of (write_packs b fs) p"
proof -
  have "p \<noteq> segments_dir @ [x, y, z]" and "p \<noteq> commits_dir @ [x]" for x y z
    using assms by (auto simp: dir_defs below_def)
  then have "map_of (write_segments cr cd cs fs') p = map_of fs' p"
    and "map_of (write_commits cr cd cs fs') p = map_of fs' p" for cs fs'
    unfolding write_segments_def write_commits_def segment_path_def
    by (intro map_of_fold_write_immutable_other; auto)+
  then show ?thesis by (simp add: folder_commit_batch_def)
qed

lemma packs_ok_iff:
  "packs_ok cr cd fs \<longleftrightarrow>
     (\<forall>p bs. below indexes_dir p \<longrightarrow> map_of fs p = Some bs \<longrightarrow> index_file_ok cr cd fs p)"
  by (auto simp: packs_ok_def set_files_recursive)

lemma index_file_ok_mono:
  assumes "index_file_ok cr cd fs p" and "map_of fs' p = map_of fs p"
    and "\<And>i data. map_of fs (packs_dir @ [i]) = Some data \<Longrightarrow> p = indexes_dir @ [i] \<Longrightarrow>
           map_of fs' (packs_dir @ [i]) = Some data"
  shows "index_file_ok cr cd fs' p"
  using assms by (fastforce simp: index_file_ok_def chunk_readable_def split: sum.splits option.splits)

text \<open>The batch publishes the packs of \<open>xs\<close>: what the runtime hands to \<^verbatim>\<open>commit_batch\<close>.\<close>

definition publishes ::
  "crypto \<Rightarrow> folder_codec \<Rightarrow> chunk list \<Rightarrow> commit_batch \<Rightarrow> fs \<Rightarrow> bool" where
  "publishes cr cd xs batch fs \<longleftrightarrow>
     chunks_small xs \<and> (\<forall>(i, bs) \<in> set xs. ci_hash i = blake3_hex cr bs)
     \<and> packs_storable cd (build_packs cr xs) fs
     \<and> cb_packs batch = pack_objects (build_packs cr xs)
     \<and> cb_indexes batch = index_objects (enc_index cd) (build_packs cr xs)"

abbreviation batched :: "crypto \<Rightarrow> folder_codec \<Rightarrow> commit_batch \<Rightarrow> fs \<Rightarrow> fs" where
  "batched cr cd batch fs \<equiv> snd (folder_commit_batch cr cd batch fs)"

lemma pack_stored:
  assumes pub: "publishes cr cd xs batch fs" and mem: "(i, data, index) \<in> set (build_packs cr xs)"
  shows "map_of (batched cr cd batch fs) (packs_dir @ [i]) = Some data"
    and "map_of (batched cr cd batch fs) (indexes_dir @ [i]) = Some (enc_index cd index)"
proof -
  from pub have d: "distinct (map fst (build_packs cr xs))"
    and old: "map_of fs (packs_dir @ [i]) \<in> {None, Some data}"
      "map_of fs (indexes_dir @ [i]) \<in> {None, Some (enc_index cd index)}"
    using mem by (auto simp: publishes_def packs_storable_def)
  have objects: "cb_packs batch = pack_objects (build_packs cr xs)"
    "cb_indexes batch = index_objects (enc_index cd) (build_packs cr xs)"
    using pub by (simp_all add: publishes_def)
  have same: "q = p" if "p \<in> set (build_packs cr xs)" "q \<in> set (build_packs cr xs)" "fst q = fst p" for p q
    using d that by (auto simp: distinct_map inj_on_def)
  have "map_of (fold (\<lambda>b. write_immutable (packs_dir @ [ob_id b]) (ob_data b)) (cb_packs batch) fs)
      (packs_dir @ [ob_id \<lparr>ob_id = i, ob_data = data\<rparr>]) = Some (ob_data \<lparr>ob_id = i, ob_data = data\<rparr>)"
    by (rule map_of_fold_write_immutable)
       (use mem old in \<open>force simp: objects pack_objects_def dest: same [OF mem]\<close>)+
  then show "map_of (batched cr cd batch fs) (packs_dir @ [i]) = Some data"
    by (simp add: commit_batch_packs [where i = i] map_of_write_packs_pack)
  have "map_of (fold (\<lambda>b. write_immutable (indexes_dir @ [ob_id b]) (ob_data b)) (cb_indexes batch) fs)
      (indexes_dir @ [ob_id \<lparr>ob_id = i, ob_data = enc_index cd index\<rparr>])
      = Some (ob_data \<lparr>ob_id = i, ob_data = enc_index cd index\<rparr>)"
    by (rule map_of_fold_write_immutable)
       (use mem old in \<open>force simp: objects index_objects_def dest: same [OF mem]\<close>)+
  then show "map_of (batched cr cd batch fs) (indexes_dir @ [i]) = Some (enc_index cd index)"
    by (simp add: commit_batch_packs map_of_write_packs_index)
qed

lemma pack_kept: "map_of fs (packs_dir @ [i]) = Some data \<Longrightarrow> map_of (batched cr cd batch fs) (packs_dir @ [i]) = Some data"
  by (simp add: commit_batch_packs [where i = i] map_of_write_packs_pack map_of_fold_write_immutable_kept)

lemma index_kept: "below indexes_dir p \<Longrightarrow> map_of fs p = Some data \<Longrightarrow> map_of (batched cr cd batch fs) p = Some data"
  by (simp add: commit_batch_packs map_of_write_packs_index map_of_fold_write_immutable_kept)

lemma index_sources:
  assumes "publishes cr cd xs batch fs" and "below indexes_dir p" and "map_of (batched cr cd batch fs) p = Some bs"
  shows "map_of fs p = Some bs \<or> (\<exists>(i, data, index) \<in> set (build_packs cr xs).
    p = indexes_dir @ [i] \<and> bs = enc_index cd index)"
  using assms(2,3) map_of_fold_write_immutable_Some
    [of "\<lambda>b. indexes_dir @ [ob_id b]" ob_data "cb_indexes batch" fs p bs]
  by (auto simp: commit_batch_packs map_of_write_packs_index
        assms(1) [unfolded publishes_def] index_objects_def)

lemma new_index_ok:
  assumes pub: "publishes cr cd xs batch fs" and mem: "(i, data, index) \<in> set (build_packs cr xs)"
  shows "index_file_ok cr cd (batched cr cd batch fs) (indexes_dir @ [i])"
proof -
  from pub have small: "chunks_small xs" and hashed: "\<forall>(i, bs) \<in> set xs. ci_hash i = blake3_hex cr bs"
    by (simp_all add: publishes_def)
  from build_packs_facts(1) [OF small mem]
  have i: "pi_pack_id index = i" and loc: "located xs data (pi_chunks index)"
    by (simp_all add: sealed_def)
  have "dec_index cd (enc_index cd index) = Inr index"
    using pub mem by (auto simp: publishes_def packs_storable_def)
  moreover have "chunk_readable cr (batched cr cd batch fs) i c" if "c \<in> set (pi_chunks index)" for c
    using loc that hashed by (fastforce simp: chunk_readable_def located_def pack_stored [OF pub mem])
  ultimately show ?thesis by (simp add: index_file_ok_def pack_stored [OF pub mem] i)
qed

lemma publication_ok: "publishes cr cd xs batch fs \<Longrightarrow> packs_ok cr cd fs \<Longrightarrow> packs_ok cr cd (batched cr cd batch fs)"
  unfolding packs_ok_iff [of cr cd "batched cr cd batch fs"]
proof (intro allI impI)
  fix p bs assume pub: "publishes cr cd xs batch fs" and ok: "packs_ok cr cd fs" and p: "below indexes_dir p" "map_of (batched cr cd batch fs) p = Some bs"
  from index_sources [OF pub p] show "index_file_ok cr cd (batched cr cd batch fs) p"
  proof
    assume "map_of fs p = Some bs"
    with ok p have "index_file_ok cr cd fs p" by (simp add: packs_ok_iff)
    then show ?thesis by (rule index_file_ok_mono) (simp_all add: p \<open>map_of fs p = Some bs\<close> pack_kept)
  qed (auto simp: new_index_ok [OF pub])
qed

lemma publication_keeps: "indexed_hashes cd fs \<subseteq> indexed_hashes cd (batched cr cd batch fs)"
proof
  fix h assume "h \<in> indexed_hashes cd fs"
  then obtain p c where "h = pc_hash c" "indexed_at cd fs p c" by (auto simp: indexed_hashes_def)
  moreover from this(2) obtain bs index where "map_of fs (indexes_dir @ [p]) = Some bs"
    "dec_index cd bs = Inr index" "c \<in> set (pi_chunks index)" by (rule indexed_atE)
  moreover from this(1) have "map_of (batched cr cd batch fs) (indexes_dir @ [p]) = Some bs" by (simp add: index_kept)
  ultimately have "h = pc_hash c \<and> indexed_at cd (batched cr cd batch fs) p c" by (simp add: indexed_at_def)
  then show "h \<in> indexed_hashes cd (batched cr cd batch fs)" unfolding indexed_hashes_def by blast
qed

lemma publication_indexes:
  assumes pub: "publishes cr cd xs batch fs"
  shows "set (chunk_hashes xs) \<subseteq> indexed_hashes cd (batched cr cd batch fs)"
proof
  fix h assume "h \<in> set (chunk_hashes xs)"
  then have "h \<in> set (concat (map index_hashes (build_packs cr xs)))"
    by (simp add: build_packs_facts(4) pub [unfolded publishes_def] first_occurrences_def)
  then obtain i data index c where p: "(i, data, index) \<in> set (build_packs cr xs)"
    and c: "c \<in> set (pi_chunks index)" "h = pc_hash c"
    by (auto simp: index_hashes_def)
  moreover have "dec_index cd (enc_index cd index) = Inr index"
    using pub p by (auto simp: publishes_def packs_storable_def)
  ultimately have "indexed_at cd (batched cr cd batch fs) i c" by (simp add: indexed_at_def pack_stored [OF pub p])
  with c show "h \<in> indexed_hashes cd (batched cr cd batch fs)" unfolding indexed_hashes_def by blast
qed

section \<open>Publication and collection preserve contents\<close>

lemma chunk_data_hashed:
  "\<forall>(i, bs) \<in> set (chunk_data cr cdc data). ci_hash i = blake3_hex cr bs"
  using chunk_data_hash by blast

lemma manifest_hashes: "manifest cr cdc data = map (blake3_hex cr) (map snd (chunk_data cr cdc data))"
  by (auto simp: manifest_def dest: chunk_data_hash)

lemma publish_fetch:
  assumes ok: "packs_ok cr cd fs" and tiles: "cdc_tiles cdc" and inj: "inj (blake3_hex cr)"
    and pub: "publishes cr cd xs batch fs"
    and rest: "set (manifest cr cdc data) \<subseteq> set (chunk_hashes xs) \<union> indexed_hashes cd fs"
  shows "fetch_manifest (folder_lookup_chunks cd) (folder_read_ranges cr) (manifest cr cdc data)
      (batched cr cd batch fs) = (Inr data, batched cr cd batch fs)"
proof -
  have "set (manifest cr cdc data) \<subseteq> indexed_hashes cd (batched cr cd batch fs)"
    using rest publication_keeps publication_indexes [OF pub] by blast
  from folder.fetch_exact [OF publication_ok [OF pub ok] inj manifest_hashes [symmetric] this]
  show ?thesis by (simp add: chunk_data_concat [OF tiles])
qed

lemma map_of_delete_packs:
  "map_of (delete_packs_fs ids fs) p =
     (if \<exists>i \<in> set ids. p = packs_dir @ [i] \<or> p = indexes_dir @ [i] then None else map_of fs p)"
  unfolding delete_packs_fs_def by (induction ids arbitrary: fs) auto

lemma indexed_at_delete:
  "indexed_at cd (delete_packs_fs ids fs) p c \<longleftrightarrow> p \<notin> set ids \<and> indexed_at cd fs p c"
  by (auto simp: indexed_at_def map_of_delete_packs)

lemma delete_packs_ok:
  assumes "packs_ok cr cd fs" shows "packs_ok cr cd (delete_packs_fs ids fs)"
  unfolding packs_ok_iff
proof (intro allI impI)
  fix p bs assume p: "below indexes_dir p" "map_of (delete_packs_fs ids fs) p = Some bs"
  then have live: "\<not> (\<exists>i \<in> set ids. p = packs_dir @ [i] \<or> p = indexes_dir @ [i])"
    and old: "map_of fs p = Some bs"
    by (auto simp: map_of_delete_packs split: if_splits)
  with assms p have "index_file_ok cr cd fs p" by (simp add: packs_ok_iff)
  then show "index_file_ok cr cd (delete_packs_fs ids fs) p"
    by (rule index_file_ok_mono) (use live p old in \<open>auto simp: map_of_delete_packs\<close>)
qed

lemma gc_keeps_live:
  assumes ok: "packs_ok cr cd fs" and found: "lookup_chunks_fs cd live fs = Inr ls"
    and dead: "set ids \<inter> cl_pack ` set ls = {}"
  shows "set live \<inter> indexed_hashes cd (delete_packs_fs ids fs) = set live \<inter> indexed_hashes cd fs"
proof
  show "set live \<inter> indexed_hashes cd (delete_packs_fs ids fs) \<subseteq> set live \<inter> indexed_hashes cd fs"
    by (auto simp: indexed_hashes_def indexed_at_delete)
  show "set live \<inter> indexed_hashes cd fs \<subseteq> set live \<inter> indexed_hashes cd (delete_packs_fs ids fs)"
  proof
    fix h assume h: "h \<in> set live \<inter> indexed_hashes cd fs"
    obtain ls' where ls': "lookup_chunks_fs cd live fs = Inr ls'"
      "set (map cl_hash ls') = set live \<inter> indexed_hashes cd fs"
      "\<And>l. l \<in> set ls' \<Longrightarrow> \<exists>p c. indexed_at cd fs p c \<and> l = location p c"
      by (rule lookup_chunks_ok [OF ok, of live]) blast
    with found h have "h \<in> cl_hash ` set ls" by auto
    then obtain l where l: "l \<in> set ls" "cl_hash l = h" by auto
    with ls' found obtain p c where pc: "indexed_at cd fs p c" "l = location p c"
      by fastforce
    have "cl_pack l = p" by (simp add: pc(2) location_def)
    with dead l(1) have "p \<notin> set ids" by blast
    with pc have "indexed_at cd (delete_packs_fs ids fs) p c" by (simp add: indexed_at_delete)
    moreover have "pc_hash c = h" using l(2) pc(2) by (simp add: location_def)
    ultimately show "h \<in> set live \<inter> indexed_hashes cd (delete_packs_fs ids fs)"
      using h by (auto simp: indexed_hashes_def)
  qed
qed

section \<open>Properties\<close>

text \<open>
  Concrete values for the witnesses: the pack of the one-byte file \<open>[7]\<close>, a codec that knows this
  index, and a tree that holds it beside a pack no index lists.
\<close>

definition demo_file_chunk :: chunk where
  "demo_file_chunk = (\<lparr>ci_hash = [CHR 0x07], ci_offset = 0, ci_length = 1\<rparr>, [7])"

definition demo_index :: pack_index where
  "demo_index = \<lparr>pi_pack_id = [CHR 0x07],
     pi_chunks = [\<lparr>pc_hash = [CHR 0x07], pc_offset = 0, pc_length = 1\<rparr>]\<rparr>"

definition const_codec :: "commit \<Rightarrow> catalog_segment \<Rightarrow> folder_codec" where
  "const_codec c seg = \<lparr>enc_commit = (\<lambda>_. []), dec_commit = (\<lambda>_. Inr c), enc_segment = (\<lambda>_. []),
     dec_segment = (\<lambda>_. Inr seg), enc_snapshot = (\<lambda>_. []), dec_snapshot = (\<lambda>_. Inl ''''),
     enc_generation = (\<lambda>_. []), dec_generation = (\<lambda>_. Inl ''''), enc_ack = (\<lambda>_. []),
     dec_ack = (\<lambda>_. Inl ''''), enc_index = (\<lambda>_. []), dec_index = (\<lambda>_. Inr demo_index)\<rparr>"

definition demo_commit :: commit where
  "demo_commit = \<lparr>cm_id = ''a:1:'', cm_resource = \<lparr>scope_id = ''s'', resource_id = ''r''\<rparr>,
     cm_parents = [], cm_author = ''a'', cm_counter = 1, cm_timestamp = 5, cm_change = Delete\<rparr>"

definition demo_codec :: folder_codec where
  "demo_codec = const_codec demo_commit (group_segment ((''a'', ''s''), [demo_commit]))"

definition demo_tree :: fs where
  "demo_tree = [(packs_dir @ [[CHR 0x07]], [7]), (indexes_dir @ [[CHR 0x07]], []),
     (packs_dir @ [''dead''], [9])]"

lemma demo_codec_index [simp]:
  "dec_index demo_codec bs = Inr demo_index" "enc_index demo_codec i = []"
  by (simp_all add: demo_codec_def const_codec_def)

lemma demo_crypto_hash [simp]: "blake3_hex demo_crypto bs = map (\<lambda>b. char_of (unat b)) bs"
  by (simp add: demo_crypto_def)

lemma demo_hash_inj: "inj (blake3_hex demo_crypto)"
proof (rule injI)
  fix x y assume "blake3_hex demo_crypto x = blake3_hex demo_crypto y"
  then have "map (of_char :: char \<Rightarrow> nat) (map (\<lambda>b. char_of (unat b)) x)
      = map (of_char :: char \<Rightarrow> nat) (map (\<lambda>b. char_of (unat b)) y)" by simp
  moreover have "unat b mod 256 = unat b" for b :: "8 word"
    using unsigned_less [of b, where ?'a = nat] by simp
  ultimately have "map unat x = map unat y" by (simp add: comp_def)
  moreover have "inj (unat :: 8 word \<Rightarrow> nat)" by (rule injI) (simp only: word_unat_eq_iff)
  ultimately show "x = y" using inj_map_eq_map by blast
qed

lemma char_of_7 [simp]: "char_of (7 :: nat) = CHR 0x07"
  by code_simp

lemma demo_file_chunks:
  "chunk_data demo_crypto demo_cdc [7] = [demo_file_chunk]"
  "build_packs demo_crypto [demo_file_chunk] = [([CHR 0x07], [7], demo_index)]"
  "manifest demo_crypto demo_cdc [7] = [[CHR 0x07]]"
  by (simp_all add: chunk_data_def demo_cdc_def demo_file_chunk_def Let_def build_packs_def
      TARGET_PACK_SIZE_def seal_pack_def demo_index_def saturate_u32_def manifest_def)

lemma demo_tree_ok: "packs_ok demo_crypto demo_codec demo_tree"
  by (simp add: packs_ok_def files_recursive_def demo_tree_def below_def dir_defs index_file_ok_def
      demo_index_def chunk_readable_def chunk_at_def)

lemma demo_tree_indexed: "indexed_hashes demo_codec demo_tree = {[CHR 0x07]}"
  by (auto simp: indexed_hashes_def indexed_at_def demo_tree_def dir_defs demo_index_def
      split: if_splits)

text \<open>Fetching a manifest is total and exact: on a consistent store it returns, for every listed
  hash in order, bytes that hash to it when all are indexed, and otherwise fails naming a hash that
  no index lists; the store is unchanged.\<close>

theorem fetch_manifest_exact:
  assumes "packs_ok cr cd fs"
  shows "(set hs \<subseteq> indexed_hashes cd fs \<longrightarrow>
       (\<exists>ds. fetch_manifest (folder_lookup_chunks cd) (folder_read_ranges cr) hs fs
              = (Inr (concat ds), fs) \<and> map (blake3_hex cr) ds = hs))
    \<and> (\<not> set hs \<subseteq> indexed_hashes cd fs \<longrightarrow>
       (\<exists>h \<in> set hs - indexed_hashes cd fs.
          fetch_manifest (folder_lookup_chunks cd) (folder_read_ranges cr) hs fs
            = (Inl (IoError (''chunk '' @ h @ '' is missing'')), fs)))"
proof (intro conjI impI)
  assume "set hs \<subseteq> indexed_hashes cd fs"
  from folder.fetch_stored [OF assms this]
  show "\<exists>ds. fetch_manifest (folder_lookup_chunks cd) (folder_read_ranges cr) hs fs
      = (Inr (concat ds), fs) \<and> map (blake3_hex cr) ds = hs" by blast
next
  assume "\<not> set hs \<subseteq> indexed_hashes cd fs"
  then have "\<exists>h \<in> set hs. h \<notin> indexed_hashes cd fs" by blast
  from split_list_first_prop [OF this] obtain as h bs where
    hs: "hs = as @ h # bs" "h \<notin> indexed_hashes cd fs"
    and pre: "\<forall>a \<in> set as. \<not> a \<notin> indexed_hashes cd fs" by blast
  from pre have "set as \<subseteq> indexed_hashes cd fs" by blast
  from folder.fetch_missing [OF assms this hs(2)] hs(1,2)
  show "\<exists>h \<in> set hs - indexed_hashes cd fs.
      fetch_manifest (folder_lookup_chunks cd) (folder_read_ranges cr) hs fs
        = (Inl (IoError (''chunk '' @ h @ '' is missing'')), fs)" by auto
qed

theorem fetch_manifest_exact_witness:
  "\<exists>ds. fetch_manifest (folder_lookup_chunks demo_codec) (folder_read_ranges demo_crypto)
     [[CHR 0x07]] demo_tree = (Inr (concat ds), demo_tree)"
  using fetch_manifest_exact [OF demo_tree_ok, of "[[CHR 0x07]]"]
  by (auto simp: demo_tree_indexed)

text \<open>Publication round trip: after a batch has published the chunks of a file that the remote did
  not hold, fetching the file's manifest gives back the file, and the store is still consistent.\<close>

theorem publish_fetch_round_trip:
  assumes "packs_ok cr cd fs" and "cdc_tiles cdc" and "inj (blake3_hex cr)"
    and "publishes cr cd (filter (\<lambda>(c, _). ci_hash c \<notin> indexed_hashes cd fs)
           (chunk_data cr cdc data)) batch fs"
  shows "packs_ok cr cd (batched cr cd batch fs)
    \<and> fetch_manifest (folder_lookup_chunks cd) (folder_read_ranges cr) (manifest cr cdc data)
        (batched cr cd batch fs) = (Inr data, batched cr cd batch fs)"
proof
  show "packs_ok cr cd (batched cr cd batch fs)" by (rule publication_ok [OF assms(4,1)])
  show "fetch_manifest (folder_lookup_chunks cd) (folder_read_ranges cr) (manifest cr cdc data)
      (batched cr cd batch fs) = (Inr data, batched cr cd batch fs)"
    by (rule publish_fetch [OF assms]) (auto simp: manifest_def chunk_hashes_def)
qed

lemma demo_publishes:
  "publishes demo_crypto demo_codec [demo_file_chunk]
     \<lparr>cb_commits = [], cb_packs = pack_objects [([CHR 0x07], [7], demo_index)],
      cb_indexes = index_objects (enc_index demo_codec) [([CHR 0x07], [7], demo_index)]\<rparr> []"
  by (simp add: publishes_def packs_storable_def demo_file_chunks)
     (simp add: chunks_small_def demo_file_chunk_def MAX_SIZE_def)

lemma no_indexes: "indexed_hashes cd [] = {}"
  by (simp add: indexed_hashes_def indexed_at_def)

theorem publish_fetch_round_trip_witness:
  "\<exists>fs. fetch_manifest (folder_lookup_chunks demo_codec) (folder_read_ranges demo_crypto)
     [[CHR 0x07]] fs = (Inr [7], fs)"
proof -
  have "packs_ok demo_crypto demo_codec []" by (simp add: packs_ok_def files_recursive_def)
  from publish_fetch_round_trip [OF this cdc_tiles_demo demo_hash_inj, of "[7]"] demo_publishes
  show ?thesis by (auto simp: demo_file_chunks no_indexes demo_file_chunk_def)
qed

text \<open>Collecting packs is safe: deleting packs that no looked-up location of a live hash names keeps
  the store consistent, and every manifest of live indexed hashes still yields the same bytes.\<close>

theorem gc_preserves_live_contents:
  assumes "packs_ok cr cd fs" and "inj (blake3_hex cr)"
    and "folder_lookup_chunks cd live fs = (Inr ls, fs)" and "set ids \<inter> cl_pack ` set ls = {}"
    and "set hs \<subseteq> set live \<inter> indexed_hashes cd fs"
  shows "packs_ok cr cd (delete_packs_fs ids fs)
    \<and> fst (fetch_manifest (folder_lookup_chunks cd) (folder_read_ranges cr) hs (delete_packs_fs ids fs))
      = fst (fetch_manifest (folder_lookup_chunks cd) (folder_read_ranges cr) hs fs)"
proof
  show ok: "packs_ok cr cd (delete_packs_fs ids fs)" by (rule delete_packs_ok [OF assms(1)])
  have found: "lookup_chunks_fs cd live fs = Inr ls" using assms(3) by (simp add: folder_lookup_chunks_def)
  have sub: "set hs \<subseteq> indexed_hashes cd (delete_packs_fs ids fs)"
    using gc_keeps_live [OF assms(1) found assms(4)] assms(5) by blast
  from assms(5) have "set hs \<subseteq> indexed_hashes cd fs" by blast
  then obtain ds where ds: "fetch_manifest (folder_lookup_chunks cd) (folder_read_ranges cr) hs fs
      = (Inr (concat ds), fs)" "map (blake3_hex cr) ds = hs"
    by (rule folder.fetch_stored [OF assms(1)])
  from folder.fetch_exact [OF ok assms(2) ds(2) sub] ds(1)
  show "fst (fetch_manifest (folder_lookup_chunks cd) (folder_read_ranges cr) hs (delete_packs_fs ids fs))
      = fst (fetch_manifest (folder_lookup_chunks cd) (folder_read_ranges cr) hs fs)" by simp
qed

lemma demo_lookup: "folder_lookup_chunks demo_codec [[CHR 0x07]] demo_tree
    = (Inr [\<lparr>cl_hash = [CHR 0x07], cl_pack = [CHR 0x07], cl_offset = 0, cl_length = 1\<rparr>], demo_tree)"
  by (simp add: folder_lookup_chunks_def lookup_chunks_fs_def read_indexes_def files_recursive_def
      demo_tree_def below_def dir_defs fs_read_def parse_with_def index_found_def chunk_found_def
      demo_index_def)

theorem gc_preserves_live_contents_witness:
  "packs_ok demo_crypto demo_codec (delete_packs_fs [''dead''] demo_tree)"
  by (rule conjunct1 [OF gc_preserves_live_contents
        [OF demo_tree_ok demo_hash_inj demo_lookup, where hs = "[]"]]) simp_all

text \<open>A committed batch is visible: loading the ids of a storable batch right after
  \<^verbatim>\<open>commit_batch\<close> returns exactly its commits, in order.\<close>

theorem committed_batch_is_loadable:
  assumes "storable cr cd (cb_commits b) fs"
  shows "bind (folder_commit_batch cr cd b) (folder_load_commits cr cd) fs
    = (Inr (cb_commits b), snd (folder_commit_batch cr cd b fs))"
proof -
  have "folder_commit_batch cr cd b fs
      = (Inr (map cm_id (cb_commits b)), snd (folder_commit_batch cr cd b fs))"
    by (simp add: folder_commit_batch_def)
  then show ?thesis using load_commits_after_batch [OF assms] by (metis bind_Inr)
qed

theorem committed_batch_is_loadable_witness:
  "fst (bind (folder_commit_batch demo_crypto demo_codec \<lparr>cb_commits = [demo_commit], cb_packs = [],
     cb_indexes = []\<rparr>) (folder_load_commits demo_crypto demo_codec) []) = Inr [demo_commit]"
proof -
  have "storable demo_crypto demo_codec (cb_commits \<lparr>cb_commits = [demo_commit], cb_packs = [],
     cb_indexes = []\<rparr>) []"
    by (simp add: storable_def demo_codec_def const_codec_def)
  from committed_batch_is_loadable [OF this] show ?thesis by simp
qed

end
