(* ===== verification/Folder_Scan.thy ===== *)
theory Folder_Scan
  imports Folder_Packs
begin

text \<open>
  What \<^verbatim>\<open>scan_catalog\<close> delivers: the events newer than the caller's cursors and than the snapshot
  coverage, and cursors that advance exactly over what was delivered.
\<close>

section \<open>The loops in closed form\<close>

definition snapshot_events ::
  "string list \<Rightarrow> cursor_map \<Rightarrow> catalog_snapshot list \<Rightarrow> catalog_event list" where
  "snapshot_events scopes cursors snaps =
     concat (map (\<lambda>sn. filter (\<lambda>e. fresh_event scopes (cursor_get cursors (event_key e)) e)
       (sn_events sn)) snaps)"

definition segment_cursor :: "cursor_map \<Rightarrow> cursor_map \<Rightarrow> catalog_segment \<Rightarrow> u64" where
  "segment_cursor cursors covered seg =
     (let k = (sg_client seg, sg_scope seg) in max (cursor_get cursors k) (cursor_get covered k))"

definition segment_read :: "string list \<Rightarrow> cursor_map \<Rightarrow> cursor_map \<Rightarrow> catalog_segment \<Rightarrow> bool" where
  "segment_read scopes cursors covered seg \<longleftrightarrow>
     in_scopes scopes (sg_scope seg) \<and> segment_cursor cursors covered seg < sg_last seg"

definition segment_events ::
  "string list \<Rightarrow> cursor_map \<Rightarrow> cursor_map \<Rightarrow> catalog_segment list \<Rightarrow> catalog_event list" where
  "segment_events scopes cursors covered segs =
     concat (map (\<lambda>seg. filter (fresh_event scopes (segment_cursor cursors covered seg)) (sg_events seg))
       (filter (segment_read scopes cursors covered) segs))"

definition segment_bump :: "catalog_segment \<Rightarrow> (string \<times> string) \<times> u64" where
  "segment_bump seg = ((sg_client seg, sg_scope seg), sg_last seg)"

lemma foldl_snapshot_cursors:
  "foldl scan_snapshot_cursor st cs =
     st\<lparr>ss_snapshot_cursors := ss_snapshot_cursors st @ cs,
        ss_covered := foldl (\<lambda>m c. bt_insert (cursor_key c) (cu_counter c) m) (ss_covered st) cs,
        ss_next := bumps (map (\<lambda>c. (cursor_key c, cu_counter c)) cs) (ss_next st)\<rparr>"
  by (induction cs arbitrary: st) (simp_all add: scan_snapshot_cursor_def bumps_def)

lemma foldl_scan_snapshot:
  "foldl (scan_snapshot scopes cursors) st snaps =
     st\<lparr>ss_events := ss_events st @ snapshot_events scopes cursors snaps,
        ss_snapshot_cursors := ss_snapshot_cursors st @ concat (map sn_cursors snaps),
        ss_covered := foldl (\<lambda>m c. bt_insert (cursor_key c) (cu_counter c) m) (ss_covered st)
          (concat (map sn_cursors snaps)),
        ss_next := bumps (map (\<lambda>c. (cursor_key c, cu_counter c)) (concat (map sn_cursors snaps)))
          (ss_next st)\<rparr>"
  by (induction snaps arbitrary: st)
     (simp_all add: scan_snapshot_def foldl_snapshot_cursors Let_def snapshot_events_def bumps_def)

lemma covered_by_foldl:
  "foldl (\<lambda>m c. bt_insert (cursor_key c) (cu_counter c) m) [] cs = covered_by cs"
  unfolding covered_by_def bt_collect_def
  by (simp add: foldl_conv_fold fold_map comp_def)

lemma foldl_scan_segment:
  "foldl (scan_segment scopes cursors) st segs =
     st\<lparr>ss_events := ss_events st @ segment_events scopes cursors (ss_covered st) segs,
        ss_next := bumps (map segment_bump (filter (segment_read scopes cursors (ss_covered st)) segs))
          (ss_next st)\<rparr>"
proof (induction segs arbitrary: st)
  case Nil
  show ?case by (simp add: segment_events_def bumps_def)
next
  case (Cons seg segs)
  show ?case
  proof (cases "segment_read scopes cursors (ss_covered st) seg")
    case True
    then have "in_scopes scopes (sg_scope seg)" and "\<not> sg_last seg \<le> segment_cursor cursors (ss_covered st) seg"
      by (simp_all add: segment_read_def not_le)
    then have "scan_segment scopes cursors st seg =
        st\<lparr>ss_events := ss_events st
             @ filter (fresh_event scopes (segment_cursor cursors (ss_covered st) seg)) (sg_events seg),
           ss_next := cursor_bump (sg_client seg, sg_scope seg) (sg_last seg) (ss_next st)\<rparr>"
      by (simp add: scan_segment_def segment_cursor_def Let_def)
    with True show ?thesis by (simp add: Cons.IH segment_events_def bumps_def segment_bump_def)
  next
    case False
    then have "scan_segment scopes cursors st seg = st"
      by (auto simp: scan_segment_def segment_read_def segment_cursor_def Let_def not_le)
    with False show ?thesis by (simp add: Cons.IH segment_events_def)
  qed
qed

lemma scan_catalog_closed_form:
  assumes "load_snapshots cd scopes fs = Inr snaps" and "read_segments cd fs = Inr segs"
    and "cursors = covered_by req" and "covered = covered_by (concat (map sn_cursors snaps))"
  shows "scan_catalog_fs cd scopes req fs = Inr
     \<lparr>cd_events = sort_key (\<lambda>e. (ev_client e, ev_counter e))
        (snapshot_events scopes cursors snaps @ segment_events scopes cursors covered segs),
      cd_cursors = cursors_of (bumps (map segment_bump (filter (segment_read scopes cursors covered) segs))
        (bumps (map (\<lambda>c. (cursor_key c, cu_counter c)) (concat (map sn_cursors snaps))) cursors)),
      cd_snapshot_cursors = concat (map sn_cursors snaps)\<rparr>"
  using assms
  by (simp add: scan_catalog_fs_def Let_def foldl_scan_snapshot foldl_scan_segment covered_by_foldl
      covered_by_def [symmetric])

section \<open>Well-formed catalogs\<close>

text \<open>
  A segment's events are its client's in its scope and no newer than its last counter (what
  \<^verbatim>\<open>commit_batch\<close> writes); a snapshot's events are no newer than its cursors for their client.
\<close>

definition segment_ok :: "catalog_segment \<Rightarrow> bool" where
  "segment_ok seg \<longleftrightarrow>
     (\<forall>e \<in> set (sg_events seg). event_key e = (sg_client seg, sg_scope seg)
        \<and> ev_counter e \<le> sg_last seg)"

definition snapshot_ok :: "catalog_snapshot list \<Rightarrow> bool" where
  "snapshot_ok snaps \<longleftrightarrow>
     (\<forall>sn \<in> set snaps. \<forall>e \<in> set (sn_events sn). \<exists>c \<in> set (sn_cursors sn).
        cursor_key c = event_key e \<and> ev_counter e \<le> cu_counter c)"

lemma sorted_last_ge: "sorted (map f xs) \<Longrightarrow> x \<in> set xs \<Longrightarrow> f x \<le> f (last xs)"
  by (induction xs) auto

lemma group_segment_ok:
  assumes "g \<in> set (by_client_scope cs)" shows "segment_ok (group_segment g)"
proof -
  from assms obtain k where g: "g = (k, filter (\<lambda>c. commit_group c = k) cs)"
    by (auto simp: by_client_scope_def)
  obtain client scope where k: "k = (client, scope)" by (cases k)
  define events where "events = map (\<lambda>c. (commit_event c)\<lparr>ev_client := client\<rparr>)
    (sort_key cm_counter (filter (\<lambda>c. commit_group c = k) cs))"
  have "sorted (map ev_counter events)" by (simp add: events_def comp_def commit_event_def)
  then have le: "ev_counter e \<le> ev_counter (last events)" if "e \<in> set events" for e
    using that by (rule sorted_last_ge)
  have key: "event_key e = (client, scope)" if "e \<in> set events" for e
    using that by (auto simp: events_def event_key_def commit_event_def commit_group_def k)
  have "sg_client (group_segment g) = client" "sg_scope (group_segment g) = scope"
    "sg_events (group_segment g) = events"
    "sg_last (group_segment g) = (if events = [] then 0 else ev_counter (last events))"
    by (simp_all add: group_segment_def g k Let_def events_def)
  then show ?thesis using le key by (auto simp: segment_ok_def)
qed

lemma segment_events_all:
  assumes "\<forall>seg \<in> set segs. segment_ok seg"
  shows "set (segment_events scopes cursors covered segs) =
    {e. \<exists>seg \<in> set segs. e \<in> set (sg_events seg) \<and>
       fresh_event scopes (max (cursor_get cursors (event_key e)) (cursor_get covered (event_key e))) e}"
    (is "?L = ?R")
proof
  show "?L \<subseteq> ?R"
  proof
    fix e assume "e \<in> ?L"
    then obtain seg where seg: "seg \<in> set segs" "e \<in> set (sg_events seg)"
      "fresh_event scopes (segment_cursor cursors covered seg) e"
      by (auto simp: segment_events_def)
    with assms have "event_key e = (sg_client seg, sg_scope seg)" by (auto simp: segment_ok_def)
    with seg show "e \<in> ?R" by (auto simp: segment_cursor_def Let_def)
  qed
  show "?R \<subseteq> ?L"
  proof
    fix e assume "e \<in> ?R"
    then obtain seg where seg: "seg \<in> set segs" "e \<in> set (sg_events seg)"
      and f: "fresh_event scopes (max (cursor_get cursors (event_key e)) (cursor_get covered (event_key e))) e"
      by auto
    with assms have k: "event_key e = (sg_client seg, sg_scope seg)" and le: "ev_counter e \<le> sg_last seg"
      by (auto simp: segment_ok_def)
    from f k have fresh: "fresh_event scopes (segment_cursor cursors covered seg) e"
      by (simp add: segment_cursor_def Let_def)
    then have "segment_cursor cursors covered seg < sg_last seg" and "in_scopes scopes (sg_scope seg)"
      using le k by (auto simp: fresh_event_def event_key_def)
    then have "segment_read scopes cursors covered seg" by (simp add: segment_read_def)
    with seg fresh show "e \<in> ?L" by (auto simp: segment_events_def)
  qed
qed

text \<open>The events of a catalog that a request with these cursors has not seen.\<close>

definition unseen ::
  "string list \<Rightarrow> cursor_map \<Rightarrow> catalog_snapshot list \<Rightarrow> catalog_segment list \<Rightarrow> catalog_event set" where
  "unseen scopes cursors snaps segs =
     {e. ((\<exists>sn \<in> set snaps. e \<in> set (sn_events sn))
          \<or> (\<exists>seg \<in> set segs. e \<in> set (sg_events seg)
               \<and> cursor_get (covered_by (concat (map sn_cursors snaps))) (event_key e) < ev_counter e))
        \<and> cursor_get cursors (event_key e) < ev_counter e \<and> in_scopes scopes (scope_id (ev_resource e))}"

lemma set_cd_events:
  assumes "\<forall>seg \<in> set segs. segment_ok seg"
  shows "set (snapshot_events scopes cursors snaps
      @ segment_events scopes cursors (covered_by (concat (map sn_cursors snaps))) segs)
    = unseen scopes cursors snaps segs"
  by (auto simp: segment_events_all [OF assms] snapshot_events_def unseen_def fresh_event_def)

text \<open>Cursors of a delta cover every event it could still deliver.\<close>

lemma next_covers_segments:
  assumes "segment_ok seg" and "seg \<in> set segs" and "e \<in> set (sg_events seg)"
    and "in_scopes scopes (scope_id (ev_resource e))"
    and "cursor_get covered (event_key e) < ev_counter e"
  shows "ev_counter e \<le> cursor_get (bumps (map segment_bump (filter (segment_read scopes cursors covered) segs))
      (bumps ps cursors)) (event_key e)"
proof (cases "ev_counter e \<le> cursor_get cursors (event_key e)")
  case True
  also have "cursor_get cursors (event_key e) \<le> cursor_get (bumps ps cursors) (event_key e)"
    by (rule cursor_get_bumps_ge)
  also note cursor_get_bumps_ge
  finally show ?thesis .
next
  case False
  from assms(1,3) have k: "event_key e = (sg_client seg, sg_scope seg)" and le: "ev_counter e \<le> sg_last seg"
    by (auto simp: segment_ok_def)
  from False assms(5) k have "segment_cursor cursors covered seg < ev_counter e"
    by (simp add: segment_cursor_def Let_def)
  with le assms(4) k have "segment_read scopes cursors covered seg"
    by (auto simp: segment_read_def event_key_def)
  with assms(2) k have "(event_key e, sg_last seg)
      \<in> set (map segment_bump (filter (segment_read scopes cursors covered) segs))"
    by (auto simp: segment_bump_def)
  from cursor_get_bumps_mem [OF this] le show ?thesis by (rule order_trans [rotated])
qed

lemma next_covers_snapshots:
  assumes "snapshot_ok snaps" and "sn \<in> set snaps" and "e \<in> set (sn_events sn)"
  shows "ev_counter e \<le> cursor_get (bumps ps
      (bumps (map (\<lambda>c. (cursor_key c, cu_counter c)) (concat (map sn_cursors snaps))) cursors)) (event_key e)"
proof -
  from assms obtain c where c: "c \<in> set (sn_cursors sn)" "cursor_key c = event_key e"
    "ev_counter e \<le> cu_counter c" by (fastforce simp: snapshot_ok_def)
  with assms(2) have "(event_key e, cu_counter c)
      \<in> set (map (\<lambda>c. (cursor_key c, cu_counter c)) (concat (map sn_cursors snaps)))"
    by force
  note c(3)
  also note cursor_get_bumps_mem [OF \<open>(event_key e, cu_counter c) \<in> _\<close>]
  also note cursor_get_bumps_ge
  finally show ?thesis .
qed

section \<open>Properties\<close>

text \<open>C21. A scan delivers exactly the unseen events of the catalog, in client and counter order, and
  skipping whole segments by their last counter loses none.\<close>

theorem scan_delivers_unseen:
  assumes "load_snapshots cd scopes fs = Inr snaps" and "read_segments cd fs = Inr segs"
    and "\<forall>seg \<in> set segs. segment_ok seg"
  shows "\<exists>d. folder_scan_catalog cd scopes req fs = (Inr d, fs)
    \<and> set (cd_events d) = unseen scopes (covered_by req) snaps segs
    \<and> sorted (map (\<lambda>e. (ev_client e, ev_counter e)) (cd_events d))"
  using set_cd_events [OF assms(3), of scopes "covered_by req" snaps]
  by (simp add: folder_scan_catalog_def scan_catalog_closed_form [OF assms(1,2) refl refl])

lemma demo_segment: "group_segment ((''a'', ''s''), [demo_commit])
    = \<lparr>sg_client = ''a'', sg_scope = ''s'', sg_first = 1, sg_last = 1, sg_events = [commit_event demo_commit]\<rparr>"
  by (simp add: group_segment_def commit_event_def demo_commit_def)

definition demo_catalog :: fs where
  "demo_catalog = [(segments_dir @ [''a'', ''s'', ''x''], [])]"

lemma demo_catalog_reads:
  "load_snapshots demo_codec [] demo_catalog = Inr []"
  "read_segments demo_codec demo_catalog = Inr [group_segment ((''a'', ''s''), [demo_commit])]"
  by (simp_all add: load_snapshots_def read_segments_def files_recursive_def demo_catalog_def
      below_def dir_defs fs_read_def parse_with_def demo_codec_def const_codec_def)

lemma demo_segment_ok: "segment_ok (group_segment ((''a'', ''s''), [demo_commit]))"
  unfolding demo_segment by (simp add: segment_ok_def commit_event_def event_key_def demo_commit_def)

theorem scan_delivers_unseen_witness:
  "\<exists>d. folder_scan_catalog demo_codec [] [] demo_catalog = (Inr d, demo_catalog)
     \<and> set (cd_events d) = {commit_event demo_commit}"
proof -
  have "unseen [] (covered_by []) [] [group_segment ((''a'', ''s''), [demo_commit])]
      = {commit_event demo_commit}"
    unfolding demo_segment
    by (auto simp: unseen_def covered_by_def bt_collect_def cursor_get_def in_scopes_def
        commit_event_def demo_commit_def)
  with scan_delivers_unseen [OF demo_catalog_reads, of "[]"] demo_segment_ok show ?thesis by auto
qed

text \<open>Scanning is incremental: a second scan of the same tree with the cursors that the first one
  returned delivers no event, so nothing is delivered twice.\<close>

theorem rescan_is_empty:
  assumes "load_snapshots cd scopes fs = Inr snaps" and "read_segments cd fs = Inr segs"
    and "\<forall>seg \<in> set segs. segment_ok seg" and "snapshot_ok snaps"
    and "scan_catalog_fs cd scopes req fs = Inr d"
  shows "\<exists>d'. scan_catalog_fs cd scopes (cd_cursors d) fs = Inr d' \<and> cd_events d' = []"
proof -
  let ?covered = "covered_by (concat (map sn_cursors snaps))"
  let ?cursors = "covered_by (cd_cursors d)"
  let ?next = "bumps (map segment_bump (filter (segment_read scopes (covered_by req) ?covered) segs))
    (bumps (map (\<lambda>c. (cursor_key c, cu_counter c)) (concat (map sn_cursors snaps))) (covered_by req))"
  have "bt_ok ?next" by (intro bt_ok_bumps) (simp add: covered_by_def)
  moreover have "cd_cursors d = cursors_of ?next"
    using assms(5) unfolding scan_catalog_closed_form [OF assms(1,2) refl refl] by auto
  ultimately have get: "cursor_get ?cursors k = cursor_get ?next k" for k
    by (simp add: cursor_get_def covered_by_cursors_of)
  have "unseen scopes ?cursors snaps segs = {}"
  proof (rule ccontr)
    assume "unseen scopes ?cursors snaps segs \<noteq> {}"
    then obtain e where "e \<in> unseen scopes ?cursors snaps segs" by blast
    then have new: "cursor_get ?next (event_key e) < ev_counter e"
      and scope: "in_scopes scopes (scope_id (ev_resource e))"
      and src: "(\<exists>sn \<in> set snaps. e \<in> set (sn_events sn))
        \<or> (\<exists>seg \<in> set segs. e \<in> set (sg_events seg) \<and> cursor_get ?covered (event_key e) < ev_counter e)"
      by (auto simp: unseen_def get)
    from src have "ev_counter e \<le> cursor_get ?next (event_key e)"
    proof
      assume "\<exists>sn \<in> set snaps. e \<in> set (sn_events sn)"
      then show ?thesis by (auto intro: next_covers_snapshots [OF assms(4)])
    next
      assume "\<exists>seg \<in> set segs. e \<in> set (sg_events seg) \<and> cursor_get ?covered (event_key e) < ev_counter e"
      then show ?thesis using assms(3) scope by (auto intro: next_covers_segments)
    qed
    with new show False by simp
  qed
  with set_cd_events [OF assms(3), of scopes ?cursors snaps]
  show ?thesis by (simp add: scan_catalog_closed_form [OF assms(1,2) refl refl])
qed

theorem rescan_is_empty_witness:
  "\<exists>d d'. scan_catalog_fs demo_codec [] [] demo_catalog = Inr d
     \<and> scan_catalog_fs demo_codec [] (cd_cursors d) demo_catalog = Inr d' \<and> cd_events d' = []"
proof -
  obtain d where d: "scan_catalog_fs demo_codec [] [] demo_catalog = Inr d"
    by (simp add: scan_catalog_closed_form [OF demo_catalog_reads refl refl])
  have "snapshot_ok []" by (simp add: snapshot_ok_def)
  from rescan_is_empty [OF demo_catalog_reads _ this d] demo_segment_ok d show ?thesis by auto
qed

end
