(* ===== verification/Runtime_State.thy ===== *)
theory Runtime_State
  imports Text_Doc
begin

text \<open>
  \<^verbatim>\<open>RuntimeState\<close> of \<^verbatim>\<open>src/src/runtime.rs\<close>: what the engine remembers between runs, and the queries
  on its commit DAG. A \<^verbatim>\<open>BTreeMap\<close> is an association list in key order. A text document that is only
  read is built with the given \<open>seed\<close>: the random replica id of a fresh document is observable only
  through edits made on that document.
\<close>

section \<open>Data\<close>

record stored_baseline =
  sb_key :: resource_key
  sb_state :: baseline_state
  sb_operation :: string

record operation_journal =
  oj_id :: string
  oj_key :: resource_key
  oj_stage :: string

record run_journal =
  rj_id :: string
  rj_operations :: "operation_journal list"

record stored_checkpoint =
  sc_key :: resource_key
  sc_commit :: string

record runtime_state =
  counter :: u64
  baselines :: "(string \<times> stored_baseline) list"
  commits :: "(string \<times> commit) list"
  cursors :: "catalog_cursor list"
  conflicts :: "(string \<times> conflict_record) list"
  kinds :: "(string \<times> resource_kind) list"
  text_states :: "(string \<times> bytes) list"
  active_run :: "run_journal option"
  retired_clients :: "string list"
  checkpoints :: "(string \<times> stored_checkpoint) list"
  events_since_snapshot :: "(string \<times> nat) list"

definition default_state :: runtime_state where
  "default_state = \<lparr>counter = 0, baselines = [], commits = [], cursors = [], conflicts = [],
     kinds = [], text_states = [], active_run = None, retired_clients = [], checkpoints = [],
     events_since_snapshot = []\<rparr>"

section \<open>Queries\<close>

definition scoped :: "string list \<Rightarrow> string \<Rightarrow> bool" where
  "scoped scopes s \<longleftrightarrow> scopes = [] \<or> s \<in> set scopes"

definition baseline_pairs :: "string list \<Rightarrow> runtime_state \<Rightarrow> (resource_key \<times> baseline_state) list" where
  "baseline_pairs scopes st =
     map (\<lambda>b. (sb_key b, sb_state b))
       (filter (\<lambda>b. scoped scopes (scope_id (sb_key b))) (map snd (baselines st)))"

definition resource_commits :: "resource_key \<Rightarrow> runtime_state \<Rightarrow> commit list" where
  "resource_commits key st = filter (\<lambda>c. cm_resource c = key) (map snd (commits st))"

definition heads :: "resource_key \<Rightarrow> runtime_state \<Rightarrow> string list" where
  "heads key st =
     (let cs = resource_commits key st;
          ids = bset (map cm_id cs);
          parents = set (concat (map cm_parents cs))
      in filter (\<lambda>i. i \<notin> parents) ids)"

definition commit_parents :: "(string \<times> commit) list \<Rightarrow> string \<Rightarrow> string list" where
  "commit_parents cs i = (case map_of cs i of None \<Rightarrow> [] | Some c \<Rightarrow> cm_parents c)"

text \<open>
  The two graph walks. \<open>pending\<close> is the stack, its top first, so that extending by the parents pushes
  the last parent on top; \<open>visited\<close> is the ordered set. A walk visits a known commit once, so it ends.
\<close>

function descends :: "(string \<times> commit) list \<Rightarrow> string \<Rightarrow> string list \<Rightarrow> string list \<Rightarrow> bool" where
  "descends cs anc [] visited = False"
| "descends cs anc (i # pending) visited =
     (if i = anc then True
      else if i \<in> set visited then descends cs anc pending visited
      else descends cs anc (rev (commit_parents cs i) @ pending) (i # visited))"
  by pat_completeness auto

lemma walk_decreases:
  assumes "i \<notin> set visited"
  shows "commit_parents cs i = []
    \<or> card (fst ` set cs - insert i (set visited)) < card (fst ` set cs - set visited)"
proof (cases "map_of cs i")
  case None
  then show ?thesis by (simp add: commit_parents_def)
next
  case (Some c)
  then have "i \<in> fst ` set cs" by (metis map_of_eq_None_iff option.distinct(1))
  with assms have "fst ` set cs - insert i (set visited) \<subset> fst ` set cs - set visited" by blast
  then show ?thesis by (simp add: psubset_card_mono)
qed

lemma walk_le: "card (fst ` set cs - insert i V) \<le> card (fst ` set cs - V)"
  by (intro card_mono) auto

termination descends
proof (relation "measures [\<lambda>(cs, anc, pending, visited). card (fst ` set cs - set visited),
    \<lambda>(cs, anc, pending, visited). length pending]", goal_cases)
  case 3
  then show ?case using walk_decreases [of _ _] walk_le by (fastforce simp: le_less)
qed auto

definition is_descendant :: "string \<Rightarrow> string \<Rightarrow> runtime_state \<Rightarrow> bool" where
  "is_descendant candidate ancestor st = descends (commits st) ancestor [candidate] []"

definition keyed_parents :: "resource_key \<Rightarrow> (string \<times> commit) list \<Rightarrow> string \<Rightarrow> string list" where
  "keyed_parents key cs i =
     (case map_of cs i of None \<Rightarrow> []
      | Some c \<Rightarrow> if cm_resource c = key then cm_parents c else [])"

function reachable ::
  "resource_key \<Rightarrow> (string \<times> commit) list \<Rightarrow> string list \<Rightarrow> string list \<Rightarrow> string list" where
  "reachable key cs [] visited = visited"
| "reachable key cs (i # pending) visited =
     (if i \<in> set visited then reachable key cs pending visited
      else reachable key cs (rev (keyed_parents key cs i) @ pending) (i # visited))"
  by pat_completeness auto

lemma keyed_parents_Nil: "commit_parents cs i = [] \<Longrightarrow> keyed_parents key cs i = []"
  by (auto simp: commit_parents_def keyed_parents_def split: option.splits)

termination reachable
proof (relation "measures [\<lambda>(key, cs, pending, visited). card (fst ` set cs - set visited),
    \<lambda>(key, cs, pending, visited). length pending]", goal_cases)
  case (3 key cs i pending visited)
  then show ?case using walk_decreases [of i visited cs] walk_le [of cs i "set visited"]
    by (auto simp: le_less keyed_parents_Nil)
qed auto

definition remote_keys :: "string list \<Rightarrow> runtime_state \<Rightarrow> resource_key list" where
  "remote_keys scopes st =
     bset (map cm_resource (filter (\<lambda>c. scoped scopes (scope_id (cm_resource c))) (map snd (commits st))))"

definition delta_of :: "commit \<Rightarrow> bytes option" where
  "delta_of c = (case cm_change c of TextDelta d \<Rightarrow> Some d | _ \<Rightarrow> None)"

definition text_doc :: "'d yrs \<Rightarrow> nat \<Rightarrow> resource_key \<Rightarrow> runtime_state \<Rightarrow> sync_error + 'd" where
  "text_doc Y seed key st =
     (let deltas = List.map_filter (\<lambda>c. map_option (Pair (cm_id c)) (delta_of c)) (resource_commits key st)
      in from_baseline_and_deltas Y seed None (map snd (sort_key fst deltas)))"

definition text_doc_at ::
  "'d yrs \<Rightarrow> nat \<Rightarrow> resource_key \<Rightarrow> string \<Rightarrow> runtime_state \<Rightarrow> sync_error + 'd" where
  "text_doc_at Y seed key head st =
     (let ids = bset (reachable key (commits st) [head] []);
          deltas = List.map_filter (\<lambda>i. Option.bind (map_of (commits st) i)
                     (\<lambda>c. map_option (Pair i) (delta_of c))) ids
      in from_baseline_and_deltas Y seed None (map snd (sort_key fst deltas)))"

definition is_delete :: "resource_change \<Rightarrow> bool" where
  "is_delete ch \<longleftrightarrow> ch = Delete"

definition is_text :: "resource_change \<Rightarrow> bool" where
  "is_text ch \<longleftrightarrow> (case ch of TextDelta _ \<Rightarrow> True | _ \<Rightarrow> False)"

definition snapshot_of :: "resource_change \<Rightarrow> (string \<times> u64) option" where
  "snapshot_of ch = (case ch of BinarySnapshot c n _ \<Rightarrow> Some (c, n) | _ \<Rightarrow> None)"

definition head_changes :: "runtime_state \<Rightarrow> string list \<Rightarrow> resource_change list" where
  "head_changes st hs = List.map_filter (\<lambda>i. map_option cm_change (map_of (commits st) i)) hs"

definition remote_state ::
  "crypto \<Rightarrow> 'd yrs \<Rightarrow> nat \<Rightarrow> resource_key \<Rightarrow> runtime_state \<Rightarrow> sync_error + remote_state" where
  "remote_state cr Y seed key st =
     (let hs = heads key st
      in if hs = [] then Inr RemoteMissing
         else let changes = head_changes st hs
         in if list_all is_delete changes then Inr (RemoteDeleted hs)
         else if list_all is_text changes then
           bind_result (text_doc Y seed key st) (\<lambda>doc.
             let text = as_bytes (text_content Y doc)
             in Inr (remote_present (blake3_hex cr text) (word_of_nat (length text)) hs))
         else let snapshots = List.map_filter snapshot_of changes
         in if length snapshots = length changes \<and> list_all (\<lambda>v. v = snapshots ! 0) snapshots
            then Inr (remote_present (fst (snapshots ! 0)) (snd (snapshots ! 0)) hs)
            else Inr (RemoteForked hs))"

definition remote_pairs ::
  "crypto \<Rightarrow> 'd yrs \<Rightarrow> nat \<Rightarrow> string list \<Rightarrow> runtime_state \<Rightarrow>
   sync_error + (resource_key \<times> remote_state) list" where
  "remote_pairs cr Y seed scopes st =
     collect_result (\<lambda>key. bind_result (remote_state cr Y seed key st) (\<lambda>r. Inr (key, r)))
       (remote_keys scopes st)"

section \<open>Ancestry\<close>

definition parent_rel :: "(string \<times> commit) list \<Rightarrow> (string \<times> string) set" where
  "parent_rel cs = {(i, p). p \<in> set (commit_parents cs i)}"

definition walked :: "(string \<times> commit) list \<Rightarrow> string list \<Rightarrow> string list \<Rightarrow> bool" where
  "walked cs pending visited \<longleftrightarrow>
     (\<forall>v \<in> set visited. set (commit_parents cs v) \<subseteq> set visited \<union> set pending)"

lemma walked_closed:
  assumes "walked cs [] visited" and "(v, a) \<in> (parent_rel cs)\<^sup>*" and "v \<in> set visited"
  shows "a \<in> set visited"
  using assms(2,3) assms(1) by (induction rule: converse_rtrancl_induct) (auto simp: walked_def parent_rel_def)

lemma descends_iff:
  assumes "walked cs pending visited" and "anc \<notin> set visited"
  shows "descends cs anc pending visited \<longleftrightarrow>
    (\<exists>p \<in> set pending \<union> set visited. (p, anc) \<in> (parent_rel cs)\<^sup>*)"
  using assms
proof (induction cs anc pending visited rule: descends.induct)
  case (1 cs anc visited)
  then show ?case using walked_closed by fastforce
next
  case (2 cs anc i pending visited)
  show ?case
  proof (cases "i = anc")
    case True
    then show ?thesis by auto
  next
    case ne: False
    show ?thesis
    proof (cases "i \<in> set visited")
      case True
      with 2(3) have "walked cs pending visited" by (auto simp: walked_def)
      from 2(1) [OF ne True this 2(4)] ne True show ?thesis by auto
    next
      case False
      have inv: "walked cs (rev (commit_parents cs i) @ pending) (i # visited)"
        using 2(3) by (auto simp: walked_def)
      have "anc \<notin> set (i # visited)" using ne 2(4) by auto
      from 2(2) [OF ne False inv this]
      have "descends cs anc (i # pending) visited \<longleftrightarrow>
          (\<exists>p \<in> set (commit_parents cs i) \<union> set pending \<union> insert i (set visited).
             (p, anc) \<in> (parent_rel cs)\<^sup>*)"
        using ne False by simp
      moreover have "(p, anc) \<in> (parent_rel cs)\<^sup>* \<Longrightarrow> (i, anc) \<in> (parent_rel cs)\<^sup>*"
        if "p \<in> set (commit_parents cs i)" for p
        using that by (auto simp: parent_rel_def intro: converse_rtrancl_into_rtrancl)
      ultimately show ?thesis by auto
    qed
  qed
qed

lemma is_descendant_iff: "is_descendant c a st \<longleftrightarrow> (c, a) \<in> (parent_rel (commits st))\<^sup>*"
  unfolding is_descendant_def by (subst descends_iff) (auto simp: walked_def)

definition keyed_rel :: "resource_key \<Rightarrow> (string \<times> commit) list \<Rightarrow> (string \<times> string) set" where
  "keyed_rel key cs = {(i, p). p \<in> set (keyed_parents key cs i)}"

lemma set_reachable:
  assumes "\<forall>v \<in> set visited. set (keyed_parents key cs v) \<subseteq> set visited \<union> set pending"
  shows "set (reachable key cs pending visited)
    = {x. \<exists>p \<in> set pending \<union> set visited. (p, x) \<in> (keyed_rel key cs)\<^sup>*}"
  using assms
proof (induction key cs pending visited rule: reachable.induct)
  case (1 key cs visited)
  have "x \<in> set visited" if "(p, x) \<in> (keyed_rel key cs)\<^sup>*" "p \<in> set visited" for p x
    using that 1 by (induction rule: converse_rtrancl_induct) (auto simp: keyed_rel_def)
  then show ?case by auto
next
  case (2 key cs i pending visited)
  show ?case
  proof (cases "i \<in> set visited")
    case True
    from 2(1) [OF True] 2(3) True show ?thesis by auto
  next
    case False
    from 2(3) have "\<forall>v \<in> set (i # visited). set (keyed_parents key cs v)
        \<subseteq> set (i # visited) \<union> set (rev (keyed_parents key cs i) @ pending)" by auto
    from 2(2) [OF False this] False
    have "set (reachable key cs (i # pending) visited)
        = {x. \<exists>p \<in> set (keyed_parents key cs i) \<union> set pending \<union> insert i (set visited).
             (p, x) \<in> (keyed_rel key cs)\<^sup>*}" by auto
    moreover have "(p, x) \<in> (keyed_rel key cs)\<^sup>* \<Longrightarrow> (i, x) \<in> (keyed_rel key cs)\<^sup>*"
      if "p \<in> set (keyed_parents key cs i)" for p x
      using that by (auto simp: keyed_rel_def intro: converse_rtrancl_into_rtrancl)
    ultimately show ?thesis by auto
  qed
qed

section \<open>Heads\<close>

text \<open>The stored maps are ordered and every commit is filed under its own id.\<close>

definition commits_ok :: "runtime_state \<Rightarrow> bool" where
  "commits_ok st \<longleftrightarrow> bt_ok (commits st) \<and> (\<forall>(i, c) \<in> set (commits st). cm_id c = i)"

definition insert_commit :: "commit \<Rightarrow> runtime_state \<Rightarrow> runtime_state" where
  "insert_commit c st = st\<lparr>commits := bt_insert (cm_id c) c (commits st)\<rparr>"

lemma commits_ok_insert: "commits_ok st \<Longrightarrow> commits_ok (insert_commit c st)"
  by (auto simp: commits_ok_def insert_commit_def set_bt_insert)

lemma set_resource_commits:
  "commits_ok st \<Longrightarrow> c \<in> set (resource_commits key st)
     \<longleftrightarrow> (cm_id c, c) \<in> set (commits st) \<and> cm_resource c = key"
  unfolding resource_commits_def commits_ok_def by force

lemma set_heads:
  "set (heads key st) = cm_id ` set (resource_commits key st)
     - (\<Union>c \<in> set (resource_commits key st). set (cm_parents c))"
  by (auto simp: heads_def Let_def)

lemma heads_sorted: "sorted_wrt (<) (heads key st)"
  unfolding heads_def Let_def by (intro sorted_wrt_filter strict_sorted_bset)

lemma heads_eqI: "sorted_wrt (<) hs \<Longrightarrow> set (heads key st) = set hs \<Longrightarrow> heads key st = hs"
  by (metis heads_sorted strict_sorted_equal)

definition fresh_commit :: "commit \<Rightarrow> runtime_state \<Rightarrow> bool" where
  "fresh_commit c st \<longleftrightarrow>
     map_of (commits st) (cm_id c) = None \<and> cm_id c \<notin> set (cm_parents c)
     \<and> (\<forall>(i, d) \<in> set (commits st). cm_id c \<notin> set (cm_parents d))"

lemma resource_commits_insert:
  assumes "commits_ok st" and "fresh_commit c st"
  shows "set (resource_commits key (insert_commit c st))
    = (if cm_resource c = key then insert c (set (resource_commits key st))
       else set (resource_commits key st))"
proof -
  have "{p \<in> set (commits st). fst p \<noteq> cm_id c} = set (commits st)"
    using assms(2) by (force simp: fresh_commit_def map_of_eq_None_iff)
  then have "set (map snd (commits (insert_commit c st))) = insert c (snd ` set (commits st))"
    using assms(1) by (simp add: insert_commit_def commits_ok_def set_bt_insert)
  then show ?thesis by (auto simp: resource_commits_def)
qed

lemma set_heads_insert:
  assumes "commits_ok st" and "fresh_commit c st"
  shows "set (heads key (insert_commit c st))
    = (if cm_resource c = key then insert (cm_id c) (set (heads key st) - set (cm_parents c))
       else set (heads key st))"
proof -
  have "d \<in> set (resource_commits key st) \<Longrightarrow> cm_id c \<notin> set (cm_parents d)" for d
    using assms by (auto simp: fresh_commit_def resource_commits_def)
  moreover have "cm_id c \<notin> set (cm_parents c)" using assms(2) by (simp add: fresh_commit_def)
  ultimately show ?thesis
    by (auto simp: set_heads resource_commits_insert [OF assms])
qed

lemma heads_insert_other:
  assumes "commits_ok st" and "fresh_commit c st" and "cm_resource c \<noteq> key"
  shows "heads key (insert_commit c st) = heads key st"
  using assms by (intro heads_eqI heads_sorted) (simp add: set_heads_insert)

section \<open>The materialized state\<close>

lemma map_filter_all:
  "length (List.map_filter f xs) = length xs \<longleftrightarrow> (\<forall>x \<in> set xs. f x \<noteq> None)"
proof (induction xs)
  case (Cons x xs)
  have "length (List.map_filter f xs) \<le> length xs" by (simp add: List.map_filter_def)
  with Cons show ?case by (cases "f x") (auto simp: List.map_filter_simps)
qed (simp add: List.map_filter_simps)

lemma set_map_filter: "set (List.map_filter f xs) = {y. \<exists>x \<in> set xs. f x = Some y}"
  by (auto simp: List.map_filter_def image_iff) (metis option.sel)

lemma head_changes_mem:
  "ch \<in> set (head_changes st hs) \<longleftrightarrow> (\<exists>i \<in> set hs. \<exists>c. map_of (commits st) i = Some c \<and> cm_change c = ch)"
  by (auto simp: head_changes_def set_map_filter)

lemma bset_heads [simp]: "bset (heads key st) = heads key st"
  by (rule bset_sorted_id [OF heads_sorted])

definition agree :: "runtime_state \<Rightarrow> string list \<Rightarrow> (resource_change \<Rightarrow> bool) \<Rightarrow> bool" where
  "agree st hs P \<longleftrightarrow> (\<forall>i \<in> set hs. \<forall>c. map_of (commits st) i = Some c \<longrightarrow> P (cm_change c))"

lemma agree_iff: "agree st hs P \<longleftrightarrow> list_all P (head_changes st hs)"
  unfolding agree_def list_all_iff Ball_def head_changes_mem by blast

lemma same_snapshots:
  assumes "length (List.map_filter snapshot_of chs) = length chs"
    and "list_all (\<lambda>v. v = List.map_filter snapshot_of chs ! 0) (List.map_filter snapshot_of chs)"
  shows "list_all (\<lambda>ch. snapshot_of ch = Some (List.map_filter snapshot_of chs ! 0)) chs"
  using assms by (fastforce simp: map_filter_all list_all_iff set_map_filter)

lemma common_snapshot:
  assumes "list_all (\<lambda>ch. snapshot_of ch = Some v) chs"
  shows "length (List.map_filter snapshot_of chs) = length chs
    \<and> list_all (\<lambda>v. v = List.map_filter snapshot_of chs ! 0) (List.map_filter snapshot_of chs)"
proof -
  have "List.map_filter snapshot_of chs = replicate (length chs) v"
    using assms by (induction chs) (auto simp: List.map_filter_simps)
  then show ?thesis by (cases chs) (simp_all add: list_all_iff)
qed

section \<open>Properties\<close>

text \<open>C24. \<^verbatim>\<open>is_descendant\<close> terminates on every commit graph, cyclic or with missing commits included,
  and decides the reflexive ancestry relation.\<close>

theorem is_descendant_decides_ancestry:
  "is_descendant candidate ancestor st \<longleftrightarrow> (candidate, ancestor) \<in> (parent_rel (commits st))\<^sup>*"
  by (rule is_descendant_iff)

text \<open>C22. Publishing a commit whose parents are the current heads leaves exactly it as the head, whatever
  fork there was, and changes no other resource.\<close>

theorem publishing_on_heads_resolves_forks:
  assumes "commits_ok st" and "fresh_commit c st" and "set (heads (cm_resource c) st) \<subseteq> set (cm_parents c)"
  shows "heads (cm_resource c) (insert_commit c st) = [cm_id c]
    \<and> (\<forall>key. key \<noteq> cm_resource c \<longrightarrow> heads key (insert_commit c st) = heads key st)"
proof
  have "set (heads (cm_resource c) (insert_commit c st)) = set [cm_id c]"
    using assms(3) by (auto simp: set_heads_insert [OF assms(1,2)])
  then show "heads (cm_resource c) (insert_commit c st) = [cm_id c]" by (intro heads_eqI) simp_all
qed (simp add: heads_insert_other [OF assms(1,2)])

definition demo_key :: resource_key where
  "demo_key = \<lparr>scope_id = ''s'', resource_id = ''r''\<rparr>"

definition demo_delete :: "string \<Rightarrow> string list \<Rightarrow> commit" where
  "demo_delete i ps = \<lparr>cm_id = i, cm_resource = demo_key, cm_parents = ps, cm_author = ''a'',
     cm_counter = 1, cm_timestamp = 5, cm_change = Delete\<rparr>"

definition demo_fork :: runtime_state where
  "demo_fork = default_state\<lparr>commits := [(''x'', demo_delete ''x'' []), (''y'', demo_delete ''y'' [])]\<rparr>"

lemma demo_fork_ok: "commits_ok demo_fork"
  by (simp add: commits_ok_def demo_fork_def demo_delete_def bt_ok_def)

theorem publishing_on_heads_resolves_forks_witness:
  "heads demo_key (insert_commit (demo_delete ''z'' [''x'', ''y'']) demo_fork) = [''z'']"
proof -
  have "fresh_commit (demo_delete ''z'' [''x'', ''y'']) demo_fork"
    by (simp add: fresh_commit_def demo_fork_def demo_delete_def)
  moreover have "set (heads demo_key demo_fork) \<subseteq> {''x'', ''y''}"
    by (auto simp: set_heads resource_commits_def demo_fork_def demo_delete_def)
  ultimately show ?thesis
    using publishing_on_heads_resolves_forks [OF demo_fork_ok, of "demo_delete ''z'' [''x'', ''y'']"]
    by (simp add: demo_delete_def)
qed

text \<open>C23. The materialized remote state is sound: it names exactly the heads; it is missing exactly when
  there is none, deleted only when every head deletes, and present without merging text only when all
  heads are snapshots of that one content; heads that disagree make a fork.\<close>

theorem remote_state_sound:
  assumes "remote_state cr Y seed key st = Inr r"
  shows "remote_heads_of r = heads key st
    \<and> (case r of
         RemoteMissing \<Rightarrow> heads key st = []
       | RemoteDeleted hs \<Rightarrow> hs \<noteq> [] \<and> agree st hs is_delete
       | RemotePresent content n hs \<Rightarrow>
           hs \<noteq> [] \<and> (agree st hs is_text \<or> agree st hs (\<lambda>ch. snapshot_of ch = Some (content, n)))
       | RemoteForked hs \<Rightarrow>
           \<not> agree st hs is_delete \<and> \<not> agree st hs is_text
           \<and> (\<forall>v. \<not> agree st hs (\<lambda>ch. snapshot_of ch = Some v)))"
proof (cases "heads key st = []")
  case True
  with assms show ?thesis by (auto simp: remote_state_def remote_heads_of_def)
next
  case ne: False
  let ?hs = "heads key st"
  let ?chs = "head_changes st ?hs"
  let ?snaps = "List.map_filter snapshot_of ?chs"
  consider (del) "agree st ?hs is_delete" | (texts) "\<not> agree st ?hs is_delete" "agree st ?hs is_text"
    | (snap) "\<not> agree st ?hs is_delete" "\<not> agree st ?hs is_text"
        "length ?snaps = length ?chs" "list_all (\<lambda>v. v = ?snaps ! 0) ?snaps"
    | (fork) "\<not> agree st ?hs is_delete" "\<not> agree st ?hs is_text"
        "\<not> (length ?snaps = length ?chs \<and> list_all (\<lambda>v. v = ?snaps ! 0) ?snaps)"
    by blast
  then show ?thesis
  proof cases
    case del
    with ne assms have "r = RemoteDeleted ?hs" by (simp add: remote_state_def Let_def agree_iff)
    with del ne show ?thesis by (simp add: remote_heads_of_def)
  next
    case texts
    with ne assms obtain content n where "r = remote_present content n ?hs"
      by (auto simp: remote_state_def Let_def agree_iff)
    with texts ne show ?thesis by (simp add: remote_present_def remote_heads_of_def)
  next
    case snap
    then have "r = remote_present (fst (?snaps ! 0)) (snd (?snaps ! 0)) ?hs"
      using ne assms by (auto simp: remote_state_def Let_def agree_iff)
    moreover have "agree st ?hs (\<lambda>ch. snapshot_of ch = Some (?snaps ! 0))"
      unfolding agree_iff by (rule same_snapshots [OF snap(3,4)])
    ultimately show ?thesis using ne by (simp add: remote_present_def remote_heads_of_def)
  next
    case fork
    then have r: "r = RemoteForked ?hs"
      using ne assms by (auto simp: remote_state_def Let_def agree_iff)
    have "\<not> agree st ?hs (\<lambda>ch. snapshot_of ch = Some v)" for v
      using fork(3) common_snapshot [of v ?chs] by (auto simp: agree_iff)
    with r fork show ?thesis by (simp add: remote_heads_of_def)
  qed
qed

theorem remote_state_sound_witness:
  "agree demo_fork (heads demo_key demo_fork) is_delete"
proof -
  have "heads demo_key demo_fork = [''x'', ''y'']"
    by (rule heads_eqI) (auto simp: set_heads resource_commits_def demo_fork_def demo_delete_def)
  then have "remote_state demo_crypto demo_yrs 0 demo_key demo_fork = Inr (RemoteDeleted [''x'', ''y''])"
    by (simp add: remote_state_def Let_def agree_iff [symmetric] agree_def is_delete_def)
      (simp add: demo_fork_def demo_delete_def)
  from remote_state_sound [OF this] \<open>heads demo_key demo_fork = _\<close> show ?thesis
    by (simp add: remote_heads_of_def)
qed

end
