(* ===== verification/Runtime_Store.thy ===== *)
theory Runtime_Store
  imports Types
begin

text \<open>
  \<^verbatim>\<open>RedbRuntimeStore\<close> of \<^verbatim>\<open>src/src/v2_store.rs\<close>: one table with one key, behind a handle that
  \<^verbatim>\<open>close\<close> drops for good. A committed transaction is what the next load reads; I/O errors of the
  database are not modelled. The contract the runtime relies on is the locale \<open>runtime_store\<close>.
\<close>

record redb_store =
  db_handle :: "((string \<times> bytes) list) option"

definition STATE_KEY :: string where
  "STATE_KEY = ''current''"

definition with_db ::
  "((string \<times> bytes) list \<Rightarrow> (sync_error + 'a) \<times> (string \<times> bytes) list) \<Rightarrow>
   (redb_store, sync_error, 'a) rm" where
  "with_db action = (\<lambda>s. case db_handle s of
       None \<Rightarrow> (Inl (IoError ''runtime store is closed''), s)
     | Some db \<Rightarrow> (case action db of (r, db') \<Rightarrow> (r, s\<lparr>db_handle := Some db'\<rparr>)))"

text \<open>\<^verbatim>\<open>open\<close>: the table is created when the file is new, and kept when it exists.\<close>

definition redb_open :: "((string \<times> bytes) list) option \<Rightarrow> redb_store" where
  "redb_open file = \<lparr>db_handle = Some (unwrap_or [] file)\<rparr>"

definition redb_load :: "(redb_store, sync_error, bytes option) rm" where
  "redb_load = with_db (\<lambda>db. (Inr (map_of db STATE_KEY), db))"

definition redb_save :: "bytes \<Rightarrow> (redb_store, sync_error, unit) rm" where
  "redb_save state = with_db (\<lambda>db. (Inr (), bt_insert STATE_KEY state db))"

definition redb_close :: "(redb_store, sync_error, unit) rm" where
  "redb_close = (\<lambda>s. (Inr (), s\<lparr>db_handle := None\<rparr>))"

section \<open>The contract\<close>

locale runtime_store =
  fixes load :: "('k, sync_error, bytes option) rm"
    and save :: "bytes \<Rightarrow> ('k, sync_error, unit) rm"
    and is_open :: "'k \<Rightarrow> bool"
  assumes save_law: "is_open k \<Longrightarrow> \<exists>k'. save b k = (Inr (), k') \<and> is_open k'
      \<and> load k' = (Inr (Some b), k')"
    and load_law: "is_open k \<Longrightarrow> \<exists>r. load k = (Inr r, k)"
    and closed_law: "\<not> is_open k \<Longrightarrow> \<exists>e. save b k = (Inl e, k) \<and> load k = (Inl e, k)"
begin

lemma save_then_load:
  assumes "is_open k"
  shows "fst (seq (save b) load k) = Inr (Some b)"
  using save_law [OF assms, of b] by (auto simp: seq_def bind_def)

lemma last_save_wins:
  assumes "is_open k"
  shows "fst (seq (for_each (xs @ [b]) save) load k) = Inr (Some b)"
  using assms
proof (induction xs arbitrary: k)
  case Nil
  from save_law [OF Nil, of b] show ?case by (auto simp: seq_def bind_def)
next
  case (Cons x xs)
  from save_law [OF Cons.prems, of x] obtain k' where k': "save x k = (Inr (), k')" "is_open k'"
    by blast
  have "seq (for_each ((x # xs) @ [b]) save) load k = seq (for_each (xs @ [b]) save) load k'"
    by (simp add: seq_def bind_def k'(1))
  with Cons.IH [OF k'(2)] show ?case by simp
qed

lemma save_Inr_open: "save b k = (Inr u, k') \<Longrightarrow> is_open k \<and> is_open k' \<and> load k' = (Inr (Some b), k')"
  using save_law [of k b] closed_law [of k b] by (cases "is_open k") auto

end

interpretation redb: runtime_store redb_load redb_save "\<lambda>s. db_handle s \<noteq> None"
  by unfold_locales (auto simp: redb_load_def redb_save_def with_db_def)

section \<open>Properties\<close>

text \<open>The store is durable and atomic: after any sequence of saves on an open store, a load returns
  exactly the last one.\<close>

theorem redb_last_save_wins:
  assumes "db_handle k \<noteq> None"
  shows "fst (seq (for_each (xs @ [b]) redb_save) redb_load k) = Inr (Some b)"
  by (rule redb.last_save_wins [OF assms])

theorem redb_last_save_wins_witness:
  "fst (seq (for_each [[1], [2, 3]] redb_save) redb_load (redb_open None)) = Inr (Some [2, 3])"
  using redb_last_save_wins [of "redb_open None" "[[1]]" "[2, 3]"] by (simp add: redb_open_def)

text \<open>Closing is final: after \<^verbatim>\<open>close\<close> every load and save fails with the same error and changes
  nothing, and closing again succeeds.\<close>

lemma redb_closed_stays_closed:
  "let s = snd (redb_close k); e = IoError ''runtime store is closed''
   in redb_load s = (Inl e, s) \<and> redb_save b s = (Inl e, s) \<and> redb_close s = (Inr (), s)"
  by (simp add: redb_close_def redb_load_def redb_save_def with_db_def Let_def)

end
