(* ===== verification/Runtime.thy ===== *)
theory Runtime
  imports Runtime_State Runtime_Store Chunk_Store Cursors Planner
begin

text \<open>
  \<^verbatim>\<open>SyncRuntime\<close> of \<^verbatim>\<open>src/src/runtime.rs\<close>, up to and including the publication of commits. The
  foreign traits are records of operations on states of their own: \<open>local_port\<close> (\<^verbatim>\<open>LocalReplica\<close>),
  \<open>remote_port\<close> (\<^verbatim>\<open>RemoteStorageV2\<close>), \<open>store_port\<close> (\<^verbatim>\<open>RuntimeStore\<close>), \<open>merge_policy\<close>
  (\<^verbatim>\<open>TextMergePolicy\<close>). \<open>world\<close> is everything a method can read or change: the state behind the mutex,
  the states of the three backends, the number of clock and seed readings so far, the events the
  listener has received, and the locals of a running \<^verbatim>\<open>execute\<close>. A method returns early with the
  changes it made so far, as \<^verbatim>\<open>?\<close> does.
\<close>

section \<open>Ports, environment and world\<close>

record 'l local_port =
  l_list :: "string list \<Rightarrow> ('l, sync_error, local_resource list) rm"
  l_read :: "resource_key list \<Rightarrow> ('l, sync_error, resource_content list) rm"
  l_apply :: "local_mutation list \<Rightarrow> ('l, sync_error, local_apply_result list) rm"

record 'r remote_port =
  r_scan :: "string list \<Rightarrow> catalog_cursor list \<Rightarrow> ('r, sync_error, catalog_delta) rm"
  r_load :: "string list \<Rightarrow> ('r, sync_error, commit list) rm"
  r_commit :: "commit_batch \<Rightarrow> ('r, sync_error, string list) rm"
  r_lookup :: "string list \<Rightarrow> ('r, sync_error, chunk_location list) rm"
  r_read :: "chunk_location list \<Rightarrow> ('r, sync_error, range_data list) rm"
  r_write_acks :: "resource_ack list \<Rightarrow> ('r, sync_error, unit) rm"
  r_list_acks :: "resource_key list \<Rightarrow> ('r, sync_error, resource_ack list) rm"
  r_list_packs :: "('r, sync_error, string list) rm"
  r_delete_packs :: "string list \<Rightarrow> ('r, sync_error, unit) rm"
  r_compact :: "catalog_compaction \<Rightarrow> ('r, sync_error, unit) rm"

record 'k store_port =
  k_load :: "('k, sync_error, bytes option) rm"
  k_save :: "bytes \<Rightarrow> ('k, sync_error, unit) rm"
  k_close :: "('k, sync_error, unit) rm"

record merge_policy =
  mp_priority :: "resource_key \<Rightarrow> int"
  mp_merge :: "resource_key \<Rightarrow> bytes \<Rightarrow> bytes \<Rightarrow> bytes \<Rightarrow> sync_error + text_merge_result"

record ('l, 'r, 'k, 'd) env =
  client :: string
  crypt :: crypto
  yrs_of :: "'d yrs"
  cdc_of :: "bytes \<Rightarrow> (nat \<times> nat) list"
  clock :: "nat \<Rightarrow> int"
  seeds :: "nat \<Rightarrow> nat"
  policy :: "merge_policy option"
  enc_state :: "runtime_state \<Rightarrow> bytes"
  dec_state :: "bytes \<Rightarrow> string + runtime_state"
  enc_pack_index :: "pack_index \<Rightarrow> bytes"
  utf8_message :: "bytes \<Rightarrow> string"
  loc_of :: "'l local_port"
  rem_of :: "'r remote_port"
  sto_of :: "'k store_port"

record ('l, 'r, 'k) world =
  rt :: runtime_state
  lw :: 'l
  rw :: 'r
  kw :: 'k
  tick :: nat
  out :: "engine_event list"
  report :: sync_report
  failed :: "string \<Rightarrow> nat"
  run_events :: "engine_event list"

type_synonym ('l, 'r, 'k, 'a) op = "(('l, 'r, 'k) world, sync_error, 'a) rm"

definition on_local :: "('l, sync_error, 'a) rm \<Rightarrow> ('l, 'r, 'k, 'a) op" where
  "on_local = zoom lw (\<lambda>s w. w\<lparr>lw := s\<rparr>)"

definition on_remote :: "('r, sync_error, 'a) rm \<Rightarrow> ('l, 'r, 'k, 'a) op" where
  "on_remote = zoom rw (\<lambda>s w. w\<lparr>rw := s\<rparr>)"

definition on_store :: "('k, sync_error, 'a) rm \<Rightarrow> ('l, 'r, 'k, 'a) op" where
  "on_store = zoom kw (\<lambda>s w. w\<lparr>kw := s\<rparr>)"

definition modify_rt :: "(runtime_state \<Rightarrow> runtime_state) \<Rightarrow> ('l, 'r, 'k, unit) op" where
  "modify_rt f = modify (\<lambda>w. w\<lparr>rt := f (rt w)\<rparr>)"

definition get_rt :: "('l, 'r, 'k, runtime_state) op" where
  "get_rt = gets rt"

definition now :: "('l, 'r, 'k, 'd) env \<Rightarrow> ('l, 'r, 'k, int) op" where
  "now E = bind (gets (\<lambda>w. now_millis (clock E (tick w)))) (\<lambda>t.
     seq (modify (\<lambda>w. w\<lparr>tick := Suc (tick w)\<rparr>)) (ret t))"

definition new_seed :: "('l, 'r, 'k, 'd) env \<Rightarrow> ('l, 'r, 'k, nat) op" where
  "new_seed E = bind (gets (\<lambda>w. seeds E (tick w))) (\<lambda>t.
     seq (modify (\<lambda>w. w\<lparr>tick := Suc (tick w)\<rparr>)) (ret t))"

definition emit :: "engine_event list \<Rightarrow> ('l, 'r, 'k, unit) op" where
  "emit events = (if events = [] then ret () else modify (\<lambda>w. w\<lparr>out := out w @ events\<rparr>))"

definition emit_progress :: "engine_event \<Rightarrow> ('l, 'r, 'k, unit) op" where
  "emit_progress event =
     seq (emit [event]) (modify (\<lambda>w. w\<lparr>run_events := run_events w @ [event]\<rparr>))"

definition io_error :: "string \<Rightarrow> ('l, 'r, 'k, 'a) op" where
  "io_error msg = throw (IoError msg)"

section \<open>Loading and saving\<close>

definition state_load :: "('l, 'r, 'k, 'd) env \<Rightarrow> ('k, sync_error, runtime_state) rm" where
  "state_load E = bind (k_load (sto_of E)) (\<lambda>loaded. case loaded of
       None \<Rightarrow> ret default_state
     | Some bs \<Rightarrow> lift_result (case dec_state E bs of
           Inl msg \<Rightarrow> Inl (SerdeError msg) | Inr st \<Rightarrow> Inr st))"

definition save_state :: "('l, 'r, 'k, 'd) env \<Rightarrow> ('l, 'r, 'k, unit) op" where
  "save_state E = bind get_rt (\<lambda>st. on_store (k_save (sto_of E) (enc_state E st)))"

definition with_backends ::
  "('l, 'r, 'k, 'd) env \<Rightarrow> 'l \<Rightarrow> 'r \<Rightarrow> 'k \<Rightarrow> sync_error + ('l, 'r, 'k) world" where
  "with_backends E l r k =
     (case state_load E k of
        (Inl e, _) \<Rightarrow> Inl e
      | (Inr st, k') \<Rightarrow> Inr \<lparr>rt = st, lw = l, rw = r, kw = k', tick = 0, out = [],
          report = empty_report [], failed = (\<lambda>_. 0), run_events = []\<rparr>)"

section \<open>Refreshing the remote view\<close>

definition bump_count :: "string \<Rightarrow> (string \<times> nat) list \<Rightarrow> (string \<times> nat) list" where
  "bump_count s m = bt_insert s (unwrap_or 0 (map_of m s) + 1) m"

definition count_event :: "cursor_map \<Rightarrow> runtime_state \<Rightarrow> catalog_event \<Rightarrow> runtime_state" where
  "count_event coverage st e =
     (if ev_counter e \<le> cursor_get coverage (event_key e) then st
      else st\<lparr>events_since_snapshot := bump_count (scope_id (ev_resource e)) (events_since_snapshot st)\<rparr>)"

definition advance_cursors :: "catalog_cursor list \<Rightarrow> runtime_state \<Rightarrow> runtime_state" where
  "advance_cursors new st =
     st\<lparr>cursors := cursors_of (bumps (map (\<lambda>c. (cursor_key c, cu_counter c)) new) (covered_by (cursors st)))\<rparr>"

definition missing_commits :: "runtime_state \<Rightarrow> catalog_event list \<Rightarrow> string list" where
  "missing_commits st events =
     map ev_commit (filter (\<lambda>e. map_of (commits st) (ev_commit e) = None) events)"

definition refresh_remote :: "('l, 'r, 'k, 'd) env \<Rightarrow> string list \<Rightarrow> ('l, 'r, 'k, unit) op" where
  "refresh_remote E scopes =
     bind get_rt (\<lambda>st.
     bind (on_remote (r_scan (rem_of E) scopes (cursors st))) (\<lambda>delta.
     seq (modify_rt (\<lambda>st. foldl (count_event (covered_by (cd_snapshot_cursors delta))) st (cd_events delta)))
    (bind get_rt (\<lambda>st.
     bind (on_remote (r_load (rem_of E) (missing_commits st (cd_events delta)))) (\<lambda>loaded.
     seq (modify_rt (\<lambda>st. foldl (\<lambda>st c. insert_commit c st) st loaded))
         (modify_rt (advance_cursors (cd_cursors delta))))))))"

section \<open>Snapshots of large catalogs\<close>

definition snapshot_generation :: "('l, 'r, 'k, 'd) env \<Rightarrow> ('l, 'r, 'k, u64) op" where
  "snapshot_generation E = bind (now E) (\<lambda>t.
     let millis = word_of_int (max t 0) :: u64;
         suffix = (case blake3_digest (crypt E) (str_bytes (client E)) of
             a # b # _ \<Rightarrow> word_of_nat (256 * unat a + unat b) | _ \<Rightarrow> 0) :: u64
     in ret (or (push_bit 16 millis) suffix))"

definition scope_snapshot ::
  "string \<Rightarrow> u64 \<Rightarrow> commit list \<Rightarrow> catalog_cursor list \<Rightarrow> string list \<Rightarrow> catalog_compaction" where
  "scope_snapshot scope generation kept curs obsolete =
     \<lparr>cc_snapshot = \<lparr>sn_generation = generation, sn_scope = scope, sn_events = map commit_event kept,
        sn_cursors = filter (\<lambda>c. cu_scope c = scope) curs\<rparr>,
      cc_obsolete = obsolete\<rparr>"

definition snapshot_large_catalogs :: "('l, 'r, 'k, 'd) env \<Rightarrow> ('l, 'r, 'k, unit) op" where
  "snapshot_large_catalogs E =
     bind get_rt (\<lambda>st.
     let due = map fst (filter (\<lambda>(_, n). n \<ge> 10000) (events_since_snapshot st))
     in for_each due (\<lambda>scope.
        bind (snapshot_generation E) (\<lambda>generation.
        bind get_rt (\<lambda>st.
        let kept = filter (\<lambda>c. scope_id (cm_resource c) = scope) (map snd (commits st))
        in seq (on_remote (r_compact (rem_of E) (scope_snapshot scope generation kept (cursors st) [])))
               (modify_rt (\<lambda>st. st\<lparr>events_since_snapshot := bt_insert scope 0 (events_since_snapshot st)\<rparr>))))))"

section \<open>The local inventory\<close>

definition cached_content :: "runtime_state \<Rightarrow> resource_key \<Rightarrow> string \<Rightarrow> string option" where
  "cached_content st key token =
     Option.bind (map_of (baselines st) (encoded key)) (\<lambda>b. case sb_state b of
         BaselinePresent content version _ \<Rightarrow> if version = token then Some content else None
       | BaselineDeleted _ \<Rightarrow> None)"

definition cache_step :: "runtime_state \<Rightarrow> local_resource \<Rightarrow> local_resource \<times> resource_key list" where
  "cache_step st r =
     (case lr_state r of
        LocalPresent content n token \<Rightarrow>
          if content = [] then
            (case cached_content st (lr_key r) token of
               Some c \<Rightarrow> (r\<lparr>lr_state := LocalPresent c n token\<rparr>, [])
             | None \<Rightarrow> (r, [lr_key r]))
          else (r, [])
      | _ \<Rightarrow> (r, []))"

definition read_step ::
  "crypto \<Rightarrow> (resource_key \<Rightarrow> resource_content option) \<Rightarrow> local_resource \<Rightarrow> sync_error + local_resource" where
  "read_step cr contents r =
     (case lr_state r of
        LocalPresent content n token \<Rightarrow>
          if content = [] then
            bind_result
              (ok_or (IoError (''local replica did not return '' @ encoded (lr_key r))) (contents (lr_key r)))
              (\<lambda>c. Inr (r\<lparr>lr_state := LocalPresent (blake3_hex cr (rc_data c))
                         (word_of_nat (length (rc_data c))) token\<rparr>))
          else Inr r
      | _ \<Rightarrow> Inr r)"

definition by_key :: "resource_content list \<Rightarrow> resource_key \<Rightarrow> resource_content option" where
  "by_key cs = hm_collect (map (\<lambda>c. (rc_key c, c)) cs)"

definition local_inventory ::
  "('l, 'r, 'k, 'd) env \<Rightarrow> string list \<Rightarrow> ('l, 'r, 'k, local_resource list) op" where
  "local_inventory E scopes =
     bind get_rt (\<lambda>st.
     bind (on_local (l_list (loc_of E) scopes)) (\<lambda>listed.
     let stepped = map (cache_step st) listed;
         resources = map fst stepped;
         reads = concat (map snd stepped)
     in if reads = [] then ret resources
        else bind (on_local (l_read (loc_of E) reads)) (\<lambda>contents.
             lift_result (collect_result (read_step (crypt E) (by_key contents)) resources))))"

section \<open>Planning\<close>

definition find_resource :: "local_resource list \<Rightarrow> resource_key \<Rightarrow> local_resource option" where
  "find_resource local key = find (\<lambda>r. lr_key r = key) local"

definition text_conflict_to_upload :: "local_resource list \<Rightarrow> plan_operation \<Rightarrow> plan_operation" where
  "text_conflict_to_upload local op =
     (case op of
        ConflictOp record \<Rightarrow>
          if cf_kind record = ContentVsContent
             \<and> hm_collect (map (\<lambda>r. (lr_key r, lr_kind r)) local) (cf_resource record) = Some Text
          then (case find_resource local (cf_resource record) of
                  Some r \<Rightarrow> Upload (lr_key r) (lr_state r)
                | None \<Rightarrow> op)
          else op
      | _ \<Rightarrow> op)"

definition policy_key :: "merge_policy \<Rightarrow> plan_operation \<Rightarrow> string \<times> int \<times> string" where
  "policy_key p op = (scope_id (op_key op), mp_priority p (op_key op), resource_id (op_key op))"

definition build_plan ::
  "('l, 'r, 'k, 'd) env \<Rightarrow> string list \<Rightarrow> local_resource list \<Rightarrow> ('l, 'r, 'k, plan_operation list) op" where
  "build_plan E scopes local =
     bind get_rt (\<lambda>st.
     bind (new_seed E) (\<lambda>seed.
     bind (lift_result (remote_pairs (crypt E) (yrs_of E) seed scopes st)) (\<lambda>remote.
     bind (gets tick) (\<lambda>t.
     let ops = plan_inventory (crypt E) (\<lambda>i. now_millis (clock E (t + i)))
                 (map (\<lambda>r. (lr_key r, lr_state r)) local) (baseline_pairs scopes st) remote;
         ops' = map (text_conflict_to_upload local) ops
     in seq (modify (\<lambda>w. w\<lparr>tick := t + length ops\<rparr>))
        (ret (case policy E of None \<Rightarrow> ops' | Some p \<Rightarrow> sort_key (policy_key p) ops'))))))"

section \<open>Content of a remote version\<close>

definition content_for_remote ::
  "('l, 'r, 'k, 'd) env \<Rightarrow> resource_key \<Rightarrow> string option \<Rightarrow> ('l, 'r, 'k, bytes) op" where
  "content_for_remote E key selected =
     bind get_rt (\<lambda>st.
     let head = (case selected of Some h \<Rightarrow> Some h
                 | None \<Rightarrow> (case heads key st of [] \<Rightarrow> None | h # _ \<Rightarrow> Some h))
     in case head of
          None \<Rightarrow> io_error (''remote resource '' @ encoded key @ '' has no head'')
        | Some h \<Rightarrow>
            (case map_of (commits st) h of
               None \<Rightarrow> io_error (''missing commit '' @ h)
             | Some c \<Rightarrow>
                 (case cm_change c of
                    Delete \<Rightarrow> io_error (encoded key @ '' is deleted'')
                  | TextDelta _ \<Rightarrow>
                      bind (new_seed E) (\<lambda>seed.
                      bind (lift_result (text_doc_at (yrs_of E) seed key h st)) (\<lambda>doc.
                      ret (as_bytes (text_content (yrs_of E) doc))))
                  | BinarySnapshot _ _ hashes \<Rightarrow>
                      on_remote (fetch_manifest (r_lookup (rem_of E)) (r_read (rem_of E)) hashes))))"

section \<open>Publishing\<close>

definition next_counter :: "('l, 'r, 'k, u64) op" where
  "next_counter =
     seq (modify_rt (\<lambda>st. st\<lparr>counter := counter st + 1\<rparr>)) (gets (\<lambda>w. counter (rt w)))"

definition new_commit ::
  "('l, 'r, 'k, 'd) env \<Rightarrow> resource_key \<Rightarrow> string list \<Rightarrow> u64 \<Rightarrow> resource_change \<Rightarrow> ('l, 'r, 'k, commit) op" where
  "new_commit E key parents n change =
     bind (now E) (\<lambda>t. ret (commit_create (crypt E) t key parents (client E) n change))"

definition parse_utf8 :: "('l, 'r, 'k, 'd) env \<Rightarrow> bytes \<Rightarrow> sync_error + ustr" where
  "parse_utf8 E data = ok_or (SerdeError (utf8_message E data)) (from_utf8 data)"

definition stage_binary ::
  "('l, 'r, 'k, 'd) env \<Rightarrow> bytes \<Rightarrow> ('l, 'r, 'k, resource_change \<times> pack list) op" where
  "stage_binary E data =
     (let chunks = chunk_data (crypt E) (cdc_of E) data
      in bind (on_remote (r_lookup (rem_of E) (map (\<lambda>(c, _). ci_hash c) chunks))) (\<lambda>found.
         let existing = cl_hash ` set found;
             missing = filter (\<lambda>(c, _). ci_hash c \<notin> existing) chunks
         in ret (BinarySnapshot (blake3_hex (crypt E) data) (word_of_nat (length data))
                   (map (\<lambda>(c, _). ci_hash c) chunks),
                 build_packs (crypt E) missing)))"

definition stage_text ::
  "('l, 'r, 'k, 'd) env \<Rightarrow> resource_key \<Rightarrow> bytes \<Rightarrow> ('l, 'r, 'k, resource_change \<times> pack list) op" where
  "stage_text E key data =
     bind get_rt (\<lambda>st.
     bind (new_seed E) (\<lambda>seed.
     bind (lift_result (text_doc (yrs_of E) seed key st)) (\<lambda>doc.
     bind (lift_result (parse_utf8 E data)) (\<lambda>text.
     ret (TextDelta (fst (set_text (yrs_of E) doc text)), [])))))"

definition publish_change ::
  "('l, 'r, 'k, 'd) env \<Rightarrow> resource_key \<Rightarrow> string list \<Rightarrow> u64 \<Rightarrow> resource_change \<times> pack list \<Rightarrow>
   ('l, 'r, 'k, commit) op" where
  "publish_change E key parents n staged =
     (case staged of (change, packs) \<Rightarrow>
        bind (new_commit E key parents n change) (\<lambda>c.
        seq (bind (on_remote (r_commit (rem_of E)
               \<lparr>cb_commits = [c], cb_packs = pack_objects packs,
                cb_indexes = index_objects (enc_pack_index E) packs\<rparr>)) (\<lambda>_. ret ()))
       (seq (modify_rt (insert_commit c)) (ret c))))"

definition publish_bytes ::
  "('l, 'r, 'k, 'd) env \<Rightarrow> resource_key \<Rightarrow> resource_kind \<Rightarrow> bytes \<Rightarrow> string list \<Rightarrow> ('l, 'r, 'k, commit) op" where
  "publish_bytes E key kind data parents =
     bind next_counter (\<lambda>n.
     bind (case kind of Binary \<Rightarrow> stage_binary E data | Text \<Rightarrow> stage_text E key data)
       (publish_change E key parents n))"

definition publish_delete ::
  "('l, 'r, 'k, 'd) env \<Rightarrow> resource_key \<Rightarrow> string list \<Rightarrow> ('l, 'r, 'k, commit) op" where
  "publish_delete E key parents = bind next_counter (\<lambda>n. publish_change E key parents n (Delete, []))"

section \<open>Baselines and reports\<close>

definition precondition :: "replica_state \<Rightarrow> mutation_precondition" where
  "precondition local = (case version_token local of None \<Rightarrow> PreMissing | Some t \<Rightarrow> PreVersion t)"

definition set_present_baseline ::
  "resource_key \<Rightarrow> string \<Rightarrow> string \<Rightarrow> string list \<Rightarrow> string \<Rightarrow> runtime_state \<Rightarrow> runtime_state" where
  "set_present_baseline key content version hs operation st =
     st\<lparr>baselines := bt_insert (encoded key)
       \<lparr>sb_key = key, sb_state = BaselinePresent content version hs, sb_operation = operation\<rparr> (baselines st)\<rparr>"

definition set_deleted_baseline ::
  "resource_key \<Rightarrow> string list \<Rightarrow> string \<Rightarrow> runtime_state \<Rightarrow> runtime_state" where
  "set_deleted_baseline key hs operation st =
     st\<lparr>baselines := bt_insert (encoded key)
       \<lparr>sb_key = key, sb_state = BaselineDeleted hs, sb_operation = operation\<rparr> (baselines st)\<rparr>"

definition scope_status_of :: "nat \<Rightarrow> nat \<Rightarrow> scope_status" where
  "scope_status_of fails confl =
     (if fails > 0 then FailedScope else if confl > 0 then Partial else Complete)"

definition report_scopes ::
  "string list \<Rightarrow> plan_operation list \<Rightarrow> (string \<Rightarrow> nat) \<Rightarrow> scope_report list" where
  "report_scopes scopes plan fails =
     map (\<lambda>s. let confl = length (filter (\<lambda>op. scope_id (op_key op) = s \<and> is_conflict op) plan)
              in \<lparr>sr_scope = s, sr_status = scope_status_of (fails s) confl, sr_conflicts = confl,
                  sr_failures = fails s\<rparr>) scopes"

section \<open>Evaluating the steps\<close>

lemma now_apply: "now E w = (Inr (now_millis (clock E (tick w))), w\<lparr>tick := Suc (tick w)\<rparr>)"
  by (simp add: now_def bind_def seq_def)

lemma new_seed_apply: "new_seed E w = (Inr (seeds E (tick w)), w\<lparr>tick := Suc (tick w)\<rparr>)"
  by (simp add: new_seed_def bind_def seq_def)

lemma get_rt_apply: "get_rt w = (Inr (rt w), w)"
  by (simp add: get_rt_def)

lemma modify_rt_apply: "modify_rt f w = (Inr (), w\<lparr>rt := f (rt w)\<rparr>)"
  by (simp add: modify_rt_def)

lemma next_counter_apply:
  "next_counter w = (Inr (counter (rt w) + 1), w\<lparr>rt := (rt w)\<lparr>counter := counter (rt w) + 1\<rparr>\<rparr>)"
  by (simp add: next_counter_def seq_def bind_def modify_rt_apply)

lemma new_commit_apply:
  "new_commit E key ps n ch w =
     (Inr (commit_create (crypt E) (now_millis (clock E (tick w))) key ps (client E) n ch),
      w\<lparr>tick := Suc (tick w)\<rparr>)"
  by (simp add: new_commit_def bind_def now_apply)

lemma on_remote_apply: "m (rw w) = (r, s) \<Longrightarrow> on_remote m w = (r, w\<lparr>rw := s\<rparr>)"
  by (simp add: on_remote_def zoom_def)

lemma on_local_apply: "m (lw w) = (r, s) \<Longrightarrow> on_local m w = (r, w\<lparr>lw := s\<rparr>)"
  by (simp add: on_local_def zoom_def)

lemma on_store_apply: "m (kw w) = (r, s) \<Longrightarrow> on_store m w = (r, w\<lparr>kw := s\<rparr>)"
  by (simp add: on_store_def zoom_def)

lemmas step_apply = now_apply new_seed_apply get_rt_apply modify_rt_apply next_counter_apply new_commit_apply

text \<open>A publication whose batch the remote accepts: the commit is created on the given parents, handed
  over in one batch with its packs, and remembered.\<close>

lemma publish_change_apply:
  assumes "c = commit_create (crypt E) (now_millis (clock E (tick w))) key parents (client E) n change"
    and "r_commit (rem_of E) \<lparr>cb_commits = [c], cb_packs = pack_objects packs,
           cb_indexes = index_objects (enc_pack_index E) packs\<rparr> (rw w) = (Inr ids, s)"
  shows "publish_change E key parents n (change, packs) w =
    (Inr c, w\<lparr>tick := Suc (tick w), rw := s, rt := insert_commit c (rt w)\<rparr>)"
  using assms(2)
  by (simp add: publish_change_def bind_def seq_def new_commit_apply assms(1) [symmetric]
      on_remote_apply modify_rt_apply)

end
