(* ===== verification/Execute.thy ===== *)
theory Execute
  imports Runtime
begin

text \<open>
  \<^verbatim>\<open>SyncRuntime::execute\<close> of \<^verbatim>\<open>src/src/runtime.rs\<close>, phase by phase: registering the plan, the run
  journal, preparing and committing the uploads, the operations in plan order, acknowledgements and
  the report. Its locals \<open>report\<close>, \<open>failures\<close> and \<open>events\<close> are the last fields of \<open>world\<close>. An
  indexing of a hash map by an absent key panics in the source; here it is the error \<open>absent_key\<close>.
\<close>

definition absent_key :: sync_error where
  "absent_key = IoError ''panic: no entry found for key''"

section \<open>Events and counters\<close>

definition event ::
  "string \<Rightarrow> string \<Rightarrow> string \<Rightarrow> resource_key option \<Rightarrow> json \<Rightarrow> engine_event" where
  "event run operation stage res detail =
     \<lparr>ee_run = run, ee_operation = operation, ee_stage = stage, ee_resource = res, ee_detail = detail\<rparr>"

definition tally :: "(sync_report \<Rightarrow> sync_report) \<Rightarrow> ('l, 'r, 'k, unit) op" where
  "tally f = modify (\<lambda>w. w\<lparr>report := f (report w)\<rparr>)"

definition fail_scope :: "string \<Rightarrow> ('l, 'r, 'k, unit) op" where
  "fail_scope s = seq (modify (\<lambda>w. w\<lparr>failed := (failed w)(s := failed w s + 1)\<rparr>))
     (tally (\<lambda>r. r\<lparr>failures_count := failures_count r + 1\<rparr>))"

section \<open>Registering the plan\<close>

definition decision :: "plan_operation \<Rightarrow> string" where
  "decision op = (case op of
       Noop _ \<Rightarrow> ''noop''
     | EstablishBaseline _ _ _ \<Rightarrow> ''establish_baseline''
     | EstablishDeletedBaseline _ _ \<Rightarrow> ''establish_deleted_baseline''
     | Upload _ _ \<Rightarrow> ''upload''
     | Download _ _ \<Rightarrow> ''download''
     | PublishDelete _ \<Rightarrow> ''publish_delete''
     | ApplyDelete _ _ _ \<Rightarrow> ''apply_delete''
     | ConflictOp _ \<Rightarrow> ''conflict'')"

definition kind_name :: "conflict_kind \<Rightarrow> string" where
  "kind_name k = (case k of
       InitialDivergence \<Rightarrow> ''InitialDivergence''
     | ContentVsContent \<Rightarrow> ''ContentVsContent''
     | DeleteVsModify \<Rightarrow> ''DeleteVsModify''
     | ModifyVsDelete \<Rightarrow> ''ModifyVsDelete''
     | RemoteFork \<Rightarrow> ''RemoteFork''
     | PreconditionFailedKind \<Rightarrow> ''PreconditionFailed'')"

definition insert_conflict :: "conflict_record \<Rightarrow> ('l, 'r, 'k, unit) op" where
  "insert_conflict record =
     seq (modify_rt (\<lambda>st. st\<lparr>conflicts := bt_insert (cf_id record) record (conflicts st)\<rparr>))
         (tally (\<lambda>r. r\<lparr>conflicts_count := conflicts_count r + 1\<rparr>))"

definition operation_id :: "string \<Rightarrow> nat \<Rightarrow> string" where
  "operation_id run i = run @ '':'' @ decimal i"

definition register_operation :: "string \<Rightarrow> nat \<times> plan_operation \<Rightarrow> ('l, 'r, 'k, unit) op" where
  "register_operation run iop =
     (case iop of (i, op) \<Rightarrow>
        let oid = operation_id run i;
            detail = JObj [(''decision'', JStr (decision op))]
        in seq (emit_progress (event run oid ''resource.scan'' (Some (op_key op)) (JObj [])))
          (seq (emit_progress (event run oid ''resource.compare'' (Some (op_key op)) detail))
          (seq (emit_progress (event run oid ''resource.decision'' (Some (op_key op)) detail))
          (case op of
             ConflictOp record \<Rightarrow>
               seq (insert_conflict record)
                 (emit_progress (event run (cf_id record) ''conflict'' (Some (cf_resource record))
                    (JObj [(''kind'', JStr (kind_name (cf_kind record))),
                           (''remote_heads'', JNum (length (cf_remote_heads record)))])))
           | _ \<Rightarrow> ret ()))))"

definition clear_conflicts :: "string list \<Rightarrow> runtime_state \<Rightarrow> runtime_state" where
  "clear_conflicts scopes st =
     st\<lparr>conflicts := filter (\<lambda>(_, c). scope_id (cf_resource c) \<notin> set scopes) (conflicts st)\<rparr>"

definition plan_journal :: "string \<Rightarrow> plan_operation list \<Rightarrow> run_journal" where
  "plan_journal run plan =
     \<lparr>rj_id = run,
      rj_operations = map (\<lambda>(i, op). \<lparr>oj_id = operation_id run i, oj_key = op_key op, oj_stage = ''planned''\<rparr>)
        (enumerate 0 plan)\<rparr>"

definition register_plan ::
  "('l, 'r, 'k, 'd) env \<Rightarrow> string list \<Rightarrow> local_resource list \<Rightarrow> plan_operation list \<Rightarrow> string \<Rightarrow>
   ('l, 'r, 'k, unit) op" where
  "register_plan E scopes local plan run =
     seq (modify (\<lambda>w. w\<lparr>report := empty_report run, failed := (\<lambda>_. 0), run_events := []\<rparr>))
    (seq (emit_progress (event run run ''run.start'' None
            (JObj [(''scopes'', JNum (length scopes)), (''local_resources'', JNum (length local)),
                   (''operations'', JNum (length plan))])))
    (seq (modify_rt (clear_conflicts scopes))
    (seq (for_each (enumerate 0 plan) (register_operation run))
    (seq (modify_rt (\<lambda>st. st\<lparr>active_run := Some (plan_journal run plan)\<rparr>))
         (save_state E)))))"

section \<open>Preparing uploads\<close>

definition is_publication :: "plan_operation \<Rightarrow> bool" where
  "is_publication op = (case op of Upload _ _ \<Rightarrow> True | PublishDelete _ \<Rightarrow> True | _ \<Rightarrow> False)"

definition upload_keys :: "plan_operation list \<Rightarrow> resource_key list" where
  "upload_keys ops = concat (map (\<lambda>op. case op of Upload key _ \<Rightarrow> [key] | _ \<Rightarrow> []) ops)"

record staging =
  sg_chunks :: "chunk list"
  sg_manifests :: "(resource_key \<times> string list) list"
  sg_failed :: "resource_key list"
  sg_merged :: "(resource_key \<times> bytes) list"

definition merge_inputs ::
  "('l, 'r, 'k, 'd) env \<Rightarrow> runtime_state \<Rightarrow> resource_key \<Rightarrow> resource_content \<Rightarrow> (merge_policy \<times> bytes) option" where
  "merge_inputs E st key content =
     (if rc_kind content \<noteq> Text then None
      else Option.bind (policy E) (\<lambda>p.
           Option.bind (map_of (baselines st) (encoded key)) (\<lambda>b. case sb_state b of
               BaselinePresent _ _ hs \<Rightarrow>
                 if hs \<noteq> heads key st then map_option (Pair p) (map_of (text_states st) (encoded key))
                 else None
             | BaselineDeleted _ \<Rightarrow> None)))"

definition merge_texts ::
  "('l, 'r, 'k, 'd) env \<Rightarrow> resource_key \<Rightarrow> resource_content \<Rightarrow> merge_policy \<times> bytes \<Rightarrow>
   ('l, 'r, 'k, text_merge_result) op" where
  "merge_texts E key content pf =
     (case pf of (p, full) \<Rightarrow>
        bind get_rt (\<lambda>st.
        bind (new_seed E) (\<lambda>s.
        bind (lift_result (from_baseline_and_deltas (yrs_of E) s (Some full) [])) (\<lambda>base.
        bind (lift_result (text_doc (yrs_of E) s key st)) (\<lambda>remote.
        lift_result (mp_merge p key (as_bytes (text_content (yrs_of E) base)) (rc_data content)
          (as_bytes (text_content (yrs_of E) remote))))))))"

definition structured_conflict ::
  "('l, 'r, 'k, 'd) env \<Rightarrow> string \<Rightarrow> resource_key \<Rightarrow> replica_state \<Rightarrow> string \<Rightarrow> ('l, 'r, 'k, unit) op" where
  "structured_conflict E run key loc reason =
     bind get_rt (\<lambda>st.
     bind (new_seed E) (\<lambda>s.
     bind (lift_result (remote_state (crypt E) (yrs_of E) s key st)) (\<lambda>remote.
     bind (now E) (\<lambda>t.
     let record = conflict_new (crypt E) t key ContentVsContent loc remote
     in seq (insert_conflict record)
          (emit_progress (event run (cf_id record) ''conflict'' (Some key)
             (JObj [(''kind'', JStr ''ContentVsContent''), (''reason'', JStr reason),
                    (''structured_text'', JBool True)])))))))"

definition stage_chunks ::
  "('l, 'r, 'k, 'd) env \<Rightarrow> resource_key \<Rightarrow> resource_content \<Rightarrow> staging \<Rightarrow> staging" where
  "stage_chunks E key content acc =
     (if rc_kind content = Binary then
        let chunks = chunk_data (crypt E) (cdc_of E) (rc_data content)
        in acc\<lparr>sg_chunks := sg_chunks acc @ chunks,
               sg_manifests := bt_insert key (map (\<lambda>(c, _). ci_hash c) chunks) (sg_manifests acc)\<rparr>
      else acc)"

definition reject_upload :: "resource_key \<Rightarrow> staging \<Rightarrow> staging" where
  "reject_upload key acc = acc\<lparr>sg_failed := key # sg_failed acc\<rparr>"

definition merge_upload ::
  "('l, 'r, 'k, 'd) env \<Rightarrow> string \<Rightarrow> staging \<Rightarrow> resource_key \<Rightarrow> replica_state \<Rightarrow> resource_content \<Rightarrow>
   ('l, 'r, 'k, staging) op" where
  "merge_upload E run acc key loc content =
     bind get_rt (\<lambda>st. case merge_inputs E st key content of
         None \<Rightarrow> ret (stage_chunks E key content acc)
       | Some pf \<Rightarrow> bind (merge_texts E key content pf) (\<lambda>res. case res of
             NotHandled \<Rightarrow> ret (stage_chunks E key content acc)
           | Merged data \<Rightarrow> bind (lift_result (parse_utf8 E data)) (\<lambda>_.
               ret (stage_chunks E key content (acc\<lparr>sg_merged := bt_insert key data (sg_merged acc)\<rparr>)))
           | MergeConflict reason \<Rightarrow>
               seq (structured_conflict E run key loc reason) (ret (reject_upload key acc))))"

definition prepare_upload ::
  "('l, 'r, 'k, 'd) env \<Rightarrow> string \<Rightarrow> (resource_key \<Rightarrow> resource_content option) \<Rightarrow> staging \<Rightarrow> plan_operation \<Rightarrow>
   ('l, 'r, 'k, staging) op" where
  "prepare_upload E run contents acc op =
     (case op of
        Upload key loc \<Rightarrow>
          (case contents key of
             None \<Rightarrow> seq (fail_scope (scope_id key))
               (seq (emit_progress (event run (run @ '':read'') ''error'' (Some key)
                  (JObj [(''error'', JStr ''local replica did not return requested content'')])))
               (ret (reject_upload key acc)))
           | Some content \<Rightarrow>
               if version_token loc \<noteq> Some (rc_version content)
               then seq (fail_scope (scope_id key)) (ret (reject_upload key acc))
               else merge_upload E run acc key loc content)
      | _ \<Rightarrow> ret acc)"

section \<open>Committing uploads\<close>

definition pack_bytes :: "pack list \<Rightarrow> nat" where
  "pack_bytes packs = sum_list (map (\<lambda>(_, data, _). length data) packs)"

definition text_upload ::
  "('l, 'r, 'k, 'd) env \<Rightarrow> staging \<Rightarrow> resource_key \<Rightarrow> resource_content \<Rightarrow> ('l, 'r, 'k, resource_change) op" where
  "text_upload E acc key content =
     bind get_rt (\<lambda>st.
     bind (new_seed E) (\<lambda>s.
     let merged = map_of (sg_merged acc) key;
         doc = (if merged \<noteq> None then text_doc (yrs_of E) s key st
                else (case map_of (baselines st) (encoded key) of
                        None \<Rightarrow> Inr (text_new (yrs_of E) s)
                      | Some _ \<Rightarrow> (case map_of (text_states st) (encoded key) of
                            None \<Rightarrow> Inr (text_new (yrs_of E) s)
                          | Some full \<Rightarrow> from_baseline_and_deltas (yrs_of E) s (Some full) [])))
     in bind (lift_result doc) (\<lambda>doc.
        bind (lift_result (parse_utf8 E (unwrap_or (rc_data content) merged))) (\<lambda>text.
        ret (TextDelta (fst (set_text (yrs_of E) doc text)))))))"

definition upload_change ::
  "('l, 'r, 'k, 'd) env \<Rightarrow> staging \<Rightarrow> resource_key \<Rightarrow> resource_content \<Rightarrow> ('l, 'r, 'k, resource_change) op" where
  "upload_change E acc key content =
     (case rc_kind content of
        Binary \<Rightarrow> ret (BinarySnapshot (blake3_hex (crypt E) (rc_data content))
          (word_of_nat (length (rc_data content))) (unwrap_or [] (map_of (sg_manifests acc) key)))
      | Text \<Rightarrow> text_upload E acc key content)"

type_synonym committed = "staging \<times> (resource_key \<times> commit) list"

definition construct_commit ::
  "('l, 'r, 'k, 'd) env \<Rightarrow> (resource_key \<Rightarrow> resource_content option) \<Rightarrow> committed \<Rightarrow> plan_operation \<Rightarrow>
   ('l, 'r, 'k, committed) op" where
  "construct_commit E contents acc op =
     (case acc of (stg, done) \<Rightarrow>
        let key = op_key op
        in if key \<in> set (sg_failed stg) then ret acc
           else bind get_rt (\<lambda>st.
             let parents = heads key st
             in bind next_counter (\<lambda>n. case op of
                  PublishDelete _ \<Rightarrow>
                    bind (new_commit E key parents n Delete) (\<lambda>c. ret (stg, done @ [(key, c)]))
                | Upload _ _ \<Rightarrow>
                    (case contents key of
                       None \<Rightarrow> throw absent_key
                     | Some content \<Rightarrow>
                         bind (upload_change E stg key content) (\<lambda>change.
                         bind (new_commit E key parents n change) (\<lambda>c.
                         ret (stg\<lparr>sg_manifests := bt_remove key (sg_manifests stg)\<rparr>, done @ [(key, c)]))))
                | _ \<Rightarrow> ret acc)))"

definition local_of :: "local_resource list \<Rightarrow> resource_key \<Rightarrow> local_resource option" where
  "local_of local = hm_collect (map (\<lambda>r. (lr_key r, r)) local)"

definition token_or_empty :: "replica_state \<Rightarrow> string" where
  "token_or_empty s = unwrap_or [] (version_token s)"

definition finish_text_upload ::
  "('l, 'r, 'k, 'd) env \<Rightarrow> string \<Rightarrow> local_resource list \<Rightarrow> resource_key \<Rightarrow> string list \<Rightarrow> ('l, 'r, 'k, unit) op" where
  "finish_text_upload E run local key hs =
     bind get_rt (\<lambda>st.
     bind (new_seed E) (\<lambda>s.
     bind (lift_result (text_doc (yrs_of E) s key st)) (\<lambda>merged.
     let bs = as_bytes (text_content (yrs_of E) merged)
     in case local_of local key of
          None \<Rightarrow> throw absent_key
        | Some current \<Rightarrow>
            bind (on_local (l_apply (loc_of E) [WritePresent key bs (precondition (lr_state current))])) (\<lambda>results.
            case results of
              r # _ \<Rightarrow>
                if ar_status r = Applied then
                  seq (modify_rt (\<lambda>st. st\<lparr>text_states := bt_insert (encoded key)
                         (full_update (yrs_of E) merged) (text_states st)\<rparr>))
                 (seq (modify_rt (set_present_baseline key (blake3_hex (crypt E) bs)
                         (unwrap_or [] (ar_version r)) hs run))
                      (tally (\<lambda>r. r\<lparr>uploaded := uploaded r + 1\<rparr>)))
                else ret ()
            | [] \<Rightarrow> ret ()))))"

definition finish_commit ::
  "('l, 'r, 'k, 'd) env \<Rightarrow> string \<Rightarrow> local_resource list \<Rightarrow> resource_key \<times> commit \<Rightarrow> ('l, 'r, 'k, unit) op" where
  "finish_commit E run local kc =
     (case kc of (key, c) \<Rightarrow>
        seq (modify_rt (insert_commit c))
       (seq (emit_progress (event run (cm_id c) ''commit.catalog'' (Some key)
               (JObj [(''commit'', JStr (cm_id c)), (''parents'', JNum (length (cm_parents c)))])))
       (bind get_rt (\<lambda>st.
          let hs = heads key st
          in case cm_change c of
               Delete \<Rightarrow>
                 seq (modify_rt (set_deleted_baseline key hs run))
                     (tally (\<lambda>r. r\<lparr>deleted_remote := deleted_remote r + 1\<rparr>))
             | BinarySnapshot content _ _ \<Rightarrow>
                 (case local_of local key of
                    None \<Rightarrow> throw absent_key
                  | Some r \<Rightarrow>
                      seq (modify_rt (set_present_baseline key content (token_or_empty (lr_state r)) hs run))
                          (tally (\<lambda>r. r\<lparr>uploaded := uploaded r + 1\<rparr>)))
             | TextDelta _ \<Rightarrow> finish_text_upload E run local key hs))))"

definition upload_batch ::
  "('l, 'r, 'k, 'd) env \<Rightarrow> pack list \<Rightarrow> (resource_key \<times> commit) list \<Rightarrow> commit_batch" where
  "upload_batch E packs done =
     \<lparr>cb_commits = map snd done, cb_packs = pack_objects packs,
      cb_indexes = index_objects (enc_pack_index E) packs\<rparr>"

definition transfer ::
  "('l, 'r, 'k, 'd) env \<Rightarrow> string \<Rightarrow> local_resource list \<Rightarrow> pack list \<Rightarrow> (resource_key \<times> commit) list \<Rightarrow>
   ('l, 'r, 'k, unit) op" where
  "transfer E run local packs done =
     (if done = [] \<and> packs = [] then ret ()
      else seq (emit_progress (event run (run @ '':upload'') ''upload.transfer'' None
                 (JObj [(''commits'', JNum (length done)), (''packs'', JNum (length packs)),
                        (''bytes'', JNum (pack_bytes packs))])))
          (bind (on_remote (r_commit (rem_of E) (upload_batch E packs done))) (\<lambda>_.
           seq (for_each done (finish_commit E run local)) (save_state E))))"

definition run_uploads ::
  "('l, 'r, 'k, 'd) env \<Rightarrow> string \<Rightarrow> local_resource list \<Rightarrow> plan_operation list \<Rightarrow> ('l, 'r, 'k, unit) op" where
  "run_uploads E run local plan =
     (let uploads = filter is_publication plan;
          announce = (\<lambda>ev. if uploads = [] then ret () else emit_progress ev)
      in seq (announce (event run (run @ '':upload'') ''upload.prepare'' None
               (JObj [(''resources'', JNum (length uploads))])))
        (bind (on_local (l_read (loc_of E) (upload_keys uploads))) (\<lambda>read.
         let contents = by_key read
         in bind (fold_m (prepare_upload E run contents)
                   \<lparr>sg_chunks = [], sg_manifests = [], sg_failed = [], sg_merged = []\<rparr> uploads) (\<lambda>stg.
            bind (on_remote (r_lookup (rem_of E) (map (\<lambda>(c, _). ci_hash c) (sg_chunks stg)))) (\<lambda>found.
            let new_chunks = filter (\<lambda>(c, _). ci_hash c \<notin> cl_hash ` set found) (sg_chunks stg);
                packs = build_packs (crypt E) new_chunks
            in seq (announce (event run (run @ '':upload'') ''upload.plan'' None
                     (JObj [(''resources'', JNum (length uploads)), (''packs'', JNum (length packs)),
                            (''bytes'', JNum (pack_bytes packs)), (''chunks'', JNum (length new_chunks))])))
              (bind (fold_m (construct_commit E contents) (stg, []) uploads) (\<lambda>(_, done).
               transfer E run local packs done)))))))"

end
