(* ===== verification/Reconcile.thy ===== *)
theory Reconcile
  imports Execute
begin

text \<open>
  The operation loop and the end of \<^verbatim>\<open>execute\<close>, and the methods \<^verbatim>\<open>preview\<close>, \<^verbatim>\<open>reconcile\<close>,
  \<^verbatim>\<open>list_conflicts\<close>, \<^verbatim>\<open>history\<close>, \<^verbatim>\<open>retire_client\<close> and \<^verbatim>\<open>close\<close> of \<^verbatim>\<open>src/src/runtime.rs\<close>.
\<close>

section \<open>Applying one mutation\<close>

text \<open>The pattern \<^verbatim>\<open>apply_mutations(vec![m])?.into_iter().next().ok_or_else(..)\<close> and the test of
  the status, with the messages of its two failures.\<close>

definition apply_one ::
  "('l, 'r, 'k, 'd) env \<Rightarrow> local_mutation \<Rightarrow> string \<Rightarrow> (local_apply_result \<Rightarrow> string) \<Rightarrow>
   ('l, 'r, 'k, local_apply_result) op" where
  "apply_one E m no_result refused =
     bind (on_local (l_apply (loc_of E) [m])) (\<lambda>rs. case rs of
         [] \<Rightarrow> io_error no_result
       | r # _ \<Rightarrow> if ar_status r \<noteq> Applied then io_error (refused r) else ret r)"

definition error_or :: "string \<Rightarrow> local_apply_result \<Rightarrow> string" where
  "error_or msg r = unwrap_or msg (ar_error r)"

section \<open>One operation of the plan\<close>

definition sum_pack ::
  "(string \<times> nat \<times> nat) list \<Rightarrow> chunk_location \<Rightarrow> (string \<times> nat \<times> nat) list" where
  "sum_pack m l =
     (let (ranges, n) = unwrap_or (0, 0) (map_of m (cl_pack l))
      in bt_insert (cl_pack l) (ranges + 1, n + unat (cl_length l)) m)"

definition change_of :: "runtime_state \<Rightarrow> string option \<Rightarrow> resource_change option" where
  "change_of st head = Option.bind head (\<lambda>h. map_option cm_change (map_of (commits st) h))"

definition first_head :: "remote_state \<Rightarrow> string option" where
  "first_head r = (case remote_heads_of r of [] \<Rightarrow> None | h # _ \<Rightarrow> Some h)"

definition announce_download ::
  "('l, 'r, 'k, 'd) env \<Rightarrow> string \<Rightarrow> resource_key \<Rightarrow> resource_change option \<Rightarrow> ('l, 'r, 'k, unit) op" where
  "announce_download E run key change =
     (case change of
        Some (BinarySnapshot _ n hashes) \<Rightarrow>
          bind (on_remote (r_lookup (rem_of E) hashes)) (\<lambda>locs.
          let packs = foldl sum_pack [] locs
          in emit_progress (event run (run @ '':download'') ''download.plan'' (Some key)
               (JObj [(''bytes'', JNum (unat n)), (''chunks'', JNum (length hashes)),
                      (''packs'', JArr (map (\<lambda>(i, ranges, bs). JObj
                         [(''pack'', JStr (take 12 i)), (''ranges'', JNum ranges), (''bytes'', JNum bs)]) packs))])))
      | _ \<Rightarrow> ret ())"

definition remember_text ::
  "('l, 'r, 'k, 'd) env \<Rightarrow> resource_key \<Rightarrow> ('l, 'r, 'k, unit) op" where
  "remember_text E key =
     bind get_rt (\<lambda>st.
     bind (new_seed E) (\<lambda>s.
     bind (lift_result (text_doc (yrs_of E) s key st)) (\<lambda>doc.
     modify_rt (\<lambda>st. st\<lparr>text_states := bt_insert (encoded key) (full_update (yrs_of E) doc) (text_states st)\<rparr>))))"

definition local_state_of :: "local_resource list \<Rightarrow> resource_key \<Rightarrow> replica_state" where
  "local_state_of local key = (case local_of local key of None \<Rightarrow> LocalMissing | Some r \<Rightarrow> lr_state r)"

definition run_download ::
  "('l, 'r, 'k, 'd) env \<Rightarrow> string \<Rightarrow> local_resource list \<Rightarrow> resource_key \<Rightarrow> remote_state \<Rightarrow>
   ('l, 'r, 'k, unit) op" where
  "run_download E run local key remote =
     bind (gets (\<lambda>w. change_of (rt w) (first_head remote))) (\<lambda>change.
     seq (announce_download E run key change)
    (bind (content_for_remote E key None) (\<lambda>bs.
     bind (apply_one E (WritePresent key bs (precondition (local_state_of local key)))
             ''local replica returned no apply result'' (error_or ''local precondition failed'')) (\<lambda>r.
     seq (case change of
            Some (TextDelta _) \<Rightarrow> seq (remember_text E key)
              (modify_rt (\<lambda>st. st\<lparr>kinds := bt_insert (encoded key) Text (kinds st)\<rparr>))
          | _ \<Rightarrow> ret ())
    (seq (modify_rt (set_present_baseline key (unwrap_or [] (remote_content_id remote))
            (unwrap_or [] (ar_version r)) (remote_heads_of remote) run))
    (seq (tally (\<lambda>r. r\<lparr>downloaded := downloaded r + 1\<rparr>))
         (emit_progress (event run (run @ '':download'') ''download.write'' (Some key)
            (JObj [(''bytes'', JNum (length bs))])))))))))"

definition run_apply_delete ::
  "('l, 'r, 'k, 'd) env \<Rightarrow> string \<Rightarrow> resource_key \<Rightarrow> replica_state \<Rightarrow> string list \<Rightarrow> ('l, 'r, 'k, unit) op" where
  "run_apply_delete E run key loc hs =
     bind (apply_one E (MutDelete key (precondition loc))
             ''local replica returned no delete result'' (error_or ''local delete precondition failed'')) (\<lambda>_.
     seq (modify_rt (set_deleted_baseline key hs run))
    (seq (tally (\<lambda>r. r\<lparr>deleted_local := deleted_local r + 1\<rparr>))
         (emit_progress (event run (run @ '':delete'') ''delete.apply'' (Some key) (JObj [])))))"

definition run_establish ::
  "('l, 'r, 'k, 'd) env \<Rightarrow> string \<Rightarrow> resource_key \<Rightarrow> replica_state \<Rightarrow> string list \<Rightarrow> ('l, 'r, 'k, unit) op" where
  "run_establish E run key loc hs =
     bind get_rt (\<lambda>st.
     seq (if map_of (kinds st) (encoded key) = Some Text then remember_text E key else ret ())
    (seq (modify_rt (set_present_baseline key (unwrap_or [] (replica_content_id loc))
            (token_or_empty loc) hs run))
         (tally (\<lambda>r. r\<lparr>unchanged := unchanged r + 1\<rparr>))))"

definition run_operation ::
  "('l, 'r, 'k, 'd) env \<Rightarrow> string \<Rightarrow> local_resource list \<Rightarrow> plan_operation \<Rightarrow> ('l, 'r, 'k, unit) op" where
  "run_operation E run local op =
     (case op of
        Noop _ \<Rightarrow> tally (\<lambda>r. r\<lparr>unchanged := unchanged r + 1\<rparr>)
      | EstablishBaseline key loc hs \<Rightarrow> run_establish E run key loc hs
      | EstablishDeletedBaseline key hs \<Rightarrow>
          seq (modify_rt (set_deleted_baseline key hs run))
              (tally (\<lambda>r. r\<lparr>unchanged := unchanged r + 1\<rparr>))
      | Download key remote \<Rightarrow> run_download E run local key remote
      | ApplyDelete key loc hs \<Rightarrow> run_apply_delete E run key loc hs
      | Upload _ _ \<Rightarrow> ret ()
      | PublishDelete _ \<Rightarrow> ret ()
      | ConflictOp _ \<Rightarrow> ret ())"

definition guarded_operation ::
  "('l, 'r, 'k, 'd) env \<Rightarrow> string \<Rightarrow> local_resource list \<Rightarrow> plan_operation \<Rightarrow> ('l, 'r, 'k, unit) op" where
  "guarded_operation E run local op =
     bind (attempt (run_operation E run local op)) (\<lambda>outcome.
     seq (case outcome of
            Inl e \<Rightarrow> seq (fail_scope (scope_id (op_key op)))
              (emit_progress (event run run ''error'' (Some (op_key op))
                 (JObj [(''error'', JStr (error_display e))])))
          | Inr _ \<Rightarrow> ret ())
         (save_state E))"

section \<open>Finishing the run\<close>

definition plan_acks :: "string \<Rightarrow> plan_operation list \<Rightarrow> runtime_state \<Rightarrow> resource_ack list" where
  "plan_acks me plan st =
     map (\<lambda>op. \<lparr>ack_client = me, ack_resource = op_key op, ack_heads = heads (op_key op) st, ack_pinned = []\<rparr>)
       (filter (\<lambda>op. \<not> is_conflict op) plan)"

definition finish_run ::
  "('l, 'r, 'k, 'd) env \<Rightarrow> string list \<Rightarrow> plan_operation list \<Rightarrow> string \<Rightarrow> ('l, 'r, 'k, unit) op" where
  "finish_run E scopes plan run =
     bind get_rt (\<lambda>st.
     seq (on_remote (r_write_acks (rem_of E) (plan_acks (client E) plan st)))
    (seq (modify_rt (\<lambda>st. st\<lparr>active_run := None\<rparr>))
    (seq (save_state E)
    (seq (modify (\<lambda>w. w\<lparr>report := (report w)\<lparr>rp_scopes := report_scopes scopes plan (failed w)\<rparr>\<rparr>))
    (bind (gets report) (\<lambda>r.
     emit_progress (event run run ''run.complete'' None
       (JObj [(''uploaded'', JNum (uploaded r)), (''downloaded'', JNum (downloaded r)),
              (''deleted_remote'', JNum (deleted_remote r)), (''deleted_local'', JNum (deleted_local r)),
              (''unchanged'', JNum (unchanged r)), (''conflicts'', JNum (conflicts_count r)),
              (''failures'', JNum (failures_count r))]))))))))"

definition execute ::
  "('l, 'r, 'k, 'd) env \<Rightarrow> string list \<Rightarrow> local_resource list \<Rightarrow> plan_operation list \<Rightarrow> string \<Rightarrow>
   ('l, 'r, 'k, sync_report \<times> engine_event list) op" where
  "execute E scopes local plan run =
     seq (register_plan E scopes local plan run)
    (seq (run_uploads E run local plan)
    (seq (for_each plan (guarded_operation E run local))
    (seq (finish_run E scopes plan run)
         (gets (\<lambda>w. (report w, run_events w))))))"

section \<open>The methods of the runtime\<close>

definition preview ::
  "('l, 'r, 'k, 'd) env \<Rightarrow> string list \<Rightarrow> ('l, 'r, 'k, plan_operation list) op" where
  "preview E scopes =
     bind get_rt (\<lambda>kept.
     (\<lambda>w. case (seq (refresh_remote E scopes)
                 (bind (local_inventory E scopes) (build_plan E scopes))) w of
            (r, w') \<Rightarrow> (r, w'\<lparr>rt := kept\<rparr>)))"

definition note_kinds :: "local_resource list \<Rightarrow> runtime_state \<Rightarrow> runtime_state" where
  "note_kinds local st =
     st\<lparr>kinds := fold (\<lambda>r. bt_insert (encoded (lr_key r)) (lr_kind r)) local (kinds st)\<rparr>"

definition run_name :: "('l, 'r, 'k, 'd) env \<Rightarrow> int \<Rightarrow> string" where
  "run_name E t = client E @ ''-'' @ decimal (nat t)"

definition reconcile ::
  "('l, 'r, 'k, 'd) env \<Rightarrow> string list \<Rightarrow> ('l, 'r, 'k, sync_report) op" where
  "reconcile E scopes =
     bind (now E) (\<lambda>t.
     let run = run_name E t;
         stage = (\<lambda>name detail. emit [event run run name None (JObj detail)])
     in bind (gets (\<lambda>w. active_run (rt w))) (\<lambda>recovered.
     seq (modify_rt (\<lambda>st. st\<lparr>active_run := None\<rparr>))
    (seq (stage ''remote.scan.start'' [(''scopes'', JNum (length scopes))])
    (seq (refresh_remote E scopes)
    (bind get_rt (\<lambda>st.
     seq (stage ''remote.scan.complete'' [(''commits'', JNum (length (commits st)))])
    (seq (snapshot_large_catalogs E)
    (seq (stage ''local.scan.start'' [])
    (bind (local_inventory E scopes) (\<lambda>local.
     seq (stage ''local.scan.complete'' [(''resources'', JNum (length local))])
    (seq (modify_rt (note_kinds local))
    (bind (build_plan E scopes local) (\<lambda>plan.
     seq (stage ''plan.complete'' [(''operations'', JNum (length plan))])
    (seq (case recovered of
            None \<Rightarrow> ret ()
          | Some previous \<Rightarrow> emit [event run (rj_id previous) ''recovery'' None (JObj [])])
    (bind (execute E scopes local plan run) (\<lambda>(r, _). ret r))))))))))))))))"

definition list_conflicts :: "string option \<Rightarrow> ('l, 'r, 'k, conflict_record list) op" where
  "list_conflicts scope = gets (\<lambda>w.
     filter (\<lambda>c. case scope of None \<Rightarrow> True | Some s \<Rightarrow> s = scope_id (cf_resource c))
       (map snd (conflicts (rt w))))"

definition history :: "resource_key \<Rightarrow> ('l, 'r, 'k, version_record list) op" where
  "history key = gets (\<lambda>w.
     sort_key vr_timestamp
       (map (\<lambda>c. \<lparr>vr_commit = cm_id c, vr_parents = cm_parents c, vr_timestamp = cm_timestamp c,
                  vr_author = cm_author c, vr_deleted = is_delete (cm_change c)\<rparr>)
         (resource_commits key (rt w))))"

definition retire_client :: "('l, 'r, 'k, 'd) env \<Rightarrow> string \<Rightarrow> ('l, 'r, 'k, unit) op" where
  "retire_client E who =
     seq (modify_rt (\<lambda>st. st\<lparr>retired_clients := bset (who # retired_clients st)\<rparr>)) (save_state E)"

definition close_runtime :: "('l, 'r, 'k, 'd) env \<Rightarrow> ('l, 'r, 'k, unit) op" where
  "close_runtime E = on_store (k_close (sto_of E))"

end
