(* ===== verification/Resolve.thy ===== *)
theory Resolve
  imports Reconcile
begin

text \<open>
  \<^verbatim>\<open>SyncRuntime::resolve\<close> and \<^verbatim>\<open>SyncRuntime::rollback\<close> of \<^verbatim>\<open>src/src/runtime.rs\<close>: the compare step
  on remote heads and local version, the preserved copies, the primary choice, and the reconcile of
  the scope that follows.
\<close>

section \<open>Shared steps\<close>

definition absent :: "replica_state \<Rightarrow> bool" where
  "absent s \<longleftrightarrow> (case s of LocalPresent _ _ _ \<Rightarrow> False | _ \<Rightarrow> True)"

definition delete_unless_absent ::
  "('l, 'r, 'k, 'd) env \<Rightarrow> resource_key \<Rightarrow> replica_state \<Rightarrow> string \<Rightarrow> (local_apply_result \<Rightarrow> string) \<Rightarrow>
   ('l, 'r, 'k, unit) op" where
  "delete_unless_absent E key current no_result refused =
     (if absent current then ret ()
      else bind (apply_one E (MutDelete key (precondition current)) no_result refused) (\<lambda>_. ret ()))"

text \<open>Publish a deletion, and publish bytes already written locally, with the new baseline.\<close>

definition settle_delete ::
  "('l, 'r, 'k, 'd) env \<Rightarrow> resource_key \<Rightarrow> string list \<Rightarrow> string \<Rightarrow> ('l, 'r, 'k, unit) op" where
  "settle_delete E key parents operation =
     bind (publish_delete E key parents) (\<lambda>c. modify_rt (set_deleted_baseline key [cm_id c] operation))"

definition settle_bytes ::
  "('l, 'r, 'k, 'd) env \<Rightarrow> resource_key \<Rightarrow> resource_kind \<Rightarrow> bytes \<Rightarrow> string list \<Rightarrow> string \<Rightarrow> string \<Rightarrow>
   ('l, 'r, 'k, unit) op" where
  "settle_bytes E key kind data parents version operation =
     bind (publish_bytes E key kind data parents) (\<lambda>c.
       modify_rt (set_present_baseline key (blake3_hex (crypt E) data) version [cm_id c] operation))"

definition kind_of_change :: "resource_change \<Rightarrow> resource_kind" where
  "kind_of_change ch = (if is_text ch then Text else Binary)"

text \<open>
  Restore a commit locally and publish the restoration on top of \<open>parents\<close>: the match that
  \<^verbatim>\<open>resolve\<close> (for a chosen remote head) and \<^verbatim>\<open>rollback\<close> (for an older commit) share, up to the
  messages of a refused mutation.
\<close>

record messages =
  no_delete :: string
  refused_delete :: "local_apply_result \<Rightarrow> string"
  no_write :: string
  refused_write :: "local_apply_result \<Rightarrow> string"

definition restore_commit ::
  "('l, 'r, 'k, 'd) env \<Rightarrow> messages \<Rightarrow> resource_key \<Rightarrow> replica_state \<Rightarrow> commit \<Rightarrow> string \<Rightarrow> string list \<Rightarrow> string \<Rightarrow>
   ('l, 'r, 'k, unit) op" where
  "restore_commit E msgs key current selected commit_id parents operation =
     (case cm_change selected of
        Delete \<Rightarrow>
          seq (delete_unless_absent E key current (no_delete msgs) (refused_delete msgs))
              (settle_delete E key parents operation)
      | change \<Rightarrow>
          bind (content_for_remote E key (Some commit_id)) (\<lambda>data.
          bind (apply_one E (WritePresent key data (precondition current))
                  (no_write msgs) (refused_write msgs)) (\<lambda>r.
          settle_bytes E key (kind_of_change change) data parents (unwrap_or [] (ar_version r)) operation)))"

section \<open>Resolving a conflict\<close>

definition conflict_gone ::
  "('l, 'r, 'k, 'd) env \<Rightarrow> string \<Rightarrow> ('l, 'r, 'k, 'a) op" where
  "conflict_gone E cid =
     seq (modify_rt (\<lambda>st. st\<lparr>conflicts := bt_remove cid (conflicts st)\<rparr>))
    (seq (save_state E) (throw ConflictNeedResolution))"

definition read_local_side ::
  "('l, 'r, 'k, 'd) env \<Rightarrow> resource_key \<Rightarrow> ('l, 'r, 'k, resource_content) op" where
  "read_local_side E key =
     bind (on_local (l_read (loc_of E) [key])) (\<lambda>cs. case cs of
         [] \<Rightarrow> io_error ''local conflict side disappeared''
       | c # _ \<Rightarrow> ret c)"

definition preserve_version ::
  "('l, 'r, 'k, 'd) env \<Rightarrow> resource_key \<Rightarrow> preserved_version \<Rightarrow> ('l, 'r, 'k, unit) op" where
  "preserve_version E key pv =
     bind (case pv_source pv of
             ChooseLocal \<Rightarrow> bind (read_local_side E key) (\<lambda>c. ret (rc_data c))
           | ChooseRemote commit_id \<Rightarrow> content_for_remote E key (Some commit_id)
           | ChooseDelete \<Rightarrow> io_error ''a deletion cannot be preserved as a copy'')
       (\<lambda>data. bind (apply_one E (CreateCopy (pv_target pv) data)
          ''local replica returned no copy result'' (error_or ''copy target already exists'')) (\<lambda>_. ret ()))"

definition resolve_messages :: messages where
  "resolve_messages =
     \<lparr>no_delete = ''local replica returned no delete result'',
      refused_delete = error_or ''delete precondition failed'',
      no_write = ''local replica returned no write result'',
      refused_write = error_or ''write precondition failed''\<rparr>"

definition choose_primary ::
  "('l, 'r, 'k, 'd) env \<Rightarrow> resolve_request \<Rightarrow> conflict_record \<Rightarrow> replica_state \<Rightarrow> string list \<Rightarrow>
   ('l, 'r, 'k, unit) op" where
  "choose_primary E req record current hs =
     (let key = cf_resource record; operation = rq_conflict req
      in case rq_primary req of
           ChooseLocal \<Rightarrow>
             bind (read_local_side E key) (\<lambda>c.
             settle_bytes E key (rc_kind c) (rc_data c) hs (rc_version c) operation)
         | ChooseDelete \<Rightarrow>
             seq (delete_unless_absent E key current (no_delete resolve_messages) (refused_delete resolve_messages))
                 (settle_delete E key hs operation)
         | ChooseRemote commit_id \<Rightarrow>
             if commit_id \<notin> set (cf_remote_heads record)
             then io_error ''selected remote version is no longer a head''
             else bind get_rt (\<lambda>st. case map_of (commits st) commit_id of
                 None \<Rightarrow> io_error ''selected remote commit is unavailable''
               | Some selected \<Rightarrow>
                   restore_commit E resolve_messages key current selected commit_id hs operation))"

definition resolve_conflict ::
  "('l, 'r, 'k, 'd) env \<Rightarrow> resolve_request \<Rightarrow> ('l, 'r, 'k, string) op" where
  "resolve_conflict E req =
     bind get_rt (\<lambda>st. case map_of (conflicts st) (rq_conflict req) of
         None \<Rightarrow> io_error ''conflict no longer exists''
       | Some record \<Rightarrow>
           let key = cf_resource record; hs = heads key st
           in if hs \<noteq> cf_remote_heads record then conflict_gone E (rq_conflict req)
              else bind (local_inventory E [scope_id key]) (\<lambda>local.
                let current = (case find_resource local key of None \<Rightarrow> LocalMissing | Some r \<Rightarrow> lr_state r)
                in if version_token current \<noteq> version_token (cf_local record)
                      \<or> replica_content_id current \<noteq> replica_content_id (cf_local record)
                   then conflict_gone E (rq_conflict req)
                   else seq (for_each (rq_preserved req) (preserve_version E key))
                       (seq (choose_primary E req record current hs)
                       (seq (modify_rt (\<lambda>st. st\<lparr>conflicts := bt_remove (rq_conflict req) (conflicts st)\<rparr>))
                       (seq (save_state E) (ret (scope_id key)))))))"

definition resolve ::
  "('l, 'r, 'k, 'd) env \<Rightarrow> resolve_request \<Rightarrow> ('l, 'r, 'k, sync_report) op" where
  "resolve E req = bind (resolve_conflict E req) (\<lambda>scope. reconcile E [scope])"

section \<open>Rolling back\<close>

definition rollback_messages :: messages where
  "rollback_messages =
     \<lparr>no_delete = ''local replica returned no rollback result'',
      refused_delete = (\<lambda>_. ''rollback delete precondition failed''),
      no_write = ''local replica returned no rollback result'',
      refused_write = (\<lambda>_. ''rollback write precondition failed'')\<rparr>"

definition rollback_to ::
  "('l, 'r, 'k, 'd) env \<Rightarrow> resource_key \<Rightarrow> string \<Rightarrow> ('l, 'r, 'k, unit) op" where
  "rollback_to E key commit_id =
     bind get_rt (\<lambda>st.
       case (case map_of (commits st) commit_id of
               None \<Rightarrow> None | Some c \<Rightarrow> if cm_resource c = key then Some c else None) of
         None \<Rightarrow> io_error ''rollback version is unavailable''
       | Some selected \<Rightarrow>
           bind (local_inventory E [scope_id key]) (\<lambda>local.
           let current = (case find_resource local key of None \<Rightarrow> LocalMissing | Some r \<Rightarrow> lr_state r)
           in seq (restore_commit E rollback_messages key current selected commit_id (heads key st) ''rollback'')
                  (save_state E)))"

definition rollback ::
  "('l, 'r, 'k, 'd) env \<Rightarrow> resource_key \<Rightarrow> string \<Rightarrow> ('l, 'r, 'k, sync_report) op" where
  "rollback E key commit_id = seq (rollback_to E key commit_id) (reconcile E [scope_id key])"

end
