(* ===== verification/Maintain.thy ===== *)
theory Maintain
  imports Resolve
begin

text \<open>
  \<^verbatim>\<open>SyncRuntime::maintain\<close> of \<^verbatim>\<open>src/src/runtime.rs\<close>: history retention behind an acknowledged
  checkpoint, catalog compaction, and collection of packs that no live commit needs.
\<close>

section \<open>What a resource may drop\<close>

definition conflicted :: "runtime_state \<Rightarrow> resource_key \<Rightarrow> bool" where
  "conflicted st key \<longleftrightarrow>
     length (heads key st) \<noteq> 1
     \<or> (\<exists>c \<in> set (map snd (conflicts st)). cf_resource c = key)
     \<or> (case active_run st of None \<Rightarrow> False
        | Some run \<Rightarrow> \<exists>op \<in> set (rj_operations run). oj_key op = key)"

definition maintained_kind :: "runtime_state \<Rightarrow> resource_key \<Rightarrow> commit list \<Rightarrow> resource_kind" where
  "maintained_kind st key cs =
     (case map_of (kinds st) (encoded key) of
        Some k \<Rightarrow> k
      | None \<Rightarrow> if cs \<noteq> [] \<and> is_text (cm_change (last cs)) then Text else Binary)"

definition active_clients :: "string \<Rightarrow> runtime_state \<Rightarrow> resource_key \<Rightarrow> string list" where
  "active_clients me st key =
     bset (filter (\<lambda>a. a \<notin> set (retired_clients st)) (map cm_author (resource_commits key st)) @ [me])"

definition all_acknowledged ::
  "string \<Rightarrow> runtime_state \<Rightarrow> resource_key \<Rightarrow> resource_ack list \<Rightarrow> string \<Rightarrow> bool" where
  "all_acknowledged me st key acks checkpoint \<longleftrightarrow>
     list_all (\<lambda>who. list_ex (\<lambda>a. ack_client a = who \<and> ack_resource a = key
         \<and> list_ex (\<lambda>h. is_descendant h checkpoint st) (ack_heads a)) acks)
       (active_clients me st key)"

definition newest_first :: "runtime_state \<Rightarrow> resource_key \<Rightarrow> (int \<times> string) list" where
  "newest_first st key =
     rev (sort (map (\<lambda>c. (cm_timestamp c, cm_id c)) (resource_commits key st)))"

definition retained_ids ::
  "u64 \<Rightarrow> runtime_state \<Rightarrow> resource_key \<Rightarrow> resource_ack list \<Rightarrow> string \<Rightarrow> string list" where
  "retained_ids n st key acks checkpoint =
     map snd (take (unat n) (newest_first st key)) @ [checkpoint]
       @ concat (map ack_pinned (filter (\<lambda>a. ack_resource a = key) acks))"

definition obsolete_ids ::
  "u64 \<Rightarrow> runtime_state \<Rightarrow> resource_key \<Rightarrow> resource_ack list \<Rightarrow> string \<Rightarrow> string list" where
  "obsolete_ids n st key acks checkpoint =
     map cm_id (filter (\<lambda>c. cm_id c \<notin> set (retained_ids n st key acks checkpoint)) (resource_commits key st))"

section \<open>One resource\<close>

type_synonym obsolete_map = "(string \<times> string list) list"

definition deferred_one :: "maintenance_report \<Rightarrow> maintenance_report" where
  "deferred_one r = r\<lparr>mr_deferred := mr_deferred r + 1\<rparr>"

definition drop_checkpoint :: "resource_key \<Rightarrow> runtime_state \<Rightarrow> runtime_state" where
  "drop_checkpoint key st = st\<lparr>checkpoints := bt_remove (encoded key) (checkpoints st)\<rparr>"

definition publish_checkpoint ::
  "('l, 'r, 'k, 'd) env \<Rightarrow> resource_key \<Rightarrow> ('l, 'r, 'k, unit) op" where
  "publish_checkpoint E key =
     bind get_rt (\<lambda>st.
     let head = hd (heads key st)
     in case map_of (commits st) head of
          None \<Rightarrow> io_error (''missing head commit '' @ head)
        | Some selected \<Rightarrow>
            bind (case cm_change selected of
                    Delete \<Rightarrow> publish_delete E key [head]
                  | _ \<Rightarrow> bind (content_for_remote E key (Some head)) (\<lambda>content.
                      publish_bytes E key Binary content [head])) (\<lambda>c.
            seq (modify_rt (\<lambda>st. st\<lparr>checkpoints := bt_insert (encoded key)
                   \<lparr>sc_key = key, sc_commit = cm_id c\<rparr> (checkpoints st)\<rparr>))
                (on_remote (r_write_acks (rem_of E)
                   [\<lparr>ack_client = client E, ack_resource = key, ack_heads = [cm_id c], ack_pinned = []\<rparr>]))))"

definition maintain_resource ::
  "('l, 'r, 'k, 'd) env \<Rightarrow> u64 \<Rightarrow> resource_ack list \<Rightarrow> maintenance_report \<times> obsolete_map \<Rightarrow> resource_key \<Rightarrow>
   ('l, 'r, 'k, maintenance_report \<times> obsolete_map) op" where
  "maintain_resource E n acks acc key =
     (case acc of (r, obs) \<Rightarrow>
        bind get_rt (\<lambda>st.
        let cs = resource_commits key st
        in if length cs \<le> unat n
           then seq (modify_rt (drop_checkpoint key)) (ret (r, obs))
           else if conflicted st key \<or> maintained_kind st key cs = Text then ret (deferred_one r, obs)
           else (case map_of (checkpoints st) (encoded key) of
               None \<Rightarrow> seq (publish_checkpoint E key) (ret (deferred_one r, obs))
             | Some cp \<Rightarrow>
                 if \<not> all_acknowledged (client E) st key acks (sc_commit cp) then ret (deferred_one r, obs)
                 else let obsolete = obsolete_ids n st key acks (sc_commit cp)
                   in if obsolete = [] then seq (modify_rt (drop_checkpoint key)) (ret (r, obs))
                      else ret (r, bt_insert (scope_id key)
                             (bset (unwrap_or [] (map_of obs (scope_id key)) @ obsolete)) obs))))"

section \<open>Compaction and collection\<close>

definition forget_commits :: "string list \<Rightarrow> runtime_state \<Rightarrow> runtime_state" where
  "forget_commits ids st = st\<lparr>commits := fold bt_remove ids (commits st)\<rparr>"

definition compact_scope ::
  "('l, 'r, 'k, 'd) env \<Rightarrow> maintenance_report \<Rightarrow> string \<times> string list \<Rightarrow> ('l, 'r, 'k, maintenance_report) op" where
  "compact_scope E r scoped_ids =
     (case scoped_ids of (scope, obsolete) \<Rightarrow>
        bind get_rt (\<lambda>st.
        let kept = filter (\<lambda>c. scope_id (cm_resource c) = scope \<and> cm_id c \<notin> set obsolete) (map snd (commits st))
        in bind (snapshot_generation E) (\<lambda>generation.
           seq (on_remote (r_compact (rem_of E) (scope_snapshot scope generation kept (cursors st) obsolete)))
          (seq (modify_rt (forget_commits obsolete))
          (seq (modify_rt (\<lambda>st. st\<lparr>checkpoints := filter (\<lambda>(_, cp). scope_id (sc_key cp) \<noteq> scope) (checkpoints st)\<rparr>))
          (ret (r\<lparr>mr_commits_deleted := mr_commits_deleted r + length obsolete\<rparr>)))))))"

definition live_hashes :: "runtime_state \<Rightarrow> string list" where
  "live_hashes st =
     bset (concat (map (\<lambda>c. case cm_change c of BinarySnapshot _ _ hs \<Rightarrow> hs | _ \<Rightarrow> []) (map snd (commits st))))"

definition collect_packs ::
  "('l, 'r, 'k, 'd) env \<Rightarrow> maintenance_report \<Rightarrow> ('l, 'r, 'k, maintenance_report) op" where
  "collect_packs E r =
     bind get_rt (\<lambda>st.
     bind (on_remote (r_lookup (rem_of E) (live_hashes st))) (\<lambda>locs.
     let live = set (map cl_pack locs)
     in bind (on_remote (r_list_packs (rem_of E))) (\<lambda>packs.
        let dead = filter (\<lambda>p. p \<notin> live) packs
        in if dead = [] then ret r
           else seq (on_remote (r_delete_packs (rem_of E) dead))
                  (ret (r\<lparr>mr_packs_deleted := length dead\<rparr>)))))"

definition empty_maintenance :: maintenance_report where
  "empty_maintenance = \<lparr>mr_resources = 0, mr_commits_deleted = 0, mr_deferred = 0, mr_packs_deleted = 0\<rparr>"

definition maintain ::
  "('l, 'r, 'k, 'd) env \<Rightarrow> u64 \<Rightarrow> string list \<Rightarrow> ('l, 'r, 'k, maintenance_report) op" where
  "maintain E n scopes =
     (if n = 0 then ret empty_maintenance
      else seq (refresh_remote E [])
          (bind get_rt (\<lambda>st.
           let keys = remote_keys scopes st
           in bind (on_remote (r_list_acks (rem_of E) keys)) (\<lambda>acks.
              bind (fold_m (maintain_resource E n acks) (empty_maintenance\<lparr>mr_resources := length keys\<rparr>, []) keys)
                (\<lambda>(r, obs).
              bind (fold_m (compact_scope E) r obs) (\<lambda>r.
              bind (collect_packs E r) (\<lambda>r.
              seq (save_state E) (ret r))))))))"

end
