(* ===== verification/Kept_State.thy ===== *)
theory Kept_State
  imports Maintain
begin

text \<open>
  One contract for everything the methods keep of the remembered and the stored state, whatever fails:
  a relation that survives each single update of the remembered state, a save and a close (locale
  \<open>kept_state\<close>) survives every run, resolution and rollback; one that also survives the updates of
  maintenance (\<open>compacted_state\<close>) survives \<^verbatim>\<open>maintain\<close> as well.
\<close>

section \<open>The remembered and the stored state\<close>

text \<open>A relation on the state behind the mutex and the state of the store, as one on worlds.\<close>

definition on_device ::
  "(runtime_state \<times> 'k \<Rightarrow> runtime_state \<times> 'k \<Rightarrow> bool) \<Rightarrow> ('l, 'r, 'k) world \<Rightarrow> ('l, 'r, 'k) world \<Rightarrow> bool"
  where
  "on_device R w w' \<longleftrightarrow> R (rt w, kw w) (rt w', kw w')"

named_theorems device_rules

lemma preorder_on_device: "preorder_rel R \<Longrightarrow> preorder_rel (on_device R)"
  by (auto simp: preorder_rel_def on_device_def reflp_def transp_def)

lemma steps_modify_keep_device [device_rules]:
  "preorder_rel R \<Longrightarrow> (\<And>w. rt (f w) = rt w \<and> kw (f w) = kw w) \<Longrightarrow> steps (on_device R) (modify f)"
  by (rule steps_modify) (simp add: on_device_def preorder_rel_refl)

lemma steps_modify_device: "(\<And>st k. R (st, k) (f st, k)) \<Longrightarrow> steps (on_device R) (modify_rt f)"
  unfolding modify_rt_def by (rule steps_modify) (simp add: on_device_def)

lemma steps_ports_device [device_rules]:
  assumes "preorder_rel R"
  shows "steps (on_device R) (on_remote m)" and "steps (on_device R) (on_local l)"
  using assms
  by (auto simp: steps_def on_remote_def on_local_def zoom_def on_device_def preorder_rel_refl split: prod.splits)

lemma steps_get_rt_device [device_rules]: "preorder_rel R \<Longrightarrow> steps (on_device R) get_rt"
  unfolding get_rt_def by (intro steps_gets preorder_on_device)

lemma steps_simple_device [device_rules]:
  assumes "preorder_rel R"
  shows "steps (on_device R) (now E)" and "steps (on_device R) (new_seed E)"
    and "steps (on_device R) (emit evs)" and "steps (on_device R) (emit_progress ev)"
    and "steps (on_device R) (io_error msg)"
    and "steps (on_device R) (tally f)" and "steps (on_device R) (fail_scope s)"
    and "steps (on_device R) (new_commit E key ps n ch)" and "steps (on_device R) (local_inventory E scopes)"
    and "steps (on_device R) (build_plan E scopes local)" and "steps (on_device R) (snapshot_generation E)"
    and "steps (on_device R) (apply_one E m no_result refused)"
    and "steps (on_device R) (content_for_remote E key sel)"
    and "steps (on_device R) (announce_download E run key change)" and "steps (on_device R) (collect_packs E r)"
  using assms preorder_on_device [OF assms]
  by (auto intro!: step_rules device_rules simp: now_def new_seed_def emit_def emit_progress_def io_error_def
      tally_def fail_scope_def new_commit_def local_inventory_def build_plan_def
      snapshot_generation_def apply_one_def content_for_remote_def announce_download_def collect_packs_def Let_def
      split: resource_change.splits prod.splits)

section \<open>The contract\<close>

locale kept_state =
  fixes R :: "runtime_state \<times> 'k \<Rightarrow> runtime_state \<times> 'k \<Rightarrow> bool"
    and E :: "('l, 'r, 'k, 'd) env"
  assumes preorder: "preorder_rel R"
    and commit_known: "R (st, k) (insert_commit c st, k)"
    and event_counted: "R (st, k) (count_event coverage st e, k)"
    and cursors_advanced: "R (st, k) (advance_cursors new st, k)"
    and counting_restarted: "R (st, k) (st\<lparr>events_since_snapshot := bt_insert scope n (events_since_snapshot st)\<rparr>, k)"
    and counter_drawn: "R (st, k) (st\<lparr>counter := i\<rparr>, k)"
    and baseline_present: "R (st, k) (set_present_baseline key content version hs operation st, k)"
    and baseline_deleted: "R (st, k) (set_deleted_baseline key hs operation st, k)"
    and conflict_recorded: "R (st, k) (st\<lparr>conflicts := bt_insert (cf_id record) record (conflicts st)\<rparr>, k)"
    and conflicts_cleared: "R (st, k) (clear_conflicts scopes st, k)"
    and conflict_dropped: "R (st, k) (st\<lparr>conflicts := bt_remove cid (conflicts st)\<rparr>, k)"
    and text_remembered: "R (st, k) (st\<lparr>text_states := bt_insert name full (text_states st)\<rparr>, k)"
    and kind_noted: "R (st, k) (st\<lparr>kinds := bt_insert name kind (kinds st)\<rparr>, k)"
    and journal_set: "R (st, k) (st\<lparr>active_run := run\<rparr>, k)"
    and client_retired: "R (st, k) (st\<lparr>retired_clients := bset (who # retired_clients st)\<rparr>, k)"
    and saved: "R (st, k) (st, snd (k_save (sto_of E) (enc_state E st) k))"
    and closed: "R (st, k) (st, snd (k_close (sto_of E) k))"
begin

lemma folded: "(\<And>st x. R (st, k) (f st x, k)) \<Longrightarrow> R (st, k) (foldl f st xs, k)"
  by (induction xs arbitrary: st)
     (auto intro: preorder_rel_refl [OF preorder] preorder_rel_trans [OF preorder])

lemma kinds_noted: "R (st, k) (note_kinds local st, k)"
proof -
  have "note_kinds local st
      = foldl (\<lambda>st r. st\<lparr>kinds := bt_insert (encoded (lr_key r)) (lr_kind r) (kinds st)\<rparr>) st local"
  proof (induction local arbitrary: st)
    case (Cons r local)
    then show ?case by (simp add: note_kinds_def flip: Cons.IH)
  qed (simp add: note_kinds_def)
  then show ?thesis by (simp add: folded kind_noted)
qed

lemmas state_laws = commit_known event_counted cursors_advanced counting_restarted counter_drawn
  baseline_present baseline_deleted conflict_recorded conflicts_cleared conflict_dropped text_remembered
  kind_noted journal_set client_retired kinds_noted folded

lemma steps_save: "steps (on_device R) (save_state E)"
  using saved
  by (simp add: steps_def save_state_def bind_def get_rt_apply on_store_def zoom_def on_device_def split_beta)

lemma steps_close: "steps (on_device R) (close_runtime E)"
  using closed by (simp add: steps_def close_runtime_def on_store_def zoom_def on_device_def split_beta)

lemmas kept_rules = step_rules device_rules [OF preorder] preorder_on_device [OF preorder]
  steps_modify_device state_laws steps_save steps_close

lemma refresh_remote: "steps (on_device R) (refresh_remote E scopes)"
  by (auto intro!: kept_rules simp: refresh_remote_def)

lemma snapshot_large_catalogs: "steps (on_device R) (snapshot_large_catalogs E)"
  by (auto intro!: kept_rules simp: snapshot_large_catalogs_def Let_def)

lemma publish:
  shows "steps (on_device R) (publish_bytes E key kind data parents)"
    and "steps (on_device R) (publish_delete E key parents)"
  by (auto intro!: kept_rules simp: publish_bytes_def publish_delete_def publish_change_def stage_binary_def
      stage_text_def next_counter_def Let_def split: resource_kind.splits prod.splits)

lemma register_plan: "steps (on_device R) (register_plan E scopes local plan run)"
  by (auto intro!: kept_rules simp: register_plan_def register_operation_def insert_conflict_def
      Let_def split: plan_operation.splits prod.splits)

lemma prepare_upload: "steps (on_device R) (prepare_upload E run contents acc op)"
  by (auto intro!: kept_rules simp: prepare_upload_def merge_upload_def merge_texts_def structured_conflict_def
      insert_conflict_def Let_def split: plan_operation.splits text_merge_result.splits prod.splits)

lemma construct_commit: "steps (on_device R) (construct_commit E contents acc op)"
  by (auto intro!: kept_rules simp: construct_commit_def upload_change_def text_upload_def next_counter_def
      Let_def split: plan_operation.splits prod.splits resource_kind.splits)

lemma finish_commit: "steps (on_device R) (finish_commit E run local kc)"
  by (auto intro!: kept_rules simp: finish_commit_def finish_text_upload_def Let_def
      split: resource_change.splits prod.splits)

lemma run_uploads: "steps (on_device R) (run_uploads E run local plan)"
  by (auto intro!: kept_rules prepare_upload construct_commit finish_commit
      simp: run_uploads_def transfer_def Let_def split: prod.splits)

lemma run_operation: "steps (on_device R) (run_operation E run local op)"
  by (auto intro!: kept_rules simp: run_operation_def run_download_def run_establish_def
      run_apply_delete_def remember_text_def Let_def split: plan_operation.splits resource_change.splits)

lemma execute: "steps (on_device R) (execute E scopes local plan run)"
  by (auto intro!: kept_rules register_plan run_uploads run_operation
      simp: execute_def finish_run_def guarded_operation_def Let_def)

lemma reconcile: "steps (on_device R) (reconcile E scopes)"
  by (auto intro!: kept_rules refresh_remote snapshot_large_catalogs execute
      simp: reconcile_def Let_def split: prod.splits)

lemma restore_commit: "steps (on_device R) (restore_commit E msgs key current selected i parents operation)"
  by (auto intro!: kept_rules publish simp: restore_commit_def settle_delete_def
      settle_bytes_def delete_unless_absent_def split: resource_change.splits)

lemma resolve_conflict: "steps (on_device R) (resolve_conflict E req)"
  by (auto intro!: kept_rules publish restore_commit
      simp: resolve_conflict_def conflict_gone_def preserve_version_def choose_primary_def read_local_side_def
        settle_delete_def settle_bytes_def delete_unless_absent_def Let_def
      split: version_choice.splits)

lemma resolve: "steps (on_device R) (resolve E req)"
  by (auto intro!: kept_rules resolve_conflict reconcile simp: resolve_def)

lemma rollback: "steps (on_device R) (rollback E key i)"
  by (auto intro!: kept_rules restore_commit reconcile simp: rollback_def rollback_to_def Let_def)

lemma preview: "steps (on_device R) (preview E scopes)"
proof -
  let ?m = "seq (refresh_remote E scopes) (bind (local_inventory E scopes) (build_plan E scopes))"
  have p: "preorder_rel (\<lambda>x y. snd y = (snd x :: 'k))" by (rule preorder_relI) auto
  have "steps (on_device (\<lambda>x y. snd y = (snd x :: 'k))) ?m"
    using preorder_on_device [OF p]
    by (auto intro!: step_rules device_rules [OF p] steps_modify_device simp: refresh_remote_def)
  then have "kw (snd (?m w)) = kw w" for w by (simp add: steps_def on_device_def)
  moreover have "preview E scopes w = (fst (?m w), snd (?m w)\<lparr>rt := rt w\<rparr>)" for w
    by (simp add: preview_def bind_Inr [OF get_rt_apply] split_beta)
  ultimately show ?thesis by (simp add: steps_def on_device_def preorder_rel_refl [OF preorder])
qed

lemma retire_client: "steps (on_device R) (retire_client E who)"
  by (auto intro!: kept_rules simp: retire_client_def)

lemmas methods = reconcile resolve rollback preview retire_client steps_close

end

section \<open>The contract with maintenance\<close>

locale compacted_state = kept_state +
  assumes checkpoint_set:
      "R (st, k) (st\<lparr>checkpoints := bt_insert (encoded key) \<lparr>sc_key = key, sc_commit = i\<rparr> (checkpoints st)\<rparr>, k)"
    and checkpoint_dropped: "R (st, k) (drop_checkpoint key st, k)"
    and checkpoints_filtered: "R (st, k) (st\<lparr>checkpoints := filter P (checkpoints st)\<rparr>, k)"
    and commits_forgotten: "R (st, k) (forget_commits ids st, k)"
begin

lemmas compaction_laws = checkpoint_set checkpoint_dropped checkpoints_filtered commits_forgotten

lemma maintain_resource: "steps (on_device R) (maintain_resource E n acks acc key)"
  by (auto intro!: kept_rules compaction_laws publish
      simp: maintain_resource_def publish_checkpoint_def Let_def
      split: prod.splits resource_change.splits)

lemma compact_scope: "steps (on_device R) (compact_scope E r scoped_ids)"
  by (auto intro!: kept_rules compaction_laws simp: compact_scope_def Let_def split: prod.splits)

lemma maintain: "steps (on_device R) (maintain E n scopes)"
  by (auto intro!: kept_rules refresh_remote maintain_resource compact_scope
      simp: maintain_def Let_def split: prod.splits)

end

end
