(* ===== verification/Progress.thy ===== *)
theory Progress
  imports Kept_State
begin

text \<open>
  Runs, resolutions and rollbacks only add to what is known: known commits stay known and stay filed
  under their ids, and cursors never move back. Only \<^verbatim>\<open>maintain\<close> may forget commits.
\<close>

section \<open>Progress\<close>

definition progress :: "runtime_state \<Rightarrow> runtime_state \<Rightarrow> bool" where
  "progress st st' \<longleftrightarrow>
     fst ` set (commits st) \<subseteq> fst ` set (commits st')
     \<and> (commits_ok st \<longrightarrow> commits_ok st')
     \<and> (\<forall>k. cursor_get (covered_by (cursors st)) k \<le> cursor_get (covered_by (cursors st')) k)"

lemma preorder_progress: "preorder_rel progress"
proof (rule preorder_relI)
  show "progress a c" if ab: "progress a b" and bc: "progress b c" for a b c
    unfolding progress_def
  proof (intro conjI allI)
    fix k
    have "cursor_get (covered_by (cursors a)) k \<le> cursor_get (covered_by (cursors b)) k"
      using ab by (simp add: progress_def del: split_paired_All)
    also have "\<dots> \<le> cursor_get (covered_by (cursors c)) k"
      using bc by (simp add: progress_def del: split_paired_All)
    finally show "cursor_get (covered_by (cursors a)) k \<le> cursor_get (covered_by (cursors c)) k" .
  qed (use ab bc in \<open>auto simp: progress_def\<close>)
qed (simp add: progress_def)

lemma progress_same: "commits st' = commits st \<Longrightarrow> cursors st' = cursors st \<Longrightarrow> progress st st'"
  by (simp add: progress_def commits_ok_def)

lemma progress_insert_commit: "progress st (insert_commit c st)"
proof -
  have "fst ` set (commits st) \<subseteq> fst ` set (commits (insert_commit c st))"
    by (auto simp: insert_commit_def)
  then show ?thesis using commits_ok_insert by (simp add: progress_def) (simp add: insert_commit_def)
qed

lemma progress_advance_cursors: "progress st (advance_cursors new st)"
proof -
  let ?m = "bumps (map (\<lambda>c. (cursor_key c, cu_counter c)) new) (covered_by (cursors st))"
  have "bt_ok ?m" by (rule bt_ok_bumps) (simp add: covered_by_def)
  then have "map_of (covered_by (cursors_of ?m)) = map_of ?m" by (rule covered_by_cursors_of)
  then have "cursor_get (covered_by (cursors (advance_cursors new st))) k = cursor_get ?m k" for k
    by (simp add: advance_cursors_def cursor_get_def)
  then show ?thesis using cursor_get_bumps_ge
    by (simp add: progress_def) (simp add: advance_cursors_def commits_ok_def)
qed

interpretation progressing: kept_state "\<lambda>x y. progress (fst x) (fst y)" E
  for E :: "('l, 'r, 'k, 'd) env"
proof unfold_locales
  show "preorder_rel (\<lambda>x y. progress (fst x) (fst y))"
    using preorder_progress by (auto simp: preorder_rel_def reflp_def transp_def)
  show "progress (fst (st, k)) (fst (insert_commit c st, k))" for st k c
    by (simp add: progress_insert_commit)
  show "progress (fst (st, k)) (fst (advance_cursors new st, k))" for st k new
    by (simp add: progress_advance_cursors)
qed (simp_all add: progress_same count_event_def set_present_baseline_def set_deleted_baseline_def
      clear_conflicts_def)

section \<open>Properties\<close>

text \<open>C15. No run, resolution or rollback forgets a commit, files one under a foreign id, or moves a
  catalog cursor back, on success and on every error alike.\<close>

theorem methods_only_progress:
  "progress (rt w) (rt (snd (reconcile E scopes w)))
    \<and> progress (rt w) (rt (snd (resolve E req w)))
    \<and> progress (rt w) (rt (snd (rollback E key i w)))"
  using progressing.reconcile [of E scopes] progressing.resolve [of E req] progressing.rollback [of E key i]
  by (simp add: steps_def on_device_def)

end
