(* ===== verification/Replica.thy ===== *)
theory Replica
  imports Reconcile
begin

text \<open>
  What a run may do to the local replica. \<open>guarded_replica\<close> is the contract of \<^verbatim>\<open>LocalReplica\<close> that a
  relation on replica states survives reading and every allowed mutation; inside it, every phase of
  \<^verbatim>\<open>execute\<close> is shown to issue allowed mutations only. It is interpreted on \<^verbatim>\<open>MemoryReplica\<close>, the
  replica of the tests in \<^verbatim>\<open>src/src/runtime.rs\<close>, whose mutations compare the version token.
\<close>

section \<open>Steps that leave the replica alone\<close>

definition on_lw :: "('l \<Rightarrow> 'l \<Rightarrow> bool) \<Rightarrow> ('l, 'r, 'k) world \<Rightarrow> ('l, 'r, 'k) world \<Rightarrow> bool" where
  "on_lw R w w' \<longleftrightarrow> R (lw w) (lw w')"

named_theorems lw_rules

lemma preorder_on_lw: "preorder_rel R \<Longrightarrow> preorder_rel (on_lw R)"
  by (auto simp: preorder_rel_def on_lw_def reflp_def transp_def)

lemma steps_modify_lw [lw_rules]:
  "preorder_rel R \<Longrightarrow> (\<And>w. lw (f w) = lw w) \<Longrightarrow> steps (on_lw R) (modify f)"
  by (rule steps_modify) (simp add: on_lw_def preorder_rel_refl)

lemma steps_modify_rt_lw [lw_rules]: "preorder_rel R \<Longrightarrow> steps (on_lw R) (modify_rt f)"
  unfolding modify_rt_def by (rule steps_modify_lw) simp_all

lemma steps_on_remote_lw [lw_rules]: "preorder_rel R \<Longrightarrow> steps (on_lw R) (on_remote m)"
  by (auto simp: steps_def on_remote_def zoom_def on_lw_def preorder_rel_refl split: prod.splits)

lemma steps_on_store_lw [lw_rules]: "preorder_rel R \<Longrightarrow> steps (on_lw R) (on_store m)"
  by (auto simp: steps_def on_store_def zoom_def on_lw_def preorder_rel_refl split: prod.splits)

lemma steps_on_local_lw: "steps R m \<Longrightarrow> steps (on_lw R) (on_local m)"
  by (auto simp: steps_def on_local_def zoom_def on_lw_def split: prod.splits) (metis snd_conv)

lemma steps_get_rt_lw [lw_rules]: "preorder_rel R \<Longrightarrow> steps (on_lw R) get_rt"
  unfolding get_rt_def by (intro steps_gets preorder_on_lw)

lemma steps_simple_lw [lw_rules]:
  assumes "preorder_rel R"
  shows "steps (on_lw R) (now E)" and "steps (on_lw R) (new_seed E)"
    and "steps (on_lw R) (emit evs)" and "steps (on_lw R) (emit_progress ev)"
    and "steps (on_lw R) (io_error msg)" and "steps (on_lw R) (save_state E)"
    and "steps (on_lw R) (tally f)" and "steps (on_lw R) (fail_scope s)"
    and "steps (on_lw R) next_counter" and "steps (on_lw R) (new_commit E key ps n ch)"
  using assms preorder_on_lw [OF assms]
  by (auto intro!: step_rules lw_rules simp: now_def new_seed_def emit_def emit_progress_def io_error_def
      save_state_def tally_def fail_scope_def next_counter_def new_commit_def)

section \<open>The contract\<close>

locale guarded_replica =
  fixes P :: "'l local_port"
    and R :: "'l \<Rightarrow> 'l \<Rightarrow> bool"
    and allowed :: "local_mutation \<Rightarrow> bool"
  assumes pre: "preorder_rel R"
    and list_law: "steps R (l_list P scopes)"
    and read_law: "steps R (l_read P keys)"
    and apply_law: "allowed m \<Longrightarrow> steps R (l_apply P [m])"
begin

lemma port_laws:
  assumes "loc_of E = P"
  shows "steps R (l_list (loc_of E) scopes)" and "steps R (l_read (loc_of E) keys)"
    and "allowed m \<Longrightarrow> steps R (l_apply (loc_of E) [m])"
  using assms list_law read_law apply_law by simp_all

lemmas frame = step_rules lw_rules [OF pre] steps_simple_lw [OF pre] preorder_on_lw [OF pre]
  steps_on_local_lw port_laws

lemma local_inventory_lw:
  "loc_of E = P \<Longrightarrow> steps (on_lw R) (local_inventory E scopes)"
  by (auto intro!: frame simp: local_inventory_def Let_def)

lemma build_plan_lw: "steps (on_lw R) (build_plan E scopes local)"
  by (auto intro!: frame simp: build_plan_def Let_def)

lemma register_plan_lw: "steps (on_lw R) (register_plan E scopes local plan run)"
  by (auto intro!: frame simp: register_plan_def register_operation_def insert_conflict_def Let_def
      split: plan_operation.splits prod.splits)

lemma merge_upload_lw: "steps (on_lw R) (merge_upload E run acc key loc content)"
  by (auto intro!: frame simp: merge_upload_def merge_texts_def structured_conflict_def insert_conflict_def
      Let_def split: text_merge_result.splits prod.splits)

lemma prepare_upload_lw: "steps (on_lw R) (prepare_upload E run contents acc op)"
  by (auto intro!: frame merge_upload_lw simp: prepare_upload_def split: plan_operation.splits)

lemma construct_commit_lw: "steps (on_lw R) (construct_commit E contents acc op)"
  by (auto intro!: frame simp: construct_commit_def upload_change_def text_upload_def Let_def
      split: plan_operation.splits prod.splits resource_kind.splits)

lemma apply_one_lw:
  "loc_of E = P \<Longrightarrow> allowed m \<Longrightarrow> steps (on_lw R) (apply_one E m no_result refused)"
  by (auto intro!: frame simp: apply_one_def)

definition allowed_writes :: "local_resource list \<Rightarrow> bool" where
  "allowed_writes local \<longleftrightarrow>
     (\<forall>key data. allowed (WritePresent key data (precondition (local_state_of local key))))"

lemma finish_commit_lw:
  assumes "loc_of E = P" and "allowed_writes local"
  shows "steps (on_lw R) (finish_commit E run local kc)"
proof -
  have "allowed (WritePresent key data (precondition (lr_state r)))" if "local_of local key = Some r" for key data r
    using assms(2) that by (auto simp: allowed_writes_def local_state_of_def dest!: spec [of _ key])
  then show ?thesis using assms(1)
    by (auto intro!: frame simp: finish_commit_def finish_text_upload_def Let_def
        split: resource_change.splits prod.splits)
qed

lemma run_uploads_lw:
  assumes "loc_of E = P" and "allowed_writes local"
  shows "steps (on_lw R) (run_uploads E run local plan)"
  using assms
  by (auto intro!: frame prepare_upload_lw construct_commit_lw finish_commit_lw
      simp: run_uploads_def transfer_def Let_def split: prod.splits)

lemma run_operation_lw:
  assumes "loc_of E = P" and "allowed_writes local"
    and "\<And>key loc hs. op = ApplyDelete key loc hs \<Longrightarrow> allowed (MutDelete key (precondition loc))"
  shows "steps (on_lw R) (run_operation E run local op)"
proof -
  have "allowed (WritePresent key data (precondition (local_state_of local key)))" for key data
    using assms(2) by (simp add: allowed_writes_def)
  then have "steps (on_lw R) (run_download E run local key remote)" for key remote
    using assms(1)
    by (auto intro!: frame apply_one_lw simp: run_download_def announce_download_def content_for_remote_def
        remember_text_def Let_def split: resource_change.splits)
  moreover have "steps (on_lw R) (run_establish E run key loc hs)" for key loc hs
    by (auto intro!: frame simp: run_establish_def remember_text_def)
  ultimately show ?thesis using assms(1,3)
    by (auto intro!: frame apply_one_lw simp: run_operation_def run_apply_delete_def
        split: plan_operation.splits)
qed

lemma execute_lw:
  assumes "loc_of E = P" and "allowed_writes local"
    and "\<And>key loc hs. ApplyDelete key loc hs \<in> set plan \<Longrightarrow> allowed (MutDelete key (precondition loc))"
  shows "steps (on_lw R) (execute E scopes local plan run)"
  using assms(1,2)
  by (auto intro!: frame register_plan_lw run_uploads_lw run_operation_lw assms(3)
      simp: execute_def finish_run_def guarded_operation_def Let_def)

end

section \<open>The memory replica\<close>

type_synonym files = "(resource_key \<times> bytes \<times> nat) list"

definition memory_list :: "crypto \<Rightarrow> string list \<Rightarrow> (files, sync_error, local_resource list) rm" where
  "memory_list cr scopes = (\<lambda>fs.
     (Inr (map (\<lambda>(key, data, version). \<lparr>lr_key = key, lr_kind = Binary,
              lr_state = LocalPresent (blake3_hex cr data) (word_of_nat (length data)) (decimal version)\<rparr>)
         (filter (\<lambda>(key, _). scoped scopes (scope_id key)) fs)), fs))"

definition memory_read :: "resource_key list \<Rightarrow> (files, sync_error, resource_content list) rm" where
  "memory_read keys = (\<lambda>fs.
     (Inr (List.map_filter (\<lambda>key. map_option (\<lambda>(data, version).
        \<lparr>rc_key = key, rc_kind = Binary, rc_version = decimal version, rc_data = data\<rparr>) (map_of fs key)) keys), fs))"

fun mutation_key :: "local_mutation \<Rightarrow> resource_key" where
  "mutation_key (WritePresent key _ _) = key"
| "mutation_key (MutDelete key _) = key"
| "mutation_key (CreateCopy key _) = key"

definition pre_holds :: "mutation_precondition \<Rightarrow> (bytes \<times> nat) option \<Rightarrow> bool" where
  "pre_holds p file = (case p of
       PreMissing \<Rightarrow> file = None
     | PreVersion t \<Rightarrow> (case file of None \<Rightarrow> False | Some (_, version) \<Rightarrow> decimal version = t))"

fun mutation_matches :: "local_mutation \<Rightarrow> (bytes \<times> nat) option \<Rightarrow> bool" where
  "mutation_matches (WritePresent _ _ p) file = pre_holds p file"
| "mutation_matches (MutDelete _ p) file = pre_holds p file"
| "mutation_matches (CreateCopy _ _) file = (file = None)"

definition memory_apply_one :: "local_mutation \<Rightarrow> files \<Rightarrow> local_apply_result \<times> files" where
  "memory_apply_one m fs =
     (let key = mutation_key m; file = map_of fs key
      in if \<not> mutation_matches m file then
           (\<lparr>ar_key = key, ar_status = PreconditionFailed, ar_version = None, ar_error = None\<rparr>, fs)
         else let version = (case file of None \<Rightarrow> 1 | Some (_, v) \<Rightarrow> v + 1)
           in (\<lparr>ar_key = key, ar_status = Applied, ar_version = Some (decimal version), ar_error = None\<rparr>,
               case m of
                 WritePresent _ data _ \<Rightarrow> bt_insert key (data, version) fs
               | CreateCopy _ data \<Rightarrow> bt_insert key (data, version) fs
               | MutDelete _ _ \<Rightarrow> bt_remove key fs))"

fun memory_apply :: "local_mutation list \<Rightarrow> (files, sync_error, local_apply_result list) rm" where
  "memory_apply [] fs = (Inr [], fs)"
| "memory_apply (m # ms) fs =
     (let (r, fs') = memory_apply_one m fs
      in case memory_apply ms fs' of
           (Inr rs, fs'') \<Rightarrow> (Inr (r # rs), fs'')
         | (Inl e, fs'') \<Rightarrow> (Inl e, fs''))"

definition memory_port :: "crypto \<Rightarrow> files local_port" where
  "memory_port cr = \<lparr>l_list = memory_list cr, l_read = memory_read, l_apply = memory_apply\<rparr>"

text \<open>A resource is stale for an inventory when its file is no longer in the inventoried version.\<close>

definition stale :: "local_resource list \<Rightarrow> files \<Rightarrow> resource_key \<Rightarrow> bool" where
  "stale local fs key \<longleftrightarrow> \<not> pre_holds (precondition (local_state_of local key)) (map_of fs key)"

definition keeps_stale :: "local_resource list \<Rightarrow> files \<Rightarrow> files \<Rightarrow> bool" where
  "keeps_stale local fs fs' \<longleftrightarrow> (\<forall>key. stale local fs key \<longrightarrow> map_of fs' key = map_of fs key)"

definition from_inventory :: "local_resource list \<Rightarrow> local_mutation \<Rightarrow> bool" where
  "from_inventory local m = (case m of
       WritePresent key _ p \<Rightarrow> p = precondition (local_state_of local key)
     | MutDelete key p \<Rightarrow> p = precondition (local_state_of local key)
     | CreateCopy _ _ \<Rightarrow> False)"

lemma memory_apply_one_keeps_stale:
  assumes "from_inventory local m" shows "keeps_stale local fs (snd (memory_apply_one m fs))"
  using assms
  by (cases m) (auto simp: keeps_stale_def stale_def memory_apply_one_def from_inventory_def Let_def)

interpretation memory: guarded_replica "memory_port cr" "keeps_stale local" "from_inventory local"
  for cr :: crypto and local :: "local_resource list"
proof
  show "preorder_rel (keeps_stale local)"
    by (rule preorder_relI) (auto simp: keeps_stale_def stale_def)
  show "steps (keeps_stale local) (l_list (memory_port cr) scopes)" for scopes
    by (simp add: steps_def memory_port_def memory_list_def keeps_stale_def)
  show "steps (keeps_stale local) (l_read (memory_port cr) keys)" for keys
    by (simp add: steps_def memory_port_def memory_read_def keeps_stale_def)
  show "steps (keeps_stale local) (l_apply (memory_port cr) [m])" if "from_inventory local m" for m
    using memory_apply_one_keeps_stale [OF that]
    by (simp add: steps_def memory_port_def split: prod.splits) (metis snd_conv)
qed

end
