(* ===== verification/Backends.thy ===== *)
theory Backends
  imports Replica Maintain Folder_Scan
begin

text \<open>
  The runtime over the repository's own backends: the folder remote, the redb store and the memory
  replica as ports, and what the methods guarantee on them. \<open>demo_env\<close> and \<open>demo_world\<close> are the
  concrete instance of the witnesses.
\<close>

section \<open>The ports\<close>

definition folder_port :: "crypto \<Rightarrow> folder_codec \<Rightarrow> fs remote_port" where
  "folder_port cr cd =
     \<lparr>r_scan = folder_scan_catalog cd, r_load = folder_load_commits cr cd,
      r_commit = folder_commit_batch cr cd, r_lookup = folder_lookup_chunks cd,
      r_read = folder_read_ranges cr, r_write_acks = folder_write_acknowledgements cr cd,
      r_list_acks = folder_list_acknowledgements cd, r_list_packs = folder_list_pack_ids,
      r_delete_packs = folder_delete_pack_objects, r_compact = folder_compact_catalog cr cd\<rparr>"

definition redb_port :: "redb_store store_port" where
  "redb_port = \<lparr>k_load = redb_load, k_save = redb_save, k_close = redb_close\<rparr>"

definition demo_env :: "(files, fs, redb_store, ustr) env" where
  "demo_env =
     \<lparr>client = ''me'', crypt = demo_crypto, yrs_of = demo_yrs, cdc_of = demo_cdc, clock = (\<lambda>_. 5),
      seeds = (\<lambda>_. 0), policy = None, enc_state = (\<lambda>_. []), dec_state = (\<lambda>_. Inr default_state),
      enc_pack_index = (\<lambda>_. []), utf8_message = (\<lambda>_. []), loc_of = memory_port demo_crypto,
      rem_of = folder_port demo_crypto demo_codec, sto_of = redb_port\<rparr>"

definition demo_world :: "runtime_state \<Rightarrow> files \<Rightarrow> fs \<Rightarrow> (files, fs, redb_store) world" where
  "demo_world st files tree =
     \<lparr>rt = st, lw = files, rw = tree, kw = redb_open None, tick = 0, out = [],
      report = empty_report [], failed = (\<lambda>_. 0), run_events = []\<rparr>"

lemma folder_port_simps [simp]:
  "r_scan (folder_port cr cd) = folder_scan_catalog cd" "r_load (folder_port cr cd) = folder_load_commits cr cd"
  "r_commit (folder_port cr cd) = folder_commit_batch cr cd" "r_lookup (folder_port cr cd) = folder_lookup_chunks cd"
  "r_read (folder_port cr cd) = folder_read_ranges cr" "r_list_packs (folder_port cr cd) = folder_list_pack_ids"
  "r_delete_packs (folder_port cr cd) = folder_delete_pack_objects"
  by (simp_all add: folder_port_def)

section \<open>Stale files survive a run\<close>

lemma plan_resource_ApplyDelete:
  "plan_resource cr t key loc baseline rem = ApplyDelete k l hs \<Longrightarrow> k = key \<and> l = loc"
  by (auto simp: plan_resource_def Let_def split: remote_state.splits replica_state.splits
      option.splits baseline_state.splits if_splits)

lemma bt_collect_local_state:
  "unwrap_or LocalMissing (map_of (rev (map (\<lambda>r. (lr_key r, lr_state r)) local)) key)
     = local_state_of local key"
proof -
  have "map_of (rev (map (\<lambda>r. (lr_key r, lr_state r)) local)) key
      = map_option lr_state (map_of (rev (map (\<lambda>r. (lr_key r, r)) local)) key)"
    by (induction local rule: rev_induct) auto
  then show ?thesis
    by (auto simp: local_state_of_def local_of_def hm_collect_def split: option.splits)
qed

lemma plan_inventory_ApplyDelete:
  assumes "ApplyDelete key loc hs \<in> set (plan_inventory cr t (map (\<lambda>r. (lr_key r, lr_state r)) local) bs rem)"
  shows "loc = local_state_of local key"
  using assms
  by (auto simp: plan_inventory_def Let_def in_set_enumerate_eq bt_collect_local_state
      dest!: plan_resource_ApplyDelete [OF sym])

lemma build_plan_ApplyDelete:
  assumes "build_plan E scopes local w = (Inr plan, w')" and "ApplyDelete key loc hs \<in> set plan"
  shows "loc = local_state_of local key"
proof -
  have conv: "ApplyDelete key loc hs \<in> set (map (text_conflict_to_upload local) ops) \<Longrightarrow>
      ApplyDelete key loc hs \<in> set ops" for ops
    by (auto simp: text_conflict_to_upload_def split: plan_operation.splits if_splits option.splits)
  from assms(1) obtain t bs rem ops where
    ops: "ops = plan_inventory (crypt E) t (map (\<lambda>r. (lr_key r, lr_state r)) local) bs rem"
    and plan: "set plan = set (map (text_conflict_to_upload local) ops)"
    by (auto simp: build_plan_def bind_eq_Inr seq_eq_Inr Let_def split: option.splits)
  from assms(2) plan have "ApplyDelete key loc hs \<in> set (map (text_conflict_to_upload local) ops)" by simp
  from plan_inventory_ApplyDelete [OF conv [OF this, unfolded ops]] show ?thesis .
qed

text \<open>C7. A run never touches a file that changed after the inventory: whatever the plan, the remote and
  the failures, a file whose version is not the inventoried one has the same bytes and version after
  \<^verbatim>\<open>execute\<close>.\<close>

theorem execute_keeps_stale_files:
  assumes "loc_of E = memory_port cr" and "build_plan E scopes local w = (Inr plan, w1)"
    and "stale local (lw w1) key"
  shows "map_of (lw (snd (execute E scopes local plan run w1))) key = map_of (lw w1) key"
proof -
  have "steps (on_lw (keeps_stale local)) (execute E scopes local plan run)"
    by (rule memory.execute_lw [OF assms(1)])
       (auto simp: memory.allowed_writes_def from_inventory_def dest: build_plan_ApplyDelete [OF assms(2)])
  then show ?thesis using assms(3) by (auto simp: steps_def on_lw_def keeps_stale_def)
qed

definition demo_files :: files where
  "demo_files = [(demo_key, [1], 1)]"

lemma demo_plan:
  "build_plan demo_env [''s''] [] (demo_world default_state demo_files []) =
     (Inr [], (demo_world default_state demo_files [])\<lparr>tick := 1\<rparr>)"
  by (simp add: build_plan_def bind_def seq_def get_rt_def new_seed_def Let_def demo_env_def demo_world_def
      remote_pairs_def remote_keys_def default_state_def bset_def baseline_pairs_def plan_inventory_def
      inventory_keys_def bt_collect_def)

theorem execute_keeps_stale_files_witness:
  "map_of (lw (snd (execute demo_env [''s''] [] [] ''run''
     ((demo_world default_state demo_files [])\<lparr>tick := 1\<rparr>)))) demo_key = Some ([1], 1)"
proof -
  have "stale [] (lw ((demo_world default_state demo_files [])\<lparr>tick := 1\<rparr>)) demo_key"
    by (simp add: stale_def pre_holds_def precondition_def local_state_of_def local_of_def hm_collect_def
        version_token_def demo_world_def demo_files_def)
  from execute_keeps_stale_files [OF _ demo_plan this]
  show ?thesis by (simp add: demo_env_def) (simp add: demo_world_def demo_files_def)
qed

end
