(* ===== verification/Contents.thy ===== *)
theory Contents
  imports Backends
begin

text \<open>
  The contents of binary versions over the folder remote: what \<^verbatim>\<open>publish_bytes\<close> publishes,
  \<^verbatim>\<open>content_for_remote\<close> reads back, and the collection at the end of \<^verbatim>\<open>maintain\<close> leaves readable.
\<close>

section \<open>Publishing over the folder\<close>

definition over_folder :: "('l, fs, 'k, 'd) env \<Rightarrow> folder_codec \<Rightarrow> bool" where
  "over_folder E cd \<longleftrightarrow> rem_of E = folder_port (crypt E) cd \<and> enc_pack_index E = enc_index cd"

definition new_chunks_of :: "('l, fs, 'k, 'd) env \<Rightarrow> folder_codec \<Rightarrow> fs \<Rightarrow> bytes \<Rightarrow> chunk list" where
  "new_chunks_of E cd fs data =
     filter (\<lambda>(c, _). ci_hash c \<notin> indexed_hashes cd fs) (chunk_data (crypt E) (cdc_of E) data)"

lemma stage_binary_folder:
  assumes "over_folder E cd" and "packs_ok (crypt E) cd (rw w)"
  shows "stage_binary E data w =
    (Inr (BinarySnapshot (blake3_hex (crypt E) data) (word_of_nat (length data))
            (manifest (crypt E) (cdc_of E) data),
          build_packs (crypt E) (new_chunks_of E cd (rw w) data)), w)"
proof -
  let ?chunks = "chunk_data (crypt E) (cdc_of E) data"
  from assms(2) obtain ls where ls: "lookup_chunks_fs cd (map (\<lambda>(c, _). ci_hash c) ?chunks) (rw w) = Inr ls"
    "set (map cl_hash ls) = set (map (\<lambda>(c, _). ci_hash c) ?chunks) \<inter> indexed_hashes cd (rw w)"
    by (rule lookup_chunks_ok) blast
  have "filter (\<lambda>(c, _). ci_hash c \<notin> cl_hash ` set ls) ?chunks = new_chunks_of E cd (rw w) data"
    unfolding new_chunks_of_def using ls(2) by (intro filter_cong) auto
  then show ?thesis using assms(1) ls(1)
    by (simp add: stage_binary_def bind_def on_remote_def zoom_def over_folder_def folder_lookup_chunks_def
        Let_def manifest_def case_prod_unfold)
qed

lemma new_chunks_publishes:
  assumes "cdc_tiles (cdc_of E)" and "packs_storable cd (build_packs (crypt E) (new_chunks_of E cd fs data)) fs"
    and "cb_packs b = pack_objects (build_packs (crypt E) (new_chunks_of E cd fs data))"
    and "cb_indexes b = index_objects (enc_index cd) (build_packs (crypt E) (new_chunks_of E cd fs data))"
  shows "publishes (crypt E) cd (new_chunks_of E cd fs data) b fs"
proof -
  have "chunks_small (new_chunks_of E cd fs data)"
    using chunk_data_small [OF assms(1), of "crypt E" data]
    by (auto simp: chunks_small_def new_chunks_of_def)
  moreover have "\<forall>(i, bs) \<in> set (new_chunks_of E cd fs data). ci_hash i = blake3_hex (crypt E) bs"
    using chunk_data_hashed [of "crypt E" "cdc_of E" data] by (auto simp: new_chunks_of_def)
  ultimately show ?thesis using assms(2-4) by (simp add: publishes_def)
qed

text \<open>One publication, taken apart: the commit, the batch it is in, and the state and tree after it.\<close>

definition version_of ::
  "('l, 'r, 'k, 'd) env \<Rightarrow> resource_key \<Rightarrow> string list \<Rightarrow> bytes \<Rightarrow> ('l, 'r, 'k) world \<Rightarrow> commit" where
  "version_of E key parents data w =
     commit_create (crypt E) (now_millis (clock E (tick w))) key parents (client E) (counter (rt w) + 1)
       (BinarySnapshot (blake3_hex (crypt E) data) (word_of_nat (length data)) (manifest (crypt E) (cdc_of E) data))"

lemma version_of_simps [simp]:
  "cm_resource (version_of E key parents data w) = key"
  "cm_parents (version_of E key parents data w) = bset parents"
  "cm_change (version_of E key parents data w) = BinarySnapshot (blake3_hex (crypt E) data)
     (word_of_nat (length data)) (manifest (crypt E) (cdc_of E) data)"
  "cm_author (version_of E key parents data w) = client E"
  "cm_counter (version_of E key parents data w) = counter (rt w) + 1"
  by (simp_all add: version_of_def)

lemma publish_bytes_folder:
  assumes "over_folder E cd" and "packs_ok (crypt E) cd (rw w)" and "cdc_tiles (cdc_of E)"
    and "inj (blake3_hex (crypt E))"
    and "packs_storable cd (build_packs (crypt E) (new_chunks_of E cd (rw w) data)) (rw w)"
  obtains c b w' where "publish_bytes E key Binary data parents w = (Inr c, w')"
    and "cb_commits b = [c]" and "rw w' = batched (crypt E) cd b (rw w)"
    and "map_of (commits (rt w')) (cm_id c) = Some c"
    and "c = version_of E key parents data w"
    and "packs_ok (crypt E) cd (rw w')"
    and "fetch_manifest (folder_lookup_chunks cd) (folder_read_ranges (crypt E))
      (manifest (crypt E) (cdc_of E) data) (rw w') = (Inr data, rw w')"
proof -
  let ?packs = "build_packs (crypt E) (new_chunks_of E cd (rw w) data)"
  define w1 where "w1 = w\<lparr>rt := (rt w)\<lparr>counter := counter (rt w) + 1\<rparr>\<rparr>"
  define change where "change = BinarySnapshot (blake3_hex (crypt E) data) (word_of_nat (length data))
    (manifest (crypt E) (cdc_of E) data)"
  define c where "c = commit_create (crypt E) (now_millis (clock E (tick w1))) key parents (client E)
    (counter (rt w) + 1) change"
  define b where "b = \<lparr>cb_commits = [c], cb_packs = pack_objects ?packs,
    cb_indexes = index_objects (enc_index cd) ?packs\<rparr>"
  define w2 where "w2 = w1\<lparr>tick := Suc (tick w1), rw := batched (crypt E) cd b (rw w),
    rt := insert_commit c (rt w1)\<rparr>"
  have rw1: "rw w1 = rw w" by (simp add: w1_def)
  have pub: "publishes (crypt E) cd (new_chunks_of E cd (rw w) data) b (rw w)"
    by (rule new_chunks_publishes [OF assms(3,5)]) (simp_all add: b_def)
  have stage: "stage_binary E data w1 = (Inr (change, ?packs), w1)"
    using stage_binary_folder [OF assms(1), of w1 data] assms(2) unfolding rw1 change_def by simp
  have batch: "r_commit (rem_of E) \<lparr>cb_commits = [c], cb_packs = pack_objects ?packs,
      cb_indexes = index_objects (enc_pack_index E) ?packs\<rparr> (rw w1)
      = (Inr [cm_id c], batched (crypt E) cd b (rw w))"
    using assms(1) unfolding rw1 by (simp add: over_folder_def folder_commit_batch_def b_def)
  have rest: "set (manifest (crypt E) (cdc_of E) data)
      \<subseteq> set (chunk_hashes (new_chunks_of E cd (rw w) data)) \<union> indexed_hashes cd (rw w)"
    by (auto simp: manifest_def chunk_hashes_def new_chunks_of_def)
  show ?thesis
  proof (rule that [of c w2 b])
    have "publish_bytes E key Binary data parents w
        = publish_change E key parents (counter (rt w) + 1) (change, ?packs) w1"
      by (simp add: publish_bytes_def bind_def next_counter_apply w1_def [symmetric] stage)
    also have "\<dots> = (Inr c, w2)" unfolding w2_def by (rule publish_change_apply [OF c_def batch])
    finally show "publish_bytes E key Binary data parents w = (Inr c, w2)" .
    show "packs_ok (crypt E) cd (rw w2)" unfolding w2_def using publication_ok [OF pub assms(2)] by simp
    show "fetch_manifest (folder_lookup_chunks cd) (folder_read_ranges (crypt E))
        (manifest (crypt E) (cdc_of E) data) (rw w2) = (Inr data, rw w2)"
      unfolding w2_def using publish_fetch [OF assms(2-4) pub rest] by simp
  qed (simp_all add: b_def c_def change_def w1_def w2_def insert_commit_def version_of_def)
qed

lemma content_of_snapshot:
  assumes "over_folder E cd" and "map_of (commits (rt w)) i = Some c" and "cm_change c = BinarySnapshot x n hs"
  shows "content_for_remote E key (Some i) w =
    (case fetch_manifest (folder_lookup_chunks cd) (folder_read_ranges (crypt E)) hs (rw w) of
       (r, s) \<Rightarrow> (r, w\<lparr>rw := s\<rparr>))"
  using assms
  by (simp add: content_for_remote_def bind_def get_rt_apply over_folder_def on_remote_def zoom_def)

section \<open>Properties\<close>

text \<open>C20. Publishing then reading is the identity: over a consistent folder, \<^verbatim>\<open>publish_bytes\<close> of binary
  data succeeds with a commit on the given parents, \<^verbatim>\<open>content_for_remote\<close> of that commit returns
  exactly the data, and the folder stays consistent.\<close>

theorem publish_bytes_content_round_trip:
  assumes "over_folder E cd" and "packs_ok (crypt E) cd (rw w)" and "cdc_tiles (cdc_of E)"
    and "inj (blake3_hex (crypt E))"
    and "packs_storable cd (build_packs (crypt E) (new_chunks_of E cd (rw w) data)) (rw w)"
  shows "\<exists>c w'. publish_bytes E key Binary data parents w = (Inr c, w')
    \<and> cm_resource c = key \<and> cm_parents c = bset parents
    \<and> map_of (commits (rt w')) (cm_id c) = Some c
    \<and> packs_ok (crypt E) cd (rw w')
    \<and> content_for_remote E key (Some (cm_id c)) w' = (Inr data, w')"
proof -
  obtain c b w' where "publish_bytes E key Binary data parents w = (Inr c, w')"
    and "map_of (commits (rt w')) (cm_id c) = Some c" and "c = version_of E key parents data w"
    and "packs_ok (crypt E) cd (rw w')"
    and "fetch_manifest (folder_lookup_chunks cd) (folder_read_ranges (crypt E))
      (manifest (crypt E) (cdc_of E) data) (rw w') = (Inr data, rw w')"
    by (rule publish_bytes_folder [OF assms])
  then show ?thesis by (auto simp: content_of_snapshot [OF assms(1)])
qed

lemma demo_over_folder: "over_folder demo_env demo_codec"
  by (simp add: over_folder_def demo_env_def demo_codec_def const_codec_def)

lemma demo_new_chunks: "new_chunks_of demo_env demo_codec [] [7] = [demo_file_chunk]"
  by (simp add: new_chunks_of_def demo_env_def demo_file_chunks no_indexes demo_file_chunk_def)

theorem publish_bytes_content_round_trip_witness:
  "\<exists>c w'. publish_bytes demo_env demo_key Binary [7] [] (demo_world default_state [] []) = (Inr c, w')
     \<and> content_for_remote demo_env demo_key (Some (cm_id c)) w' = (Inr [7], w')"
proof -
  have cr: "crypt demo_env = demo_crypto" and cdc: "cdc_of demo_env = demo_cdc"
    and rw: "rw (demo_world default_state [] []) = []"
    by (simp_all add: demo_env_def demo_world_def)
  have "packs_ok demo_crypto demo_codec []" by (simp add: packs_ok_def files_recursive_def)
  moreover have "packs_storable demo_codec (build_packs demo_crypto [demo_file_chunk]) []"
    using demo_publishes by (simp add: publishes_def)
  ultimately show ?thesis
    using publish_bytes_content_round_trip [OF demo_over_folder, of "demo_world default_state [] []" "[7]" demo_key "[]"]
      cdc_tiles_demo demo_hash_inj
    unfolding cr cdc rw demo_new_chunks by blast
qed

section \<open>Collecting packs\<close>

lemma collect_packs_folder:
  assumes "over_folder E cd" and "packs_ok (crypt E) cd (rw w)"
  obtains ls dead r' where "lookup_chunks_fs cd (live_hashes (rt w)) (rw w) = Inr ls"
    and "set dead \<inter> cl_pack ` set ls = {}"
    and "collect_packs E r w = (Inr r', w\<lparr>rw := delete_packs_fs dead (rw w)\<rparr>)"
proof -
  from assms(2) obtain ls where ls: "lookup_chunks_fs cd (live_hashes (rt w)) (rw w) = Inr ls"
    by (rule lookup_chunks_ok) blast
  define dead where "dead = filter (\<lambda>p. p \<notin> cl_pack ` set ls) (map last (files_recursive (rw w) packs_dir))"
  have "set dead \<inter> cl_pack ` set ls = {}" by (auto simp: dead_def)
  moreover have "\<exists>r'. collect_packs E r w = (Inr r', w\<lparr>rw := delete_packs_fs dead (rw w)\<rparr>)"
    using assms(1) ls
    by (cases "dead = []")
       (simp_all add: collect_packs_def bind_def seq_def get_rt_apply on_remote_def zoom_def over_folder_def
          folder_lookup_chunks_def folder_list_pack_ids_def folder_delete_pack_objects_def Let_def
          dead_def [symmetric] delete_packs_fs_def)
  ultimately show ?thesis using ls that by blast
qed

lemma live_hashes_mem:
  "map_of (commits st) i = Some c \<Longrightarrow> cm_change c = BinarySnapshot x n hs \<Longrightarrow> set hs \<subseteq> set (live_hashes st)"
  by (force simp: live_hashes_def dest: map_of_SomeD)

text \<open>C14. The collection step of maintenance succeeds and is safe: afterwards the folder is consistent
  and every known binary version whose chunks were present still reads back with the same bytes.\<close>

theorem collect_packs_keeps_versions:
  assumes "over_folder E cd" and "packs_ok (crypt E) cd (rw w)" and "inj (blake3_hex (crypt E))"
  shows "\<exists>r' w'. collect_packs E r w = (Inr r', w') \<and> packs_ok (crypt E) cd (rw w')
    \<and> (\<forall>key i c x n hs. map_of (commits (rt w)) i = Some c \<longrightarrow> cm_change c = BinarySnapshot x n hs \<longrightarrow>
         set hs \<subseteq> indexed_hashes cd (rw w) \<longrightarrow>
         fst (content_for_remote E key (Some i) w') = fst (content_for_remote E key (Some i) w))"
proof -
  from assms(1,2) obtain ls dead r' where ls: "lookup_chunks_fs cd (live_hashes (rt w)) (rw w) = Inr ls"
    and dead: "set dead \<inter> cl_pack ` set ls = {}"
    and run: "collect_packs E r w = (Inr r', w\<lparr>rw := delete_packs_fs dead (rw w)\<rparr>)"
    by (rule collect_packs_folder [where r = r])
  let ?fs = "delete_packs_fs dead (rw w)"
  have ok: "packs_ok (crypt E) cd ?fs" by (rule delete_packs_ok [OF assms(2)])
  have "fst (content_for_remote E key (Some i) (w\<lparr>rw := ?fs\<rparr>)) = fst (content_for_remote E key (Some i) w)"
    if c: "map_of (commits (rt w)) i = Some c" "cm_change c = BinarySnapshot x n hs"
      and hs: "set hs \<subseteq> indexed_hashes cd (rw w)" for key i c x n hs
  proof -
    let ?fetch = "fetch_manifest (folder_lookup_chunks cd) (folder_read_ranges (crypt E)) hs"
    obtain ds where ds: "?fetch (rw w) = (Inr (concat ds), rw w)" "map (blake3_hex (crypt E)) ds = hs"
      by (rule folder.fetch_stored [OF assms(2) hs])
    have "set hs \<subseteq> indexed_hashes cd ?fs"
      using gc_keeps_live [OF assms(2) ls dead] live_hashes_mem [OF c] hs by blast
    from folder.fetch_exact [OF ok assms(3) ds(2) this] ds(1)
    show ?thesis using c by (simp add: content_of_snapshot [OF assms(1)])
  qed
  with run ok show ?thesis by auto
qed

definition demo_snapshot :: commit where
  "demo_snapshot = \<lparr>cm_id = ''a:1:'', cm_resource = demo_key, cm_parents = [], cm_author = ''a'',
     cm_counter = 1, cm_timestamp = 5, cm_change = BinarySnapshot [CHR 0x07] 1 [[CHR 0x07]]\<rparr>"

theorem collect_packs_keeps_versions_witness:
  "\<exists>r' w'. collect_packs demo_env empty_maintenance
     (demo_world (insert_commit demo_snapshot default_state) [] demo_tree) = (Inr r', w')
     \<and> packs_ok demo_crypto demo_codec (rw w')"
proof -
  have "crypt demo_env = demo_crypto" by (simp add: demo_env_def)
  then show ?thesis
    using collect_packs_keeps_versions [OF demo_over_folder, of
        "demo_world (insert_commit demo_snapshot default_state) [] demo_tree" empty_maintenance]
      demo_tree_ok demo_hash_inj by (auto simp: demo_world_def)
qed

end
