(* ===== verification/Demo_Run.thy ===== *)
theory Demo_Run
  imports Backends
begin

text \<open>
  One complete run evaluated: \<open>reconcile\<close> of the demo environment over an empty folder and an empty
  replica. It is the concrete input of the witnesses about whole runs.
\<close>

definition idle :: "(files, fs, redb_store) world \<Rightarrow> bool" where
  "idle w \<longleftrightarrow> rt w = default_state \<and> lw w = [] \<and> rw w = [] \<and> db_handle (kw w) \<noteq> None"

lemma demo_scan: "scan_catalog_fs demo_codec scopes [] [] =
    Inr \<lparr>cd_events = [], cd_cursors = [], cd_snapshot_cursors = []\<rparr>"
  by (simp add: scan_catalog_fs_def load_snapshots_def read_segments_def files_recursive_def cursors_of_def
      covered_by_def bt_collect_def Let_def)

lemma idle_refresh: "idle w \<Longrightarrow> refresh_remote demo_env scopes w = (Inr (), w)"
  by (simp add: refresh_remote_def bind_def seq_def get_rt_apply modify_rt_apply on_remote_def zoom_def
      idle_def demo_env_def folder_scan_catalog_def demo_scan missing_commits_def folder_load_commits_def
      advance_cursors_def default_state_def bumps_def cursors_of_def covered_by_def bt_collect_def)

lemma idle_inventory: "idle w \<Longrightarrow> local_inventory demo_env scopes w = (Inr [], w)"
  by (simp add: local_inventory_def bind_def get_rt_apply on_local_def zoom_def idle_def demo_env_def
      memory_port_def memory_list_def)

lemma idle_build_plan: "idle w \<Longrightarrow> build_plan demo_env scopes [] w = (Inr [], w\<lparr>tick := Suc (tick w)\<rparr>)"
  by (simp add: build_plan_def bind_def seq_def get_rt_def new_seed_def Let_def demo_env_def idle_def
      remote_pairs_def remote_keys_def default_state_def bset_def baseline_pairs_def plan_inventory_def
      inventory_keys_def bt_collect_def)

lemma idle_snapshot: "idle w \<Longrightarrow> snapshot_large_catalogs demo_env w = (Inr (), w)"
  by (simp add: snapshot_large_catalogs_def bind_def get_rt_apply idle_def default_state_def)

lemma idle_execute:
  assumes "idle w"
  shows "idle (snd (execute demo_env scopes [] [] run w)) \<and> (\<exists>r. fst (execute demo_env scopes [] [] run w) = Inr r)"
  using assms
  by (auto simp add: execute_def register_plan_def bind_def seq_def get_rt_apply modify_rt_apply idle_def
      on_remote_def on_local_def on_store_def zoom_def demo_env_def default_state_def emit_progress_def emit_def
      run_uploads_def upload_keys_def finish_run_def save_state_def clear_conflicts_def transfer_def
      Let_def redb_save_def with_db_def redb_port_def plan_acks_def folder_write_acknowledgements_def
      memory_port_def memory_read_def folder_port_def folder_lookup_chunks_def lookup_chunks_fs_def
      read_indexes_def files_recursive_def build_packs_def enumerate_eq_zip)


lemma default_idle:
  "default_state\<lparr>active_run := None\<rparr> = default_state" "note_kinds [] default_state = default_state"
  "active_run default_state = None"
  by (simp_all add: default_state_def note_kinds_def)

lemmas idle_steps = idle_refresh [unfolded idle_def] idle_inventory [unfolded idle_def]
  idle_snapshot [unfolded idle_def] idle_build_plan [unfolded idle_def]

lemma idle_report:
  assumes "idle w"
  shows "idle (snd (bind (execute demo_env scopes [] [] run) (\<lambda>(r, _). ret r) w))
    \<and> (\<exists>r. fst (bind (execute demo_env scopes [] [] run) (\<lambda>(r, _). ret r) w) = Inr r)"
  using idle_execute [OF assms, of scopes run] by (auto simp: bind_apply split: prod.splits)

lemma idle_reconcile:
  assumes "idle w"
  shows "idle (snd (reconcile demo_env scopes w)) \<and> (\<exists>r. fst (reconcile demo_env scopes w) = Inr r)"
  using assms idle_report [of _ scopes, unfolded idle_def bind_apply]
  by (simp add: reconcile_def bind_apply seq_def now_apply emit_def modify_rt_apply get_rt_apply Let_def
        idle_def default_idle idle_steps)

end
