(* ===== verification/Durability.thy ===== *)
theory Durability
  imports Demo_Run
begin

text \<open>
  What the runtime store holds at the moments that matter: the journal of a run before its first
  effect, and the whole state after its last. The proofs use the contract \<open>runtime_store\<close> only.
\<close>

section \<open>Saving through the contract\<close>

context runtime_store
begin

definition uses_store :: "('l, 'r, 'k, 'd) env \<Rightarrow> bool" where
  "uses_store E \<longleftrightarrow> k_load (sto_of E) = load \<and> k_save (sto_of E) = save"

definition persisted :: "('l, 'r, 'k, 'd) env \<Rightarrow> ('l, 'r, 'k) world \<Rightarrow> bool" where
  "persisted E w \<longleftrightarrow> load (kw w) = (Inr (Some (enc_state E (rt w))), kw w)"

lemma save_state_persists:
  assumes "uses_store E" and "save_state E w = (Inr u, w')"
  shows "persisted E w' \<and> rt w' = rt w"
proof -
  from assms obtain k' where s: "save (enc_state E (rt w)) (kw w) = (Inr u, k')" and w': "w' = w\<lparr>kw := k'\<rparr>"
    by (auto simp: save_state_def bind_def get_rt_apply on_store_def zoom_def uses_store_def split: prod.splits)
  from save_Inr_open [OF s] w' show ?thesis by (simp add: persisted_def)
qed

lemma persisted_same: "rt w' = rt w \<Longrightarrow> kw w' = kw w \<Longrightarrow> persisted E w \<Longrightarrow> persisted E w'"
  by (simp add: persisted_def)

lemma finish_run_persists:
  assumes "uses_store E" and "finish_run E scopes plan run w = (Inr u, w')"
  shows "persisted E w' \<and> active_run (rt w') = None"
proof -
  from assms(2) obtain w1 w2 where w1: "save_state E w1 = (Inr (), w2)" "active_run (rt w1) = None"
    and w': "rt w' = rt w2" "kw w' = kw w2"
    by (auto simp: finish_run_def bind_eq_Inr seq_eq_Inr modify_rt_apply emit_progress_def emit_def)
  from save_state_persists [OF assms(1) w1(1)] w1(2) show ?thesis
    by (auto intro: persisted_same [OF w'] simp: w'(1))
qed

lemma execute_persists:
  assumes "uses_store E" and "execute E scopes local plan run w = (Inr u, w')"
  shows "persisted E w' \<and> active_run (rt w') = None"
  using assms by (auto simp: execute_def seq_eq_Inr dest: finish_run_persists)

lemma reconcile_persists:
  assumes "uses_store E" and "reconcile E scopes w = (Inr u, w')"
  shows "persisted E w' \<and> active_run (rt w') = None"
  using assms
  by (auto simp: reconcile_def bind_eq_Inr seq_eq_Inr Let_def dest: execute_persists)

lemma persisted_restarts:
  assumes "uses_store E" and "persisted E w" and "dec_state E (enc_state E (rt w)) = Inr (rt w)"
  shows "state_load E (kw w) = (Inr (rt w), kw w)"
  using assms by (simp add: state_load_def bind_def uses_store_def persisted_def)

end

lemma redb_port_uses [simp]: "sto_of E = redb_port \<Longrightarrow> redb.uses_store E"
  by (simp add: redb.uses_store_def redb_port_def)

lemma redb_reopen: "db_handle k \<noteq> None \<Longrightarrow> redb_open (db_handle k) = k"
  by (cases k) (auto simp: redb_open_def)


section \<open>Registering the plan has no effects outside\<close>

definition quiet :: "('l, 'r, 'k) world \<Rightarrow> ('l, 'r, 'k) world \<Rightarrow> bool" where
  "quiet w w' \<longleftrightarrow> lw w' = lw w \<and> rw w' = rw w"

lemma preorder_quiet: "preorder_rel quiet"
  by (rule preorder_relI) (auto simp: quiet_def)

lemma steps_quiet_basics:
  shows "steps quiet (modify_rt f)" and "steps quiet get_rt" and "steps quiet (emit evs)"
    and "steps quiet (emit_progress ev)" and "steps quiet (tally g)" and "steps quiet (now E)"
    and "steps quiet (new_seed E)" and "steps quiet (save_state E)" and "steps quiet (fail_scope s)"
  using preorder_quiet
  by (auto intro!: step_rules steps_modify simp: modify_rt_def get_rt_def emit_def emit_progress_def
      tally_def now_def new_seed_def save_state_def fail_scope_def)
     (auto simp: steps_def quiet_def on_store_def zoom_def split: prod.splits)

lemmas quiet_rules = step_rules preorder_quiet steps_quiet_basics

lemma register_plan_quiet: "steps quiet (register_plan E scopes local plan run)"
  by (auto intro!: quiet_rules steps_modify simp: register_plan_def register_operation_def insert_conflict_def
      Let_def quiet_def split: plan_operation.splits prod.splits)

lemma register_plan_journals:
  assumes "register_plan E scopes local plan run w = (Inr u, w')" and "redb.uses_store E"
  shows "redb.persisted E w' \<and> active_run (rt w') = Some (plan_journal run plan)"
proof -
  from assms(1) obtain w1 where "save_state E w1 = (Inr (), w')"
    and "active_run (rt w1) = Some (plan_journal run plan)"
    by (auto simp: register_plan_def seq_eq_Inr modify_rt_apply)
  with redb.save_state_persists [OF assms(2)] show ?thesis by metis
qed

section \<open>Properties\<close>

text \<open>C8. The journal precedes every effect: \<^verbatim>\<open>execute\<close> first records the plan in the active run and
  saves it, and until that save has succeeded neither the local replica nor the remote has been
  touched; when it fails, the run ends with that error.\<close>

theorem journal_precedes_effects:
  assumes "sto_of E = redb_port"
  shows "case register_plan E scopes local plan run w of
      (Inl e, w') \<Rightarrow> execute E scopes local plan run w = (Inl e, w') \<and> lw w' = lw w \<and> rw w' = rw w
    | (Inr _, w') \<Rightarrow> lw w' = lw w \<and> rw w' = rw w \<and> active_run (rt w') = Some (plan_journal run plan)
        \<and> redb_load (kw w') = (Inr (Some (enc_state E (rt w'))), kw w')"
proof -
  obtain r w' where r: "register_plan E scopes local plan run w = (r, w')" by fastforce
  from stepsD [OF register_plan_quiet r] have q: "lw w' = lw w \<and> rw w' = rw w" by (simp add: quiet_def)
  show ?thesis
  proof (cases r)
    case (Inl e)
    with r q show ?thesis by (simp add: execute_def seq_Inl)
  next
    case (Inr u)
    with r q register_plan_journals [of E scopes local plan run w u w'] assms show ?thesis
      by (simp add: redb.persisted_def)
  qed
qed

theorem journal_precedes_effects_witness:
  "active_run (rt (snd (register_plan demo_env [''s''] [] [Noop demo_key] ''run''
     (demo_world default_state demo_files [])))) = Some (plan_journal ''run'' [Noop demo_key])"
proof -
  have "sto_of demo_env = redb_port" by (simp add: demo_env_def)
  from journal_precedes_effects [OF this, of "[''s'']" "[]" "[Noop demo_key]" "''run''"
      "demo_world default_state demo_files []"]
  show ?thesis
    by (simp add: register_plan_def seq_def bind_def emit_progress_def emit_def modify_rt_apply enumerate_eq_zip
        register_operation_def Let_def save_state_def get_rt_apply on_store_def zoom_def redb_port_def
        redb_save_def with_db_def demo_env_def demo_world_def redb_open_def)
qed

text \<open>C9. A restart loses nothing: after a successful \<^verbatim>\<open>reconcile\<close>, a runtime built on the reopened
  store file starts with exactly the state of the old one and with no run to recover.\<close>

theorem restart_after_reconcile:
  assumes "sto_of E = redb_port" and "reconcile E scopes w = (Inr r, w')"
    and "dec_state E (enc_state E (rt w')) = Inr (rt w')"
  shows "\<exists>w''. with_backends E l rem (redb_open (db_handle (kw w'))) = Inr w'' \<and> rt w'' = rt w'
    \<and> active_run (rt w'') = None \<and> db_handle (kw w') \<noteq> None"
proof -
  from redb.reconcile_persists [OF redb_port_uses [OF assms(1)] assms(2)]
  have p: "redb.persisted E w'" and a: "active_run (rt w') = None" by simp_all
  from p have "redb_load (kw w') = (Inr (Some (enc_state E (rt w'))), kw w')"
    by (simp add: redb.persisted_def)
  then have "db_handle (kw w') \<noteq> None"
    by (cases "db_handle (kw w')") (auto simp: redb_load_def with_db_def)
  moreover from redb.persisted_restarts [OF redb_port_uses [OF assms(1)] p assms(3)]
  have "state_load E (kw w') = (Inr (rt w'), kw w')" .
  ultimately show ?thesis using a by (simp add: with_backends_def redb_reopen)
qed



theorem restart_after_reconcile_witness:
  "let w' = snd (reconcile demo_env [''s''] (demo_world default_state [] []))
   in \<exists>w''. with_backends demo_env [] [] (redb_open (db_handle (kw w'))) = Inr w'' \<and> rt w'' = default_state"
proof -
  let ?w = "demo_world default_state [] [] :: (files, fs, redb_store) world"
  have "idle ?w" by (simp add: idle_def demo_world_def redb_open_def)
  from idle_reconcile [OF this, of "[''s'']"] obtain r where
    i: "idle (snd (reconcile demo_env [''s''] ?w))" and r: "fst (reconcile demo_env [''s''] ?w) = Inr r" by blast
  have "sto_of demo_env = redb_port"
    and "dec_state demo_env (enc_state demo_env (rt (snd (reconcile demo_env [''s''] ?w))))
      = Inr (rt (snd (reconcile demo_env [''s''] ?w)))"
    using i by (simp_all add: demo_env_def idle_def)
  from restart_after_reconcile [OF this(1) prod_eqI [OF trans [OF r fst_conv [symmetric]] snd_conv [symmetric]] this(2),
      of "[]" "[]"] i
  show ?thesis by (auto simp: Let_def idle_def)
qed

end
