(* ===== verification/Resolution.thy ===== *)
theory Resolution
  imports Durability Progress
begin

text \<open>
  What \<^verbatim>\<open>resolve\<close> guarantees: it is a compare-and-set on the remote heads and the local version the
  conflict recorded, and a resolution that goes through leaves one head.
\<close>

section \<open>The comparison\<close>

definition current_local :: "('l, 'r, 'k, 'd) env \<Rightarrow> resource_key \<Rightarrow> ('l, 'r, 'k) world \<Rightarrow> replica_state option" where
  "current_local E key w =
     (case fst (local_inventory E [scope_id key] w) of
        Inl _ \<Rightarrow> None
      | Inr local \<Rightarrow> Some (case find_resource local key of None \<Rightarrow> LocalMissing | Some r \<Rightarrow> lr_state r))"

text \<open>The heads or the local version are no longer the recorded ones.\<close>

definition outdated :: "('l, 'r, 'k, 'd) env \<Rightarrow> conflict_record \<Rightarrow> ('l, 'r, 'k) world \<Rightarrow> bool" where
  "outdated E record w \<longleftrightarrow>
     heads (cf_resource record) (rt w) \<noteq> cf_remote_heads record
     \<or> (case current_local E (cf_resource record) w of
          None \<Rightarrow> False
        | Some s \<Rightarrow> version_token s \<noteq> version_token (cf_local record)
            \<or> replica_content_id s \<noteq> replica_content_id (cf_local record))"

lemma local_inventory_same:
  assumes "loc_of E = memory_port cr"
  shows "snd (local_inventory E scopes w) = w"
proof -
  have "on_local (l_list (loc_of E) ss) w = (fst (l_list (loc_of E) ss (lw w)), w)"
    and "on_local (l_read (loc_of E) ks) w = (fst (l_read (loc_of E) ks (lw w)), w)" for ss ks
    by (cases w; simp add: assms on_local_def zoom_def memory_port_def memory_list_def memory_read_def)+
  then show ?thesis
    by (auto simp: local_inventory_def bind_apply get_rt_apply Let_def split: sum.splits prod.splits)
qed

lemma conflict_gone_apply:
  assumes "save_state E (w\<lparr>rt := (rt w)\<lparr>conflicts := bt_remove cid (conflicts (rt w))\<rparr>\<rparr>) = (Inr (), w')"
  shows "conflict_gone E cid w = (Inl ConflictNeedResolution, w')"
  using assms by (simp add: conflict_gone_def seq_def bind_apply modify_rt_apply)

lemma resolve_outdated:
  assumes "loc_of E = memory_port cr" and "map_of (conflicts (rt w)) (rq_conflict req) = Some record"
    and "outdated E record w"
  shows "resolve E req w = bind (conflict_gone E (rq_conflict req)) (\<lambda>scope. reconcile E [scope]) w"
proof -
  let ?key = "cf_resource record"
  have inv: "local_inventory E [scope_id ?key] w = (fst (local_inventory E [scope_id ?key] w), w)"
    using local_inventory_same [OF assms(1), of "[scope_id ?key]" w] by (metis prod.collapse)
  show ?thesis
  proof (cases "heads ?key (rt w) = cf_remote_heads record")
    case False
    then show ?thesis using assms(2)
      by (simp add: resolve_def resolve_conflict_def bind_apply get_rt_apply Let_def)
  next
    case True
    with assms(3) obtain local where l: "local_inventory E [scope_id ?key] w = (Inr local, w)"
      and "let s = (case find_resource local ?key of None \<Rightarrow> LocalMissing | Some r \<Rightarrow> lr_state r)
         in version_token s \<noteq> version_token (cf_local record) \<or> replica_content_id s \<noteq> replica_content_id (cf_local record)"
      using inv by (auto simp: outdated_def current_local_def Let_def split: sum.splits)
    with True assms(2) show ?thesis
      by (simp add: resolve_def resolve_conflict_def bind_apply get_rt_apply Let_def)
  qed
qed

section \<open>What a resolution publishes\<close>

definition counter_prefix :: "string \<Rightarrow> u64 \<Rightarrow> string" where
  "counter_prefix who n = who @ '':'' @ decimal (unat n) @ '':''"

text \<open>No known commit and no known parent has an id made from the next counter value.\<close>

definition counter_unused :: "string \<Rightarrow> runtime_state \<Rightarrow> bool" where
  "counter_unused who st \<longleftrightarrow>
     (let p = counter_prefix who (counter st + 1); unused = (\<lambda>i. take (length p) i \<noteq> p)
      in list_all (\<lambda>(i, c). unused i \<and> list_all unused (cm_parents c)) (commits st))"

lemma cm_id_commit_create: "take (length (counter_prefix who n)) (cm_id (commit_create cr t key ps who n ch)) = counter_prefix who n"
  by (simp add: commit_create_def Let_def counter_prefix_def)

lemma counter_unused_fresh:
  assumes "counter_unused who st" and "commits_ok st"
    and "c = commit_create cr t key (heads key st) who (counter st + 1) ch"
  shows "fresh_commit c st"
proof -
  let ?p = "counter_prefix who (counter st + 1)"
  have id: "take (length ?p) (cm_id c) = ?p" by (simp add: assms(3) cm_id_commit_create)
  have unused: "take (length ?p) i \<noteq> ?p" "\<And>j. j \<in> set (cm_parents d) \<Longrightarrow> take (length ?p) j \<noteq> ?p"
    if "(i, d) \<in> set (commits st)" for i d
    using assms(1) that by (fastforce simp: counter_unused_def Let_def list_all_iff)+
  have "cm_id c \<notin> set (heads key st)"
    using unused(1) id assms(2) by (auto simp: set_heads set_resource_commits)
  then show ?thesis using unused id assms(3)
    by (auto simp: fresh_commit_def map_of_eq_None_iff)
qed

fun agreed_heads :: "baseline_state \<Rightarrow> string list" where
  "agreed_heads (BaselinePresent _ _ hs) = hs"
| "agreed_heads (BaselineDeleted hs) = hs"

definition publishes_one :: "('l, 'r, 'k, 'd) env \<Rightarrow> resource_key \<Rightarrow> string list \<Rightarrow> runtime_state \<Rightarrow> runtime_state \<Rightarrow> bool" where
  "publishes_one E key parents st st' \<longleftrightarrow>
     (\<exists>t ch c. c = commit_create (crypt E) t key parents (client E) (counter st + 1) ch
        \<and> commits st' = commits (insert_commit c st) \<and> conflicts st' = conflicts st
        \<and> map_option (\<lambda>b. agreed_heads (sb_state b)) (map_of (baselines st') (encoded key)) = Some [cm_id c])"

definition same_rt :: "('l, 'r, 'k) world \<Rightarrow> ('l, 'r, 'k) world \<Rightarrow> bool" where
  "same_rt = on_device (\<lambda>x y. fst y = fst x)"

lemma keeps_rt: "steps same_rt m \<Longrightarrow> m w = (r, w') \<Longrightarrow> rt w' = rt w"
  by (drule (1) stepsD) (simp add: same_rt_def on_device_def)

lemma preorder_same_fst: "preorder_rel (\<lambda>x y. fst y = fst x)"
  by (rule preorder_relI) simp_all

lemma save_keeps_rt: "steps same_rt (save_state E)"
  by (simp add: steps_def same_rt_def on_device_def save_state_def bind_def get_rt_apply on_store_def zoom_def
      split_beta)

lemmas eq_steps = device_rules [OF preorder_same_fst, folded same_rt_def]
  preorder_on_device [OF preorder_same_fst, folded same_rt_def]

lemmas eq_rules = step_rules eq_steps

lemmas eq_simple = steps_simple_device [OF preorder_same_fst, folded same_rt_def]

lemma stage_keeps_rt: "steps same_rt (case kind of Binary \<Rightarrow> stage_binary E data | Text \<Rightarrow> stage_text E key data)"
  by (auto intro!: eq_rules simp: stage_binary_def stage_text_def Let_def split: resource_kind.splits)

lemma publish_change_commits:
  assumes "publish_change E key parents n (ch, packs) w = (Inr c, w')"
  shows "rt w' = insert_commit c (rt w) \<and> (\<exists>t. c = commit_create (crypt E) t key parents (client E) n ch)"
  using assms
  by (auto simp: publish_change_def bind_eq_Inr seq_eq_Inr new_commit_apply modify_rt_apply on_remote_def zoom_def
      split: prod.splits)

lemma publish_bytes_commits:
  assumes "publish_bytes E key kind data parents w = (Inr c, w')"
  shows "\<exists>t ch. c = commit_create (crypt E) t key parents (client E) (counter (rt w) + 1) ch
    \<and> rt w' = insert_commit c ((rt w)\<lparr>counter := counter (rt w) + 1\<rparr>)"
proof -
  from assms obtain ch packs w1 where
    st: "(case kind of Binary \<Rightarrow> stage_binary E data | Text \<Rightarrow> stage_text E key data)
      (w\<lparr>rt := (rt w)\<lparr>counter := counter (rt w) + 1\<rparr>\<rparr>) = (Inr (ch, packs), w1)"
    and pub: "publish_change E key parents (counter (rt w) + 1) (ch, packs) w1 = (Inr c, w')"
    by (auto simp: publish_bytes_def bind_eq_Inr next_counter_apply)
  from keeps_rt [OF stage_keeps_rt st] publish_change_commits [OF pub] show ?thesis by auto
qed

lemma settle_bytes_publishes:
  "settle_bytes E key kind data parents version operation w = (Inr (), w') \<Longrightarrow>
   publishes_one E key parents (rt w) (rt w')"
  unfolding publishes_one_def
  by (fastforce simp: settle_bytes_def bind_eq_Inr modify_rt_apply set_present_baseline_def insert_commit_def
      dest: publish_bytes_commits)

lemma settle_delete_publishes:
  assumes "settle_delete E key parents operation w = (Inr (), w')"
  shows "publishes_one E key parents (rt w) (rt w')"
proof -
  from assms obtain c w1 where
    pub: "publish_change E key parents (counter (rt w) + 1) (Delete, [])
      (w\<lparr>rt := (rt w)\<lparr>counter := counter (rt w) + 1\<rparr>\<rparr>) = (Inr c, w1)"
    and w': "rt w' = set_deleted_baseline key [cm_id c] operation (rt w1)"
    by (auto simp: settle_delete_def publish_delete_def bind_eq_Inr next_counter_apply modify_rt_apply)
  from publish_change_commits [OF pub] show ?thesis
    by (auto simp: publishes_one_def w' set_deleted_baseline_def insert_commit_def)
qed

lemma restore_commit_publishes:
  assumes "restore_commit E msgs key current selected i parents operation w = (Inr (), w')"
  shows "publishes_one E key parents (rt w) (rt w')"
proof (cases "cm_change selected = Delete")
  case True
  with assms obtain w1 where d: "delete_unless_absent E key current (no_delete msgs) (refused_delete msgs) w = (Inr (), w1)"
    and s: "settle_delete E key parents operation w1 = (Inr (), w')"
    by (auto simp: restore_commit_def seq_eq_Inr)
  have "steps same_rt (delete_unless_absent E key current (no_delete msgs) (refused_delete msgs))"
    by (auto intro!: eq_rules simp: delete_unless_absent_def)
  from keeps_rt [OF this d] settle_delete_publishes [OF s] show ?thesis by simp
next
  case False
  with assms obtain data w1 r w2 kind version where c: "content_for_remote E key (Some i) w = (Inr data, w1)"
    and a: "apply_one E (WritePresent key data (precondition current)) (no_write msgs) (refused_write msgs) w1 = (Inr r, w2)"
    and s: "settle_bytes E key kind data parents version operation w2 = (Inr (), w')"
    by (cases "cm_change selected") (auto simp: restore_commit_def bind_eq_Inr)
  have "rt w2 = rt w"
    using keeps_rt [OF eq_simple(13) c] keeps_rt [OF eq_simple(12) a] by simp
  with settle_bytes_publishes [OF s] show ?thesis by simp
qed

lemma read_local_side_keeps_rt: "steps same_rt (read_local_side E key)"
  by (auto intro!: eq_rules simp: read_local_side_def)

lemma choose_primary_publishes:
  assumes "choose_primary E req record current hs w = (Inr (), w')"
  shows "publishes_one E (cf_resource record) hs (rt w) (rt w')"
proof (cases "rq_primary req")
  case ChooseLocal
  with assms obtain c w1 where r: "read_local_side E (cf_resource record) w = (Inr c, w1)"
    and s: "settle_bytes E (cf_resource record) (rc_kind c) (rc_data c) hs (rc_version c) (rq_conflict req) w1 = (Inr (), w')"
    by (auto simp: choose_primary_def Let_def bind_eq_Inr)
  from keeps_rt [OF read_local_side_keeps_rt r] settle_bytes_publishes [OF s] show ?thesis by simp
next
  case ChooseDelete
  let ?d = "delete_unless_absent E (cf_resource record) current (no_delete resolve_messages) (refused_delete resolve_messages)"
  from ChooseDelete assms obtain w1 where d: "?d w = (Inr (), w1)"
    and s: "settle_delete E (cf_resource record) hs (rq_conflict req) w1 = (Inr (), w')"
    by (auto simp: choose_primary_def Let_def seq_eq_Inr)
  have "steps same_rt ?d" by (auto intro!: eq_rules simp: delete_unless_absent_def)
  from keeps_rt [OF this d] settle_delete_publishes [OF s] show ?thesis by simp
next
  case (ChooseRemote i)
  with assms show ?thesis
    by (auto simp: choose_primary_def Let_def bind_eq_Inr get_rt_apply io_error_def
        split: if_splits option.splits dest: restore_commit_publishes)
qed

lemma publishes_one_heads:
  assumes "publishes_one E key (heads key st) st st'" and "commits_ok st" and "counter_unused (client E) st"
  shows "\<exists>c. heads key st' = [cm_id c] \<and> cm_id c \<notin> set (heads key st) \<and> cm_parents c = heads key st
    \<and> cm_author c = client E \<and> map_of (commits st') (cm_id c) = Some c
    \<and> map_option (\<lambda>b. agreed_heads (sb_state b)) (map_of (baselines st') (encoded key)) = Some [cm_id c]
    \<and> (\<forall>k. k \<noteq> key \<longrightarrow> heads k st' = heads k st)"
proof -
  from assms(1) obtain t ch c where c: "c = commit_create (crypt E) t key (heads key st) (client E) (counter st + 1) ch"
    and cs: "commits st' = commits (insert_commit c st)"
    and b: "map_option (\<lambda>b. agreed_heads (sb_state b)) (map_of (baselines st') (encoded key)) = Some [cm_id c]"
    by (auto simp: publishes_one_def)
  have fresh: "fresh_commit c st" by (rule counter_unused_fresh [OF assms(3,2) c])
  have hs: "heads k st' = heads k (insert_commit c st)" for k by (simp add: heads_def resource_commits_def cs)
  have key: "cm_resource c = key" and ps: "cm_parents c = heads key st" by (simp_all add: c)
  have mine: "heads key (insert_commit c st) = [cm_id c]"
    using set_heads_insert [OF assms(2) fresh, of key] key ps by (intro heads_eqI) auto
  moreover have "cm_id c \<notin> set (heads key st)" using fresh ps by (simp add: fresh_commit_def)
  moreover have "heads k (insert_commit c st) = heads k st" if "k \<noteq> key" for k
    using heads_insert_other [OF assms(2) fresh] that key by simp
  moreover have "map_of (commits st') (cm_id c) = Some c" by (simp add: cs insert_commit_def)
  ultimately show ?thesis using b ps c by (intro exI [of _ c]) (simp add: hs)
qed

lemma resolve_conflict_runs:
  assumes "resolve_conflict E req w = (Inr scope, w')" and "map_of (conflicts (rt w)) (rq_conflict req) = Some record"
  shows "\<exists>st. publishes_one E (cf_resource record) (heads (cf_resource record) (rt w)) (rt w) st
    \<and> rt w' = st\<lparr>conflicts := bt_remove (rq_conflict req) (conflicts st)\<rparr>
    \<and> scope = scope_id (cf_resource record)"
proof -
  let ?key = "cf_resource record"
  from assms obtain local w1 current w2 w3 where inv: "local_inventory E [scope_id ?key] w = (Inr local, w1)"
    and pres: "for_each (rq_preserved req) (preserve_version E ?key) w1 = (Inr (), w2)"
    and prim: "choose_primary E req record current (heads ?key (rt w)) w2 = (Inr (), w3)"
    and save: "save_state E (w3\<lparr>rt := (rt w3)\<lparr>conflicts := bt_remove (rq_conflict req) (conflicts (rt w3))\<rparr>\<rparr>) = (Inr (), w')"
    and scope: "scope = scope_id ?key"
    by (auto simp: resolve_conflict_def bind_eq_Inr seq_eq_Inr get_rt_apply modify_rt_apply Let_def conflict_gone_def
        split: if_splits)
  have "steps same_rt (preserve_version E ?key pv)" for pv
    by (auto intro!: eq_rules read_local_side_keeps_rt simp: preserve_version_def split: version_choice.splits)
  then have "steps same_rt (for_each (rq_preserved req) (preserve_version E ?key))"
    by (intro steps_for_each eq_steps)
  from keeps_rt [OF this pres] keeps_rt [OF eq_simple(9) inv]
  have "rt w2 = rt w" by simp
  with choose_primary_publishes [OF prim] keeps_rt [OF save_keeps_rt save] scope
  show ?thesis by - (intro exI [of _ "rt w3"], simp)
qed

section \<open>Properties\<close>

text \<open>C11. Resolution is a compare-and-set: when the remote heads or the local file are not what the
  conflict recorded, \<^verbatim>\<open>resolve\<close> fails with \<^verbatim>\<open>ConflictNeedResolution\<close>, drops that one conflict,
  saves the state, and touches neither the replica, nor the remote, nor anything else remembered.\<close>

theorem resolve_is_compare_and_set:
  assumes "loc_of E = memory_port cr" and "sto_of E = redb_port" and "db_handle (kw w) \<noteq> None"
    and "map_of (conflicts (rt w)) (rq_conflict req) = Some record" and "outdated E record w"
  shows "\<exists>w'. resolve E req w = (Inl ConflictNeedResolution, w')
    \<and> rt w' = (rt w)\<lparr>conflicts := bt_remove (rq_conflict req) (conflicts (rt w))\<rparr>
    \<and> lw w' = lw w \<and> rw w' = rw w \<and> out w' = out w
    \<and> redb_load (kw w') = (Inr (Some (enc_state E (rt w'))), kw w')"
proof -
  let ?w = "w\<lparr>rt := (rt w)\<lparr>conflicts := bt_remove (rq_conflict req) (conflicts (rt w))\<rparr>\<rparr>"
  from redb.save_law [OF assms(3), of "enc_state E (rt ?w)"] obtain k' where
    k': "redb_save (enc_state E (rt ?w)) (kw w) = (Inr (), k')"
    "redb_load k' = (Inr (Some (enc_state E (rt ?w))), k')" by blast
  then have save: "save_state E ?w = (Inr (), ?w\<lparr>kw := k'\<rparr>)"
    by (simp add: save_state_def bind_apply get_rt_apply on_store_def zoom_def assms(2) redb_port_def)
  have "resolve E req w = (Inl ConflictNeedResolution, ?w\<lparr>kw := k'\<rparr>)"
    by (simp add: resolve_outdated [OF assms(1,4,5)] bind_apply conflict_gone_apply [OF save])
  then show ?thesis using k'(2) by simp
qed

definition demo_conflict :: conflict_record where
  "demo_conflict = conflict_new demo_crypto 5 demo_key ContentVsContent (LocalPresent ''c'' 1 ''v1'')
     (remote_present ''d'' 1 [''gone''])"

definition demo_conflict_state :: runtime_state where
  "demo_conflict_state = default_state\<lparr>conflicts := [(''k'', demo_conflict)]\<rparr>"

theorem resolve_is_compare_and_set_witness:
  "\<exists>w'. resolve demo_env \<lparr>rq_conflict = ''k'', rq_primary = ChooseLocal, rq_preserved = []\<rparr>
       (demo_world demo_conflict_state demo_files []) = (Inl ConflictNeedResolution, w')
     \<and> conflicts (rt w') = [] \<and> lw w' = demo_files"
proof -
  let ?w = "demo_world demo_conflict_state demo_files [] :: (files, fs, redb_store) world"
  have "heads demo_key (rt ?w) = []"
    by (simp add: heads_def resource_commits_def demo_world_def demo_conflict_state_def default_state_def bset_def Let_def)
  moreover have rec: "cf_resource demo_conflict = demo_key" "cf_remote_heads demo_conflict = [''gone'']"
    by (simp_all add: demo_conflict_def remote_present_def remote_heads_of_def)
  ultimately have "outdated demo_env demo_conflict ?w" by (simp add: outdated_def rec)
  moreover have "loc_of demo_env = memory_port demo_crypto" "sto_of demo_env = redb_port" "db_handle (kw ?w) \<noteq> None"
    "map_of (conflicts (rt ?w)) ''k'' = Some demo_conflict" "conflicts (rt ?w) = [(''k'', demo_conflict)]" "lw ?w = demo_files"
    by (simp_all add: demo_env_def demo_world_def demo_conflict_state_def redb_open_def)
  ultimately show ?thesis
    using resolve_is_compare_and_set [of demo_env demo_crypto ?w
        "\<lparr>rq_conflict = ''k'', rq_primary = ChooseLocal, rq_preserved = []\<rparr>" demo_conflict]
    by (auto simp: bt_remove_def)
qed

text \<open>C10. A resolution settles the fork: when the conflict step of \<^verbatim>\<open>resolve\<close> succeeds, whichever side
  was chosen, the resource has exactly one head, a new commit of this client on all the old heads,
  the baseline agrees with it, the conflict is gone, and no other resource's heads changed.\<close>

theorem resolve_leaves_one_head:
  assumes "resolve_conflict E req w = (Inr scope, w')"
    and "map_of (conflicts (rt w)) (rq_conflict req) = Some record"
    and "commits_ok (rt w)" and "counter_unused (client E) (rt w)"
  shows "\<exists>c. heads (cf_resource record) (rt w') = [cm_id c]
    \<and> cm_parents c = heads (cf_resource record) (rt w) \<and> cm_author c = client E
    \<and> map_of (commits (rt w')) (cm_id c) = Some c
    \<and> map_option (\<lambda>b. agreed_heads (sb_state b)) (map_of (baselines (rt w')) (encoded (cf_resource record))) = Some [cm_id c]
    \<and> map_of (conflicts (rt w')) (rq_conflict req) = None
    \<and> (\<forall>k. k \<noteq> cf_resource record \<longrightarrow> heads k (rt w') = heads k (rt w))"
proof -
  from resolve_conflict_runs [OF assms(1,2)] obtain st where
    st: "publishes_one E (cf_resource record) (heads (cf_resource record) (rt w)) (rt w) st"
    and w': "rt w' = st\<lparr>conflicts := bt_remove (rq_conflict req) (conflicts st)\<rparr>" by blast
  have "heads k (rt w') = heads k st" for k by (simp add: w' heads_def resource_commits_def)
  moreover have "map_of (bt_remove i m) i = None" for i and m :: "(string \<times> conflict_record) list"
    by (auto simp: bt_remove_def map_of_eq_None_iff)
  ultimately show ?thesis using publishes_one_heads [OF st assms(3,4)] by (auto simp: w')
qed

definition demo_fork_conflict :: conflict_record where
  "demo_fork_conflict = conflict_new demo_crypto 5 demo_key RemoteFork LocalMissing (remote_present ''d'' 1 [''x'', ''y''])"

definition demo_fork_world :: "(files, fs, redb_store) world" where
  "demo_fork_world = demo_world (demo_fork\<lparr>conflicts := [(''k'', demo_fork_conflict)]\<rparr>) [] []"

definition demo_choice :: resolve_request where
  "demo_choice = \<lparr>rq_conflict = ''k'', rq_primary = ChooseDelete, rq_preserved = []\<rparr>"

lemma demo_fork_conflict_simps:
  "cf_resource demo_fork_conflict = demo_key" "cf_local demo_fork_conflict = LocalMissing"
  "cf_remote_heads demo_fork_conflict = [''x'', ''y'']"
  by (simp_all add: demo_fork_conflict_def remote_present_def remote_heads_of_def)

lemma demo_fork_heads: "heads demo_key (rt demo_fork_world) = [''x'', ''y'']"
  by (rule heads_eqI)
     (auto simp: set_heads resource_commits_def demo_fork_world_def demo_world_def demo_fork_def demo_delete_def)

lemma demo_resolution: "\<exists>scope w'. resolve_conflict demo_env demo_choice demo_fork_world = (Inr scope, w')"
proof -
  have k: "map_of (conflicts (rt demo_fork_world)) ''k'' = Some demo_fork_conflict" "lw demo_fork_world = []"
    "kw demo_fork_world = redb_open None" "rw demo_fork_world = []"
    by (simp_all add: demo_fork_world_def demo_world_def)
  have "local_inventory demo_env [''s''] demo_fork_world = (Inr [], demo_fork_world)"
    by (simp add: local_inventory_def bind_apply get_rt_apply on_local_def zoom_def demo_env_def memory_port_def
        memory_list_def k)
  moreover have "scope_id demo_key = ''s''" "rem_of demo_env = folder_port demo_crypto demo_codec" "sto_of demo_env = redb_port"
    by (simp_all add: demo_key_def demo_env_def)
  ultimately show ?thesis
    by (simp add: resolve_conflict_def demo_choice_def bind_apply get_rt_apply k demo_fork_conflict_simps demo_fork_heads
        Let_def find_resource_def choose_primary_def seq_def delete_unless_absent_def absent_def
        settle_delete_def publish_delete_def next_counter_apply publish_change_def new_commit_apply modify_rt_apply
        on_remote_def zoom_def save_state_def on_store_def folder_commit_batch_def redb_port_def redb_save_def
        with_db_def redb_open_def)
qed

theorem resolve_leaves_one_head_witness:
  "\<exists>scope w' (c :: commit). resolve_conflict demo_env demo_choice demo_fork_world = (Inr scope, w')
     \<and> heads demo_key (rt w') = [cm_id c] \<and> cm_parents c = [''x'', ''y'']"
proof -
  have "commits_ok (rt demo_fork_world)" "counter_unused (client demo_env) (rt demo_fork_world)"
    "map_of (conflicts (rt demo_fork_world)) (rq_conflict demo_choice) = Some demo_fork_conflict"
    using demo_fork_ok
    by (simp_all add: demo_fork_world_def demo_world_def commits_ok_def demo_choice_def counter_unused_def
        counter_prefix_def demo_env_def demo_fork_def demo_delete_def)
  note ok = this
  obtain scope w' where run: "resolve_conflict demo_env demo_choice demo_fork_world = (Inr scope, w')"
    using demo_resolution by blast
  from resolve_leaves_one_head [OF run ok(3,1,2)] run show ?thesis
    unfolding demo_fork_conflict_simps demo_fork_heads by blast
qed

end
