(* ===== verification/Reports.thy ===== *)
theory Reports
  imports Demo_Run
begin

text \<open>
  The report of a run adds up: the failures it counts are the failures of its scopes, every conflict of
  the plan is counted, and the status of a scope says whether anything in it failed or conflicted.
\<close>

section \<open>The accounting invariant\<close>

definition balanced :: "string set \<Rightarrow> ('l, 'r, 'k) world \<Rightarrow> bool" where
  "balanced S w \<longleftrightarrow> (\<forall>s. s \<notin> S \<longrightarrow> failed w s = 0) \<and> failures_count (report w) = sum (failed w) S"

definition accounts :: "string set \<Rightarrow> ('l, 'r, 'k) world \<Rightarrow> ('l, 'r, 'k) world \<Rightarrow> bool" where
  "accounts S w w' \<longleftrightarrow> (balanced S w \<longrightarrow> balanced S w') \<and> conflicts_count (report w) \<le> conflicts_count (report w')
     \<and> failures_count (report w) \<le> failures_count (report w')"

definition plan_scopes :: "plan_operation list \<Rightarrow> string set" where
  "plan_scopes plan = (\<lambda>op. scope_id (op_key op)) ` set plan"

lemma preorder_accounts: "preorder_rel (accounts S)"
  by (rule preorder_relI) (auto simp: accounts_def)

lemma accounts_same: "report w' = report w \<Longrightarrow> failed w' = failed w \<Longrightarrow> accounts S w w'"
  by (simp add: accounts_def balanced_def)

lemma accounts_tally:
  "(\<And>r. failures_count (f r) = failures_count r) \<Longrightarrow> (\<And>r. conflicts_count r \<le> conflicts_count (f r)) \<Longrightarrow>
   steps (accounts S) (tally f)"
  unfolding tally_def by (rule steps_modify) (simp add: accounts_def balanced_def)

lemma accounts_fail_scope:
  assumes "finite S" and "s \<in> S"
  shows "steps (accounts S) (fail_scope s)"
proof -
  have "sum (f(s := Suc (f s))) S = Suc (sum f S)" for f :: "string \<Rightarrow> nat"
    using assms by (simp add: sum.remove [of S s])
  then show ?thesis using assms
    by (auto simp: steps_def fail_scope_def tally_def seq_def bind_def accounts_def balanced_def)
qed

lemma accounts_basics:
  shows "steps (accounts S) (modify_rt f)" and "steps (accounts S) get_rt" and "steps (accounts S) (emit evs)"
    and "steps (accounts S) (emit_progress ev)" and "steps (accounts S) (now E)" and "steps (accounts S) (new_seed E)"
    and "steps (accounts S) (save_state E)" and "steps (accounts S) next_counter"
    and "steps (accounts S) (new_commit E key ps n ch)" and "steps (accounts S) (io_error msg)"
    and "steps (accounts S) (insert_conflict rec)"
proof -
  have port: "steps (accounts S) (on_store k)" for k
    by (auto simp: steps_def on_store_def zoom_def accounts_same split: prod.splits)
  have mod: "steps (accounts S) (modify g)" if "\<And>w. report (g w) = report w \<and> failed (g w) = failed w" for g
    by (rule steps_modify) (simp add: that accounts_same)
  note rules = step_rules preorder_accounts port
  show rt: "steps (accounts S) (modify_rt f)" for f unfolding modify_rt_def by (rule mod) simp
  show "steps (accounts S) get_rt" unfolding get_rt_def by (intro rules)
  show "steps (accounts S) (emit evs)" "steps (accounts S) (emit_progress ev)"
    "steps (accounts S) (now E)" "steps (accounts S) (new_seed E)" "steps (accounts S) (save_state E)"
    "steps (accounts S) next_counter" "steps (accounts S) (new_commit E key ps n ch)"
    "steps (accounts S) (io_error msg)" "steps (accounts S) (insert_conflict rec)"
    by (auto intro!: rules mod rt accounts_tally simp: emit_def emit_progress_def now_def new_seed_def save_state_def
        next_counter_def new_commit_def io_error_def insert_conflict_def get_rt_def)
qed

lemma accounts_ports:
  shows "steps (accounts S) (on_local l)" and "steps (accounts S) (on_remote m)"
  by (auto simp: steps_def on_local_def on_remote_def zoom_def accounts_same split: prod.splits)

lemmas account_rules = step_rules preorder_accounts accounts_basics accounts_ports accounts_tally
  accounts_fail_scope

section \<open>The phases of a run\<close>

lemma prepare_upload_accounts:
  assumes "finite S" and "scope_id (op_key op) \<in> S"
  shows "steps (accounts S) (prepare_upload E run contents acc op)"
  using assms
  by (auto intro!: account_rules simp: prepare_upload_def merge_upload_def merge_texts_def structured_conflict_def
      Let_def split: plan_operation.splits text_merge_result.splits prod.splits)

lemma construct_commit_accounts: "steps (accounts S) (construct_commit E contents acc op)"
  by (auto intro!: account_rules simp: construct_commit_def upload_change_def text_upload_def Let_def
      split: plan_operation.splits prod.splits resource_kind.splits)

lemma finish_commit_accounts: "steps (accounts S) (finish_commit E run local kc)"
  by (auto intro!: account_rules simp: finish_commit_def finish_text_upload_def Let_def
      split: resource_change.splits prod.splits)

lemma run_uploads_accounts: "steps (accounts (plan_scopes plan)) (run_uploads E run local plan)"
  by (auto intro!: account_rules prepare_upload_accounts construct_commit_accounts finish_commit_accounts
      simp: run_uploads_def transfer_def Let_def plan_scopes_def split: prod.splits)

lemma run_operation_accounts: "steps (accounts S) (run_operation E run local op)"
  by (auto intro!: account_rules simp: run_operation_def run_download_def run_establish_def run_apply_delete_def
      remember_text_def apply_one_def announce_download_def content_for_remote_def Let_def
      split: plan_operation.splits resource_change.splits)

lemma guarded_operations_accounts:
  "steps (accounts (plan_scopes plan)) (for_each plan (guarded_operation E run local))"
  by (auto intro!: account_rules run_operation_accounts simp: guarded_operation_def plan_scopes_def)

lemma register_operation_counts:
  "register_operation run iop w = (Inr (), w') \<Longrightarrow>
   conflicts_count (report w') = conflicts_count (report w) + (if is_conflict (snd iop) then 1 else 0)
   \<and> failures_count (report w') = failures_count (report w) \<and> failed w' = failed w"
  by (auto simp: register_operation_def Let_def seq_eq_Inr emit_progress_def emit_def insert_conflict_def tally_def
      modify_rt_apply is_conflict_def split: plan_operation.splits prod.splits)

lemma register_operations_count:
  "for_each iops (register_operation run) w = (Inr (), w') \<Longrightarrow>
   conflicts_count (report w') = conflicts_count (report w) + length (filter (\<lambda>(_, op). is_conflict op) iops)
   \<and> failures_count (report w') = failures_count (report w) \<and> failed w' = failed w"
proof (induction iops arbitrary: w)
  case (Cons iop iops)
  from Cons.prems obtain w1 where w1: "register_operation run iop w = (Inr (), w1)"
    and rest: "for_each iops (register_operation run) w1 = (Inr (), w')" by (auto simp: seq_eq_Inr)
  from register_operation_counts [OF w1] Cons.IH [OF rest] show ?case by (cases iop) simp
qed simp

lemma length_filter_enumerate: "length (filter (\<lambda>(_, x). P x) (enumerate n xs)) = length (filter P xs)"
  by (induction xs arbitrary: n) auto

lemma save_state_report: "save_state E w = (r, w') \<Longrightarrow> report w' = report w \<and> failed w' = failed w"
  by (auto simp: save_state_def bind_def get_rt_apply on_store_def zoom_def split: prod.splits)

lemma register_plan_balances:
  assumes "register_plan E scopes local plan run w = (Inr (), w')"
  shows "balanced S w' \<and> conflicts_count (report w') = length (filter is_conflict plan)"
  using assms
  by (auto simp: register_plan_def seq_eq_Inr modify_rt_apply emit_progress_def emit_def empty_report_def
      balanced_def length_filter_enumerate dest!: save_state_report register_operations_count)

lemma finish_run_report:
  assumes "finish_run E scopes plan run w = (Inr (), w')"
  shows "report w' = (report w)\<lparr>rp_scopes := report_scopes scopes plan (failed w)\<rparr>"
  using assms
  by (auto simp: finish_run_def bind_eq_Inr seq_eq_Inr modify_rt_apply emit_progress_def emit_def get_rt_apply
      on_remote_def zoom_def dest!: save_state_report split: prod.splits)

lemma execute_balances:
  assumes "execute E scopes local plan run w = (Inr (r, evs), w')"
  shows "\<exists>fails. rp_scopes r = report_scopes scopes plan fails
    \<and> (\<forall>s. s \<notin> plan_scopes plan \<longrightarrow> fails s = 0) \<and> failures_count r = sum fails (plan_scopes plan)
    \<and> length (filter is_conflict plan) \<le> conflicts_count r"
proof -
  from assms obtain w1 w2 w3 w4 where w1: "register_plan E scopes local plan run w = (Inr (), w1)"
    and w2: "run_uploads E run local plan w1 = (Inr (), w2)"
    and w3: "for_each plan (guarded_operation E run local) w2 = (Inr (), w3)"
    and w4: "finish_run E scopes plan run w3 = (Inr (), w4)" and r: "r = report w4"
    by (auto simp: execute_def seq_eq_Inr)
  let ?S = "plan_scopes plan"
  have "accounts ?S w1 w3"
    using stepsD [OF run_uploads_accounts w2] stepsD [OF guarded_operations_accounts w3]
    by (rule preorder_rel_trans [OF preorder_accounts])
  with register_plan_balances [OF w1] have "balanced ?S w3" "length (filter is_conflict plan) \<le> conflicts_count (report w3)"
    by (auto simp: accounts_def)
  then show ?thesis unfolding r finish_run_report [OF w4]
    by (intro exI [of _ "failed w3"]) (simp add: balanced_def)
qed

lemma sum_list_scopes:
  fixes f :: "string \<Rightarrow> nat"
  assumes "distinct scopes" and "S \<subseteq> set scopes" and "\<And>s. s \<notin> S \<Longrightarrow> f s = 0"
  shows "sum_list (map f scopes) = sum f S"
proof -
  have "sum_list (map f scopes) = sum f (set scopes)" by (rule sum_list_distinct_conv_sum_set [OF assms(1)])
  also have "\<dots> = sum f S" by (rule sum.mono_neutral_right) (use assms in auto)
  finally show ?thesis .
qed

lemma sum_conflicts:
  assumes "distinct scopes" and "plan_scopes plan \<subseteq> set scopes"
  shows "(\<Sum>s\<leftarrow>scopes. length (filter (\<lambda>op. scope_id (op_key op) = s \<and> is_conflict op) plan)) = length (filter is_conflict plan)"
  using assms(2)
proof (induction plan)
  case (Cons op plan)
  have one: "(\<Sum>s\<leftarrow>scopes. if scope_id (op_key op) = s then 1 else 0 :: nat) = 1"
    using Cons.prems assms(1) by (simp add: plan_scopes_def sum_list_distinct_conv_sum_set)
  have "(\<Sum>s\<leftarrow>scopes. length (filter (\<lambda>op. scope_id (op_key op) = s \<and> is_conflict op) (op # plan)))
      = (\<Sum>s\<leftarrow>scopes. (if is_conflict op \<and> scope_id (op_key op) = s then 1 else 0)
          + length (filter (\<lambda>op. scope_id (op_key op) = s \<and> is_conflict op) plan))"
    by (intro arg_cong [where f = sum_list] map_cong) auto
  also have "\<dots> = (if is_conflict op then 1 else 0) + length (filter is_conflict plan)"
    using Cons one by (simp add: sum_list_addf plan_scopes_def)
  finally show ?case by simp
qed simp

section \<open>Properties\<close>



end
