(* ===== verification/Catalog.thy ===== *)
theory Catalog
  imports Folder_Scan
begin

text \<open>
  The catalog as a specification: the set of published events. \<^verbatim>\<open>commit_batch\<close> adds the events of its
  commits and nothing else, and \<^verbatim>\<open>scan_catalog\<close> reads the set back.
\<close>

section \<open>The segments of a tree\<close>

definition segment_set :: "folder_codec \<Rightarrow> fs \<Rightarrow> catalog_segment set" where
  "segment_set cd fs =
     {seg. \<exists>p d. below segments_dir p \<and> map_of fs p = Some d \<and> dec_segment cd d = Inr seg}"

definition segments_ok :: "folder_codec \<Rightarrow> fs \<Rightarrow> bool" where
  "segments_ok cd fs \<longleftrightarrow>
     (\<forall>p d. below segments_dir p \<longrightarrow> map_of fs p = Some d \<longrightarrow>
        (\<exists>seg. dec_segment cd d = Inr seg \<and> segment_ok seg))"

definition published_events :: "folder_codec \<Rightarrow> fs \<Rightarrow> catalog_event set" where
  "published_events cd fs = (\<Union>seg \<in> segment_set cd fs. set (sg_events seg))"

lemma segment_ok_set: "segments_ok cd fs \<Longrightarrow> seg \<in> segment_set cd fs \<Longrightarrow> segment_ok seg"
  by (fastforce simp: segments_ok_def segment_set_def)

lemma read_segments_set:
  assumes "segments_ok cd fs"
  shows "\<exists>segs. read_segments cd fs = Inr segs \<and> set segs = segment_set cd fs"
proof -
  define f where "f p = bind_result (fs_read fs p) (parse_with (dec_segment cd))" for p
  define g where "g p = (case f p of Inr seg \<Rightarrow> seg)" for p
  have f: "f p = Inr (g p)" if "p \<in> set (files_recursive fs segments_dir)" for p
    using assms that
    by (fastforce simp: set_files_recursive segments_ok_def f_def g_def fs_read_def parse_with_def)
  then have "collect_result f (files_recursive fs segments_dir) = Inr (map g (files_recursive fs segments_dir))"
    by (rule collect_result_total)
  moreover have "set (map g (files_recursive fs segments_dir)) = segment_set cd fs"
  proof -
    have "seg \<in> segment_set cd fs \<longleftrightarrow> (\<exists>p \<in> set (files_recursive fs segments_dir). f p = Inr seg)" for seg
      by (auto simp: segment_set_def f_def set_files_recursive)
    then show ?thesis using f by force
  qed
  ultimately show ?thesis by (simp add: read_segments_def f_def [abs_def])
qed

text \<open>The events a request has not seen, over a set of segments.\<close>

definition unseen_in ::
  "string list \<Rightarrow> cursor_map \<Rightarrow> catalog_snapshot list \<Rightarrow> catalog_segment set \<Rightarrow> catalog_event set" where
  "unseen_in scopes cursors snaps segs =
     {e. ((\<exists>sn \<in> set snaps. e \<in> set (sn_events sn))
          \<or> (\<exists>seg \<in> segs. e \<in> set (sg_events seg)
               \<and> cursor_get (covered_by (concat (map sn_cursors snaps))) (event_key e) < ev_counter e))
        \<and> cursor_get cursors (event_key e) < ev_counter e \<and> in_scopes scopes (scope_id (ev_resource e))}"

lemma unseen_in_set: "unseen_in scopes cursors snaps (set segs) = unseen scopes cursors snaps segs"
  by (simp add: unseen_in_def unseen_def)

section \<open>What a batch adds\<close>

definition batch_segments :: "commit list \<Rightarrow> catalog_segment set" where
  "batch_segments cs = group_segment ` set (by_client_scope cs)"

text \<open>
  The segments of the batch can be stored: their rendering parses back, two of them never share a
  path with different bytes, and what the tree already holds under the path is the same segment.
\<close>

definition segments_storable :: "crypto \<Rightarrow> folder_codec \<Rightarrow> commit list \<Rightarrow> fs \<Rightarrow> bool" where
  "segments_storable cr cd cs fs \<longleftrightarrow>
     (\<forall>seg \<in> batch_segments cs. dec_segment cd (enc_segment cd seg) = Inr seg
        \<and> map_of fs (segment_path cr cd seg) \<in> {None, Some (enc_segment cd seg)})
     \<and> (\<forall>seg \<in> batch_segments cs. \<forall>seg' \<in> batch_segments cs.
          segment_path cr cd seg = segment_path cr cd seg' \<longrightarrow> enc_segment cd seg = enc_segment cd seg')"

lemma below_segment_path [simp]: "below segments_dir (segment_path cr cd seg)"
  by (simp add: segment_path_def)

lemma map_of_before_segments:
  assumes "below segments_dir p"
  shows "map_of (write_commits cr cd cs (write_packs b fs)) p = map_of fs p"
proof -
  have "p \<noteq> packs_dir @ [i]" "p \<noteq> indexes_dir @ [i]" "p \<noteq> commits_dir @ [i]" for i
    using assms by auto
  then show ?thesis unfolding write_commits_def write_packs_def
    by (subst map_of_fold_write_immutable_other; auto)+
qed

lemma batched_segment_file:
  assumes "segments_storable cr cd (cb_commits b) fs" and "below segments_dir p"
  shows "map_of (batched cr cd b fs) p = Some d \<longleftrightarrow>
    map_of fs p = Some d \<or> (\<exists>seg \<in> batch_segments (cb_commits b). p = segment_path cr cd seg \<and> d = enc_segment cd seg)"
proof -
  let ?segs = "map group_segment (by_client_scope (cb_commits b))"
  have segs: "set ?segs = batch_segments (cb_commits b)" by (simp add: batch_segments_def)
  have eq: "map_of (batched cr cd b fs) p
      = map_of (fold (\<lambda>seg. write_immutable (segment_path cr cd seg) (enc_segment cd seg)) ?segs fs) p"
    unfolding folder_commit_batch_def write_segments_def snd_conv
    by (rule map_of_fold_write_immutable_cong) (rule map_of_before_segments [OF assms(2)])
  show ?thesis unfolding eq
  proof
    assume "map_of (fold (\<lambda>seg. write_immutable (segment_path cr cd seg) (enc_segment cd seg)) ?segs fs) p = Some d"
    from map_of_fold_write_immutable_Some [OF this] show "map_of fs p = Some d
        \<or> (\<exists>seg \<in> batch_segments (cb_commits b). p = segment_path cr cd seg \<and> d = enc_segment cd seg)"
      by (simp add: batch_segments_def)
  next
    assume "map_of fs p = Some d
        \<or> (\<exists>seg \<in> batch_segments (cb_commits b). p = segment_path cr cd seg \<and> d = enc_segment cd seg)"
    then show "map_of (fold (\<lambda>seg. write_immutable (segment_path cr cd seg) (enc_segment cd seg)) ?segs fs) p = Some d"
    proof
      assume "\<exists>seg \<in> batch_segments (cb_commits b). p = segment_path cr cd seg \<and> d = enc_segment cd seg"
      then obtain seg where seg: "seg \<in> set ?segs" "p = segment_path cr cd seg" "d = enc_segment cd seg"
        unfolding segs by blast
      have same: "enc_segment cd s = enc_segment cd seg"
        if "s \<in> set ?segs" "segment_path cr cd s = segment_path cr cd seg" for s
        using assms(1) that seg(1) unfolding segments_storable_def segs by blast
      have "map_of fs (segment_path cr cd seg) = None \<or> map_of fs (segment_path cr cd seg) = Some (enc_segment cd seg)"
        using assms(1) seg(1) unfolding segments_storable_def segs by blast
      with map_of_fold_write_immutable [OF seg(1), of "segment_path cr cd" "enc_segment cd" fs] same seg(2,3)
      show ?thesis by simp
    qed (rule map_of_fold_write_immutable_kept)
  qed
qed

lemma batched_segment_set:
  assumes "segments_storable cr cd (cb_commits b) fs"
  shows "segment_set cd (batched cr cd b fs) = segment_set cd fs \<union> batch_segments (cb_commits b)"
proof -
  have dec: "dec_segment cd (enc_segment cd seg) = Inr seg" if "seg \<in> batch_segments (cb_commits b)" for seg
    using assms that unfolding segments_storable_def by blast
  show ?thesis
  proof (intro set_eqI iffI)
    fix seg assume "seg \<in> segment_set cd (batched cr cd b fs)"
    then obtain p d where "below segments_dir p" "map_of (batched cr cd b fs) p = Some d" "dec_segment cd d = Inr seg"
      by (auto simp: segment_set_def)
    then show "seg \<in> segment_set cd fs \<union> batch_segments (cb_commits b)"
      using batched_segment_file [OF assms, of p d] dec by (fastforce simp: segment_set_def)
  next
    fix seg assume "seg \<in> segment_set cd fs \<union> batch_segments (cb_commits b)"
    then show "seg \<in> segment_set cd (batched cr cd b fs)"
    proof
      assume "seg \<in> segment_set cd fs"
      then show ?thesis using batched_segment_file [OF assms] by (auto simp: segment_set_def)
    next
      assume seg: "seg \<in> batch_segments (cb_commits b)"
      then have "map_of (batched cr cd b fs) (segment_path cr cd seg) = Some (enc_segment cd seg)"
        using batched_segment_file [OF assms below_segment_path] by blast
      with dec [OF seg] show ?thesis unfolding segment_set_def by (blast intro: below_segment_path)
    qed
  qed
qed

lemma batched_segments_ok:
  assumes "segments_ok cd fs" and "segments_storable cr cd (cb_commits b) fs"
  shows "segments_ok cd (batched cr cd b fs)"
  unfolding segments_ok_def
proof (intro allI impI)
  fix p d assume p: "below segments_dir p" "map_of (batched cr cd b fs) p = Some d"
  then consider "map_of fs p = Some d" | seg where "seg \<in> batch_segments (cb_commits b)" "d = enc_segment cd seg"
    using batched_segment_file [OF assms(2)] by blast
  then show "\<exists>seg. dec_segment cd d = Inr seg \<and> segment_ok seg"
  proof cases
    case 1
    with assms(1) p(1) show ?thesis by (simp add: segments_ok_def)
  next
    case 2
    then have "dec_segment cd d = Inr seg" using assms(2) unfolding segments_storable_def by blast
    with 2 show ?thesis by (auto simp: batch_segments_def intro: group_segment_ok)
  qed
qed

lemma batch_segment_events: "(\<Union>seg \<in> batch_segments cs. set (sg_events seg)) = commit_event ` set cs"
proof -
  have "set (sg_events (group_segment (k, filter (\<lambda>c. commit_group c = k) cs)))
      = commit_event ` {c \<in> set cs. commit_group c = k}" for k
    by (cases k) (auto simp: group_segment_def Let_def commit_group_def commit_event_def)
  then show ?thesis by (auto simp: batch_segments_def by_client_scope_def)
qed

section \<open>Properties\<close>

text \<open>C12. \<^verbatim>\<open>commit_batch\<close> refines the abstract publication on the set of events: afterwards the catalog
  shows exactly what it showed before and one event per commit of the batch, and it is still
  well-formed.\<close>

theorem commit_batch_refines_publication:
  assumes "segments_ok cd fs" and "segments_storable cr cd (cb_commits b) fs"
  shows "segments_ok cd (snd (folder_commit_batch cr cd b fs))
    \<and> published_events cd (snd (folder_commit_batch cr cd b fs))
      = published_events cd fs \<union> commit_event ` set (cb_commits b)"
  using batched_segments_ok [OF assms]
  by (simp add: published_events_def batched_segment_set [OF assms(2)] batch_segment_events [symmetric])

abbreviation demo_batch :: commit_batch where
  "demo_batch \<equiv> \<lparr>cb_commits = [demo_commit], cb_packs = [], cb_indexes = []\<rparr>"

lemma demo_batch_segments: "batch_segments [demo_commit] = {group_segment ((''a'', ''s''), [demo_commit])}"
  by (simp add: batch_segments_def by_client_scope_def commit_group_def demo_commit_def bset_def)

lemma demo_segments_storable: "segments_storable demo_crypto demo_codec [demo_commit] []"
  by (simp add: segments_storable_def demo_batch_segments demo_codec_def const_codec_def)

theorem commit_batch_refines_publication_witness:
  "published_events demo_codec (snd (folder_commit_batch demo_crypto demo_codec demo_batch []))
     = {commit_event demo_commit}"
proof -
  have "segments_ok demo_codec []" and "published_events demo_codec [] = {}"
    by (simp_all add: segments_ok_def published_events_def segment_set_def)
  then show ?thesis
    using commit_batch_refines_publication [of demo_codec "[]" demo_crypto demo_batch] demo_segments_storable by simp
qed

end
