(* ===== verification/Refresh.thy ===== *)
theory Refresh
  imports Catalog Demo_Run
begin

text \<open>
  What \<^verbatim>\<open>refresh_remote\<close> learns. The contract of the remote it relies on is the locale
  \<open>commit_catalog\<close>: a scan delivers the visible events, a load returns the named commits in order.
  It is interpreted on the folder remote, and the delivery of a published commit to another replica
  is the composition of the two.
\<close>

section \<open>The contract\<close>

locale commit_catalog =
  fixes scan :: "string list \<Rightarrow> catalog_cursor list \<Rightarrow> ('r, sync_error, catalog_delta) rm"
    and load :: "string list \<Rightarrow> ('r, sync_error, commit list) rm"
    and inv :: "'r \<Rightarrow> bool"
    and visible :: "string list \<Rightarrow> catalog_cursor list \<Rightarrow> 'r \<Rightarrow> catalog_event set"
    and stored :: "'r \<Rightarrow> string \<Rightarrow> commit"
  assumes scan_law: "inv s \<Longrightarrow> \<exists>d. scan scopes req s = (Inr d, s) \<and> set (cd_events d) = visible scopes req s"
    and load_law: "inv s \<Longrightarrow> set ids \<subseteq> ev_commit ` visible scopes req s \<Longrightarrow>
      load ids s = (Inr (map (stored s) ids), s)"
    and stored_id: "inv s \<Longrightarrow> e \<in> visible scopes req s \<Longrightarrow> cm_id (stored s (ev_commit e)) = ev_commit e"
begin

lemma count_events_commits: "commits (foldl (count_event cov) st es) = commits st"
  by (induction es arbitrary: st) (auto simp: count_event_def)

lemma advance_cursors_commits: "commits (advance_cursors new st) = commits st"
  by (simp add: advance_cursors_def)

lemma insert_all:
  assumes "\<And>i. i \<in> set ids \<Longrightarrow> cm_id (f i) = i"
  shows "map_of (commits (foldl (\<lambda>st c. insert_commit c st) st (map f ids))) i =
    (if i \<in> set ids then Some (f i) else map_of (commits st) i)"
  using assms by (induction ids arbitrary: st) (auto simp: insert_commit_def)

text \<open>A refresh of a well-formed catalog succeeds, leaves the remote alone, adds exactly the unknown
  visible commits and keeps the known ones.\<close>

lemma refresh_learns:
  assumes "r_scan (rem_of E) = scan" and "r_load (rem_of E) = load" and "inv (rw w)"
  shows "\<exists>w'. refresh_remote E scopes w = (Inr (), w') \<and> rw w' = rw w \<and> (\<forall>i. map_of (commits (rt w')) i =
    (if map_of (commits (rt w)) i = None \<and> i \<in> ev_commit ` visible scopes (cursors (rt w)) (rw w)
     then Some (stored (rw w) i) else map_of (commits (rt w)) i))"
proof -
  from scan_law [OF assms(3), of scopes "cursors (rt w)"] obtain d where
    d: "scan scopes (cursors (rt w)) (rw w) = (Inr d, rw w)"
    and evs: "set (cd_events d) = visible scopes (cursors (rt w)) (rw w)" by blast
  define st where "st = foldl (count_event (covered_by (cd_snapshot_cursors d))) (rt w) (cd_events d)"
  define ids where "ids = missing_commits st (cd_events d)"
  have st: "commits st = commits (rt w)" unfolding st_def by (rule count_events_commits)
  then have ids: "set ids = {i \<in> ev_commit ` visible scopes (cursors (rt w)) (rw w). map_of (commits (rt w)) i = None}"
    by (auto simp: ids_def missing_commits_def evs)
  from load_law [OF assms(3), of ids scopes "cursors (rt w)"]
  have ld: "load ids (rw w) = (Inr (map (stored (rw w)) ids), rw w)" by (auto simp: ids)
  define w' where "w' = w\<lparr>rt := advance_cursors (cd_cursors d)
    (foldl (\<lambda>st c. insert_commit c st) st (map (stored (rw w)) ids))\<rparr>"
  have "refresh_remote E scopes w = (Inr (), w')"
    by (simp add: refresh_remote_def bind_apply seq_def get_rt_apply modify_rt_apply on_remote_def zoom_def
        assms(1,2) d ld w'_def st_def [symmetric] ids_def [symmetric])
  moreover have "commits (rt w') = commits (foldl (\<lambda>st c. insert_commit c st) st (map (stored (rw w)) ids))"
    by (simp add: w'_def advance_cursors_commits)
  moreover have "cm_id (stored (rw w) i) = i" if "i \<in> set ids" for i
    using that stored_id [OF assms(3)] by (auto simp: ids)
  ultimately show ?thesis
    using insert_all [of ids "stored (rw w)" st] by (auto simp: ids st w'_def)
qed

end

section \<open>The folder remote keeps the contract\<close>

definition stored_commit :: "crypto \<Rightarrow> folder_codec \<Rightarrow> fs \<Rightarrow> string \<Rightarrow> commit" where
  "stored_commit cr cd fs i = (case load_commit cr cd fs i of Inr c \<Rightarrow> c)"

definition visible_events :: "folder_codec \<Rightarrow> string list \<Rightarrow> catalog_cursor list \<Rightarrow> fs \<Rightarrow> catalog_event set" where
  "visible_events cd scopes req fs =
     (case load_snapshots cd scopes fs of
        Inl _ \<Rightarrow> {}
      | Inr snaps \<Rightarrow> unseen_in scopes (covered_by req) snaps (segment_set cd fs))"

text \<open>
  Every segment and snapshot of the tree parses, and the commit of every event that some request
  would see is stored under its own id.
\<close>

definition catalog_ok :: "crypto \<Rightarrow> folder_codec \<Rightarrow> fs \<Rightarrow> bool" where
  "catalog_ok cr cd fs \<longleftrightarrow>
     segments_ok cd fs \<and> (\<exists>snaps. load_snapshots cd [] fs = Inr snaps)
     \<and> (\<forall>scopes req. \<forall>e \<in> visible_events cd scopes req fs.
          \<exists>c. load_commit cr cd fs (ev_commit e) = Inr c \<and> cm_id c = ev_commit e)"

lemma load_snapshots_scopes:
  "load_snapshots cd [] fs = Inr snaps \<Longrightarrow>
   load_snapshots cd scopes fs = Inr (filter (\<lambda>s. in_scopes scopes (sn_scope s)) snaps)"
  by (auto simp: load_snapshots_def Let_def in_scopes_def)

interpretation folder_catalog: commit_catalog "folder_scan_catalog cd" "folder_load_commits cr cd"
  "catalog_ok cr cd" "visible_events cd" "stored_commit cr cd" for cr cd
proof unfold_locales
  fix s :: fs and scopes :: "string list" and req :: "catalog_cursor list"
  assume ok: "catalog_ok cr cd s"
  then obtain snaps where snaps: "load_snapshots cd scopes s = Inr snaps"
    using load_snapshots_scopes by (auto simp: catalog_ok_def)
  from ok read_segments_set [of cd s] obtain segs where segs: "read_segments cd s = Inr segs"
    "set segs = segment_set cd s" by (auto simp: catalog_ok_def)
  have "\<forall>seg \<in> set segs. segment_ok seg"
    using ok segment_ok_set unfolding segs(2) by (auto simp: catalog_ok_def)
  from set_cd_events [OF this, of scopes "covered_by req" snaps]
  show "\<exists>d. folder_scan_catalog cd scopes req s = (Inr d, s)
      \<and> set (cd_events d) = visible_events cd scopes req s"
    by (simp add: folder_scan_catalog_def scan_catalog_closed_form [OF snaps segs(1) refl refl]
        visible_events_def snaps segs(2) [symmetric] unseen_in_set)
next
  fix s :: fs and ids scopes :: "string list" and req :: "catalog_cursor list"
  assume ok: "catalog_ok cr cd s" and ids: "set ids \<subseteq> ev_commit ` visible_events cd scopes req s"
  have "load_commit cr cd s i = Inr (stored_commit cr cd s i)" if "i \<in> set ids" for i
    using ok ids that by (fastforce simp: catalog_ok_def stored_commit_def)
  then have "collect_result (load_commit cr cd s) ids = Inr (map (stored_commit cr cd s) ids)"
    by (rule collect_result_total)
  then show "folder_load_commits cr cd ids s = (Inr (map (stored_commit cr cd s) ids), s)"
    by (simp add: folder_load_commits_def)
next
  show "cm_id (stored_commit cr cd s (ev_commit e)) = ev_commit e"
    if "catalog_ok cr cd s" "e \<in> visible_events cd scopes req s" for s e scopes req
    using that by (fastforce simp: catalog_ok_def stored_commit_def)
qed

section \<open>A batch and the rest of the tree\<close>

definition same_dir :: "path \<Rightarrow> fs \<Rightarrow> fs \<Rightarrow> bool" where
  "same_dir root fs fs' \<longleftrightarrow> files_recursive fs' root = files_recursive fs root
     \<and> (\<forall>p. below root p \<longrightarrow> map_of fs' p = map_of fs p)"

lemma preorder_same_dir: "preorder_rel (same_dir root)"
  by (rule preorder_relI) (auto simp: same_dir_def)

lemma same_dir_write: "\<not> below root p \<Longrightarrow> same_dir root fs (write_immutable p d fs)"
proof -
  assume p: "\<not> below root p"
  have "filter (below root) (map fst (filter (\<lambda>f. fst f \<noteq> p) fs)) = filter (below root) (map fst fs)"
    using p by (induction fs) auto
  with p have "files_recursive (write_immutable p d fs) root = files_recursive fs root"
    by (auto simp: files_recursive_def write_immutable_def fs_write_def)
  with p show ?thesis by (auto simp: same_dir_def map_of_write_immutable)
qed

lemma same_dir_fold:
  "(\<And>x. x \<in> set xs \<Longrightarrow> \<not> below root (f x)) \<Longrightarrow>
   same_dir root fs (fold (\<lambda>x. write_immutable (f x) (g x)) xs fs)"
proof (induction xs arbitrary: fs)
  case (Cons x xs)
  have "same_dir root fs (write_immutable (f x) (g x) fs)" by (rule same_dir_write) (simp add: Cons.prems)
  also have "same_dir root \<dots> (fold (\<lambda>x. write_immutable (f x) (g x)) xs \<dots>)"
    by (rule Cons.IH) (simp add: Cons.prems)
  finally (preorder_rel_trans [OF preorder_same_dir]) show ?case by simp
qed (simp add: preorder_rel_refl [OF preorder_same_dir])

lemma batched_same_snapshots: "same_dir snapshots_dir fs (batched cr cd b fs)"
proof -
  have dirs: "\<not> below snapshots_dir (segments_dir @ xs)" "\<not> below snapshots_dir (packs_dir @ xs)"
    "\<not> below snapshots_dir (indexes_dir @ xs)" "\<not> below snapshots_dir (commits_dir @ xs)" for xs
    by (simp_all add: dir_defs below_def)
  let ?p = "write_packs b fs" let ?c = "write_commits cr cd (cb_commits b) ?p"
  note trans = preorder_rel_trans [OF preorder_same_dir, of snapshots_dir]
  have "same_dir snapshots_dir fs ?p"
    unfolding write_packs_def by (rule trans; rule same_dir_fold) (rule dirs)+
  moreover have "same_dir snapshots_dir ?p ?c"
    unfolding write_commits_def by (rule same_dir_fold) (rule dirs)
  moreover have "same_dir snapshots_dir ?c (write_segments cr cd (cb_commits b) ?c)"
    unfolding write_segments_def segment_path_def by (rule same_dir_fold) (rule dirs)
  ultimately show ?thesis unfolding folder_commit_batch_def snd_conv by (blast intro: trans)
qed

lemma load_snapshots_same_dir:
  assumes "same_dir snapshots_dir fs fs'"
  shows "load_snapshots cd scopes fs' = load_snapshots cd scopes fs"
proof -
  have "load_snapshot cd fs' p = load_snapshot cd fs p" if "below snapshots_dir p" for p
  proof -
    have "below snapshots_dir (butlast p @ [x])" for x
      using that by (auto simp: below_def take_butlast)
    with that assms show ?thesis by (simp add: load_snapshot_def fs_read_def same_dir_def)
  qed
  moreover have "below snapshots_dir p" if "p \<in> set (files_recursive fs snapshots_dir)" for p
    using that by (simp add: files_recursive_def)
  ultimately have "collect_result (load_snapshot cd fs') ps = collect_result (load_snapshot cd fs) ps"
    if "set ps \<subseteq> set (files_recursive fs snapshots_dir)" for ps
    using that by (intro collect_result_cong) auto
  then show ?thesis using assms by (simp add: load_snapshots_def same_dir_def)
qed

lemma batched_load_commit_kept:
  "load_commit cr cd fs i = Inr c \<Longrightarrow> load_commit cr cd (batched cr cd b fs) i = Inr c"
  by (auto simp: load_commit_def commit_path_def [symmetric] folder_commit_batch_def map_of_write_segments_commit
      write_commits_def map_of_write_packs_commit intro!: map_of_fold_write_immutable_kept)

text \<open>What a request sees after the batch: what it saw before, and the new events it is not ahead of.\<close>

definition covered_in :: "folder_codec \<Rightarrow> string list \<Rightarrow> fs \<Rightarrow> catalog_event \<Rightarrow> bool" where
  "covered_in cd scopes fs e \<longleftrightarrow>
     (case load_snapshots cd scopes fs of
        Inl _ \<Rightarrow> True
      | Inr snaps \<Rightarrow> ev_counter e \<le> cursor_get (covered_by (concat (map sn_cursors snaps))) (event_key e))"

definition unread :: "string list \<Rightarrow> catalog_cursor list \<Rightarrow> catalog_event \<Rightarrow> bool" where
  "unread scopes req e \<longleftrightarrow> fresh_event scopes (cursor_get (covered_by req) (event_key e)) e"

lemma batched_visible:
  assumes "segments_storable cr cd (cb_commits b) fs"
  shows "visible_events cd scopes req (batched cr cd b fs) =
    visible_events cd scopes req fs
    \<union> {e \<in> commit_event ` set (cb_commits b). \<not> covered_in cd scopes fs e \<and> unread scopes req e}"
  unfolding batch_segment_events [symmetric]
  by (auto simp: visible_events_def load_snapshots_same_dir [OF batched_same_snapshots]
      batched_segment_set [OF assms] unseen_in_def covered_in_def unread_def fresh_event_def not_le
      split: sum.splits)

lemma batched_catalog_ok:
  assumes "catalog_ok cr cd fs" and "storable cr cd (cb_commits b) fs"
    and "segments_storable cr cd (cb_commits b) fs"
  shows "catalog_ok cr cd (batched cr cd b fs)"
proof -
  have "load_commit cr cd (batched cr cd b fs) (cm_id c) = Inr c" if "c \<in> set (cb_commits b)" for c
    using commit_batch_stores [OF assms(2) that] assms(2) that
    by (auto simp: storable_def intro: load_commit_stored)
  then have new: "\<exists>c. load_commit cr cd (batched cr cd b fs) (ev_commit e) = Inr c \<and> cm_id c = ev_commit e"
    if "e \<in> commit_event ` set (cb_commits b)" for e
    using that by (auto simp: commit_event_def)
  have old: "\<exists>c. load_commit cr cd (batched cr cd b fs) (ev_commit e) = Inr c \<and> cm_id c = ev_commit e"
    if "e \<in> visible_events cd scopes req fs" for e scopes req
    using assms(1) that batched_load_commit_kept [of cr cd fs "ev_commit e" _ b] unfolding catalog_ok_def by blast
  show ?thesis
    using assms(1) batched_segments_ok [of cd fs cr b] assms(3) new old
    unfolding catalog_ok_def load_snapshots_same_dir [OF batched_same_snapshots] batched_visible [OF assms(3)]
    by blast
qed

end
