(* ===== verification/Delivery.thy ===== *)
theory Delivery
  imports Refresh Contents
begin

text \<open>
  Two devices over one folder: what one publishes, the other learns with its next refresh and reads
  back byte for byte.
\<close>

section \<open>From the batch to the other device\<close>

lemma visible_after_batch:
  assumes "segments_storable cr cd (cb_commits b) fs" and "c \<in> set (cb_commits b)"
    and "\<not> covered_in cd scopes fs (commit_event c)" and "unread scopes req (commit_event c)"
  shows "commit_event c \<in> visible_events cd scopes req (batched cr cd b fs)"
  using assms by (auto simp: batched_visible)

lemma stored_after_batch:
  assumes "storable cr cd (cb_commits b) fs" and "c \<in> set (cb_commits b)"
  shows "stored_commit cr cd (batched cr cd b fs) (cm_id c) = c"
proof -
  have "load_commit cr cd (batched cr cd b fs) (cm_id c) = Inr c"
    using commit_batch_stores [OF assms] assms by (auto simp: storable_def intro: load_commit_stored)
  then show ?thesis by (simp add: stored_commit_def)
qed

lemma batch_reaches_replica:
  assumes "rem_of E = folder_port cr cd" and "catalog_ok cr cd fs"
    and "storable cr cd (cb_commits b) fs" and "segments_storable cr cd (cb_commits b) fs"
    and "rw w = batched cr cd b fs" and "c \<in> set (cb_commits b)"
    and "unread scopes (cursors (rt w)) (commit_event c)" and "\<not> covered_in cd scopes fs (commit_event c)"
    and "map_of (commits (rt w)) (cm_id c) = None"
  shows "\<exists>w'. refresh_remote E scopes w = (Inr (), w') \<and> rw w' = rw w \<and> map_of (commits (rt w')) (cm_id c) = Some c"
proof -
  have ok: "catalog_ok cr cd (rw w)" unfolding assms(5) by (rule batched_catalog_ok [OF assms(2-4)])
  have "r_scan (rem_of E) = folder_scan_catalog cd" and "r_load (rem_of E) = folder_load_commits cr cd"
    by (simp_all add: assms(1))
  from folder_catalog.refresh_learns [OF this ok, of scopes] obtain w' where
    w': "refresh_remote E scopes w = (Inr (), w')" "rw w' = rw w"
    and learned: "map_of (commits (rt w')) i = (if map_of (commits (rt w)) i = None
      \<and> i \<in> ev_commit ` visible_events cd scopes (cursors (rt w)) (rw w)
      then Some (stored_commit cr cd (rw w) i) else map_of (commits (rt w)) i)" for i
    by blast
  have "cm_id c = ev_commit (commit_event c)" by (simp add: commit_event_def)
  with visible_after_batch [OF assms(4,6,8,7)] have "cm_id c \<in> ev_commit ` visible_events cd scopes (cursors (rt w)) (rw w)"
    unfolding assms(5) by (metis image_eqI)
  with learned [of "cm_id c"] assms(9) stored_after_batch [OF assms(3,6)] w' show ?thesis by (auto simp: assms(5))
qed

lemma batch_misses_replica:
  assumes "rem_of E = folder_port cr cd" and "catalog_ok cr cd fs"
    and "storable cr cd [c] fs" and "segments_storable cr cd [c] fs"
    and "cb_commits b = [c]" and "rw w = batched cr cd b fs"
    and "\<not> unread scopes (cursors (rt w)) (commit_event c)"
    and "cm_id c \<notin> ev_commit ` visible_events cd scopes (cursors (rt w)) fs"
  shows "\<exists>w'. refresh_remote E scopes w = (Inr (), w')
    \<and> map_of (commits (rt w')) (cm_id c) = map_of (commits (rt w)) (cm_id c)"
proof -
  have ok: "catalog_ok cr cd (rw w)" unfolding assms(6) using assms(2-5) by (simp add: batched_catalog_ok)
  have "r_scan (rem_of E) = folder_scan_catalog cd" and "r_load (rem_of E) = folder_load_commits cr cd"
    by (simp_all add: assms(1))
  note learned = folder_catalog.refresh_learns [OF this ok, of scopes]
  have "visible_events cd scopes (cursors (rt w)) (rw w) = visible_events cd scopes (cursors (rt w)) fs"
    unfolding assms(6) using assms(4,5,7) by (auto simp: batched_visible)
  with learned assms(8) show ?thesis by auto
qed

section \<open>Properties\<close>

text \<open>C4. Synchronisation works end to end: when device A publishes binary data over a well-formed
  folder, the next \<^verbatim>\<open>refresh_remote\<close> of a device B that is not past the commit succeeds, B then
  knows exactly that commit, and the content B reads for it is the data A published.\<close>

theorem published_bytes_reach_other_devices:
  assumes "over_folder A cd" and "over_folder B cd" and "crypt B = crypt A"
    and "packs_ok (crypt A) cd (rw wA)" and "cdc_tiles (cdc_of A)" and "inj (blake3_hex (crypt A))"
    and "packs_storable cd (build_packs (crypt A) (new_chunks_of A cd (rw wA) data)) (rw wA)"
    and "c = version_of A key parents data wA"
    and "catalog_ok (crypt A) cd (rw wA)" and "storable (crypt A) cd [c] (rw wA)"
    and "segments_storable (crypt A) cd [c] (rw wA)"
    and "rw wB = rw (snd (publish_bytes A key Binary data parents wA))"
    and "map_of (commits (rt wB)) (cm_id c) = None"
    and "unread scopes (cursors (rt wB)) (commit_event c)" and "\<not> covered_in cd scopes (rw wA) (commit_event c)"
  shows "\<exists>wB'. refresh_remote B scopes wB = (Inr (), wB') \<and> map_of (commits (rt wB')) (cm_id c) = Some c
    \<and> content_for_remote B key (Some (cm_id c)) wB' = (Inr data, wB')"
proof -
  obtain b wA' where pub: "publish_bytes A key Binary data parents wA = (Inr c, wA')"
    and b: "cb_commits b = [c]" "rw wA' = batched (crypt A) cd b (rw wA)"
    and fetch: "fetch_manifest (folder_lookup_chunks cd) (folder_read_ranges (crypt A))
      (manifest (crypt A) (cdc_of A) data) (rw wA') = (Inr data, rw wA')"
    by (rule publish_bytes_folder [OF assms(1,4-7), of key parents]) (auto simp: assms(8))
  have rw: "rw wB = batched (crypt A) cd b (rw wA)" "rw wB = rw wA'" using assms(12) pub b(2) by simp_all
  have "rem_of B = folder_port (crypt A) cd" using assms(2,3) by (simp add: over_folder_def)
  from batch_reaches_replica [OF this assms(9) _ _ rw(1) _ assms(14,15,13)] assms(10,11)
  obtain wB' where wB': "refresh_remote B scopes wB = (Inr (), wB')" "rw wB' = rw wB"
    "map_of (commits (rt wB')) (cm_id c) = Some c" by (auto simp: b(1))
  moreover have change: "cm_change c = BinarySnapshot (blake3_hex (crypt A) data) (word_of_nat (length data))
      (manifest (crypt A) (cdc_of A) data)" by (simp add: assms(8))
  moreover have "content_for_remote B key (Some (cm_id c)) wB' = (Inr data, wB')"
    using fetch wB'(2) assms(3) by (simp add: content_of_snapshot [OF assms(2) wB'(3) change] rw(2))
  ultimately show ?thesis by blast
qed

definition demo_version :: commit where
  "demo_version = version_of demo_env demo_key [] [7] (demo_world default_state [] [])"

definition demo_sync_codec :: folder_codec where
  "demo_sync_codec = const_codec demo_version (group_segment ((''me'', ''s''), [demo_version]))"

definition demo_device :: "(files, fs, redb_store, ustr) env" where
  "demo_device = demo_env\<lparr>rem_of := folder_port demo_crypto demo_sync_codec\<rparr>"

lemma demo_device_simps [simp]:
  "crypt demo_device = demo_crypto" "cdc_of demo_device = demo_cdc" "over_folder demo_device demo_sync_codec"
  "version_of demo_device demo_key [] [7] (demo_world default_state [] []) = demo_version"
  by (simp_all add: demo_device_def demo_env_def over_folder_def demo_sync_codec_def const_codec_def
      demo_version_def version_of_def)

lemma demo_version_key: "cm_author demo_version = ''me''" "cm_resource demo_version = demo_key" "cm_counter demo_version = 1"
  by (simp_all add: demo_version_def) (simp_all add: demo_env_def demo_world_def default_state_def)

lemma empty_tree_ok:
  "catalog_ok cr cd []" "packs_ok cr cd []" "visible_events cd scopes req [] = {}"
  "load_snapshots cd scopes [] = Inr []"
proof -
  show l: "load_snapshots cd scopes [] = Inr []" for scopes by (simp add: load_snapshots_def files_recursive_def)
  have s: "segment_set cd [] = {}" by (simp add: segment_set_def)
  show v: "visible_events cd scopes req [] = {}" for scopes req by (simp add: visible_events_def l s unseen_in_def)
  show "catalog_ok cr cd []" by (simp add: catalog_ok_def l v segments_ok_def)
  show "packs_ok cr cd []" by (simp add: packs_ok_def files_recursive_def)
qed

lemma demo_version_storable:
  "storable demo_crypto demo_sync_codec [demo_version] []"
  "segments_storable demo_crypto demo_sync_codec [demo_version] []"
proof -
  show "storable demo_crypto demo_sync_codec [demo_version] []"
    by (simp add: storable_def demo_sync_codec_def const_codec_def)
  have "batch_segments [demo_version] = {group_segment ((''me'', ''s''), [demo_version])}"
    by (simp add: batch_segments_def by_client_scope_def commit_group_def demo_version_key bset_def demo_key_def)
  then show "segments_storable demo_crypto demo_sync_codec [demo_version] []"
    by (simp add: segments_storable_def demo_sync_codec_def const_codec_def)
qed

lemma demo_sync_chunks: "new_chunks_of demo_device demo_sync_codec [] [7] = [demo_file_chunk]"
  by (simp add: new_chunks_of_def demo_file_chunks no_indexes demo_file_chunk_def)

theorem published_bytes_reach_other_devices_witness:
  "let wB = demo_world default_state [] (rw (snd (publish_bytes demo_device demo_key Binary [7] []
       (demo_world default_state [] []))))
   in \<exists>wB'. refresh_remote demo_device [''s''] wB = (Inr (), wB')
     \<and> content_for_remote demo_device demo_key (Some (cm_id demo_version)) wB' = (Inr [7], wB')"
proof -
  let ?wA = "demo_world default_state [] [] :: (files, fs, redb_store) world"
  have "packs_storable demo_sync_codec (build_packs demo_crypto [demo_file_chunk]) []"
    using demo_publishes
    by (simp add: publishes_def packs_storable_def demo_sync_codec_def demo_codec_def const_codec_def)
  moreover have "unread [''s''] [] (commit_event demo_version)" "\<not> covered_in demo_sync_codec [''s''] [] (commit_event demo_version)"
    by (simp_all add: unread_def fresh_event_def covered_in_def empty_tree_ok covered_by_def bt_collect_def
        cursor_get_def in_scopes_def commit_event_def demo_version_key demo_key_def)
  moreover have rt: "rt (demo_world default_state [] r) = default_state" "rw (demo_world default_state [] r) = r"
    "cursors default_state = []" "commits default_state = []" for r
    by (simp_all add: demo_world_def default_state_def)
  ultimately show ?thesis
    using published_bytes_reach_other_devices [of demo_device demo_sync_codec demo_device ?wA "[7]" demo_version demo_key "[]"
        "demo_world default_state [] (rw (snd (publish_bytes demo_device demo_key Binary [7] [] ?wA)))" "[''s'']"]
      demo_version_storable empty_tree_ok cdc_tiles_demo demo_hash_inj
    by (auto simp: Let_def demo_sync_chunks)
qed




end
