(* ===== verification/Retention.thy ===== *)
theory Retention
  imports Backends
begin

text \<open>
  What \<^verbatim>\<open>maintain\<close> may forget: the conditions under which one resource gives up history, and the case
  in which that history includes the head.
\<close>

section \<open>The conditions\<close>

definition acknowledged_by :: "runtime_state \<Rightarrow> resource_key \<Rightarrow> resource_ack list \<Rightarrow> string \<Rightarrow> string \<Rightarrow> bool" where
  "acknowledged_by st key acks checkpoint who \<longleftrightarrow>
     (\<exists>a \<in> set acks. ack_client a = who \<and> ack_resource a = key
        \<and> (\<exists>h \<in> set (ack_heads a). (h, checkpoint) \<in> (parent_rel (commits st))\<^sup>*))"

lemma all_acknowledged_iff:
  "all_acknowledged me st key acks checkpoint \<longleftrightarrow>
     (\<forall>who \<in> insert me {cm_author c |c. c \<in> set (resource_commits key st) \<and> cm_author c \<notin> set (retired_clients st)}.
        acknowledged_by st key acks checkpoint who)"
proof -
  have "set (active_clients me st key)
      = insert me {cm_author c |c. c \<in> set (resource_commits key st) \<and> cm_author c \<notin> set (retired_clients st)}"
    by (auto simp: active_clients_def)
  then show ?thesis
    unfolding all_acknowledged_def acknowledged_by_def is_descendant_iff [symmetric] list_all_iff list_ex_iff by simp
qed

lemma maintain_resource_adds:
  assumes "maintain_resource E n acks (r, obs) key w = (Inr (r', obs'), w')" and "obs' \<noteq> obs"
  shows "\<exists>cp. map_of (checkpoints (rt w)) (encoded key) = Some cp
    \<and> all_acknowledged (client E) (rt w) key acks (sc_commit cp)
    \<and> \<not> conflicted (rt w) key \<and> maintained_kind (rt w) key (resource_commits key (rt w)) \<noteq> Text
    \<and> obs' = bt_insert (scope_id key) (bset (unwrap_or [] (map_of obs (scope_id key))
        @ obsolete_ids n (rt w) key acks (sc_commit cp))) obs"
  using assms
  by (auto simp: maintain_resource_def bind_apply get_rt_apply seq_def modify_rt_apply Let_def
      split: if_splits option.splits prod.splits sum.splits)

section \<open>Properties\<close>


text \<open>Two devices; the clock of the one that made the head runs behind.\<close>

definition slow_commit :: "string \<Rightarrow> string list \<Rightarrow> int \<Rightarrow> commit" where
  "slow_commit i ps t = \<lparr>cm_id = i, cm_resource = demo_key, cm_parents = ps, cm_author = ''me'',
     cm_counter = 1, cm_timestamp = t, cm_change = BinarySnapshot i 1 []\<rparr>"

definition slow_state :: runtime_state where
  "slow_state = default_state\<lparr>
     commits := [(''a'', slow_commit ''a'' [] 9), (''c'', slow_commit ''c'' [''a''] 8), (''h'', slow_commit ''h'' [''c''] 3)],
     checkpoints := [(encoded demo_key, \<lparr>sc_key = demo_key, sc_commit = ''c''\<rparr>)]\<rparr>"

definition slow_acks :: "resource_ack list" where
  "slow_acks = [\<lparr>ack_client = ''me'', ack_resource = demo_key, ack_heads = [''c''], ack_pinned = []\<rparr>]"

lemma slow_state_facts:
  "resource_commits demo_key slow_state
     = [slow_commit ''a'' [] 9, slow_commit ''c'' [''a''] 8, slow_commit ''h'' [''c''] 3]"
  "heads demo_key slow_state = [''h'']" "\<not> conflicted slow_state demo_key"
  "maintained_kind slow_state demo_key (resource_commits demo_key slow_state) = Binary"
  "map_of (checkpoints slow_state) (encoded demo_key) = Some \<lparr>sc_key = demo_key, sc_commit = ''c''\<rparr>"
proof -
  show r: "resource_commits demo_key slow_state
     = [slow_commit ''a'' [] 9, slow_commit ''c'' [''a''] 8, slow_commit ''h'' [''c''] 3]"
    by (simp add: resource_commits_def slow_state_def slow_commit_def)
  show h: "heads demo_key slow_state = [''h'']"
    by (rule heads_eqI) (auto simp: set_heads r slow_commit_def)
  show "\<not> conflicted slow_state demo_key"
    by (simp add: conflicted_def h) (simp add: slow_state_def default_state_def)
  show "maintained_kind slow_state demo_key (resource_commits demo_key slow_state) = Binary"
    by (simp add: maintained_kind_def r) (simp add: slow_state_def default_state_def slow_commit_def is_text_def)
qed (simp add: slow_state_def)

lemma slow_acknowledged: "all_acknowledged ''me'' slow_state demo_key slow_acks ''c''"
  unfolding all_acknowledged_iff acknowledged_by_def
  by (auto simp: slow_state_facts(1) slow_commit_def slow_acks_def)

lemma slow_obsolete: "obsolete_ids 1 slow_state demo_key slow_acks ''c'' = [''h'']"
proof -
  have "newest_first slow_state demo_key = [(9, ''a''), (8, ''c''), (3, ''h'')]"
    by (simp add: newest_first_def slow_state_facts(1) slow_commit_def)
  then show ?thesis
    by (simp add: obsolete_ids_def retained_ids_def slow_state_facts(1)) (simp add: slow_commit_def slow_acks_def)
qed

lemma slow_run:
  assumes "client E = ''me''" and "rt w = slow_state"
  shows "maintain_resource E 1 slow_acks (r, []) demo_key w = (Inr (r, [(''s'', [''h''])]), w)"
proof -
  have "length (resource_commits demo_key slow_state) = 3" by (simp add: slow_state_facts(1))
  moreover have "scope_id demo_key = ''s''" by (simp add: demo_key_def)
  ultimately show ?thesis
    by (simp add: maintain_resource_def bind_apply get_rt_apply assms slow_state_facts(3-5) slow_acknowledged
        slow_obsolete Let_def bset_def)
qed


text \<open>C27. Keeping the newest versions by timestamp can drop the only head: with one version to keep, a head
  whose author's clock ran behind is obsolete once everybody has acknowledged the checkpoint below
  it, and forgetting it makes an older commit the head, so its content is lost to every device.\<close>

theorem maintain_can_drop_the_head:
  "heads demo_key slow_state = [''h'']
    \<and> fst (maintain_resource demo_env 1 slow_acks (r, []) demo_key (demo_world slow_state files tree))
        = Inr (r, [(''s'', [''h''])])
    \<and> heads demo_key (forget_commits [''h''] slow_state) = [''c'']"
proof (intro conjI)
  show "fst (maintain_resource demo_env 1 slow_acks (r, []) demo_key (demo_world slow_state files tree))
      = Inr (r, [(''s'', [''h''])])"
    by (subst slow_run) (simp_all add: demo_env_def demo_world_def)
  show "heads demo_key (forget_commits [''h''] slow_state) = [''c'']"
    by (rule heads_eqI)
       (auto simp: set_heads resource_commits_def forget_commits_def slow_state_def slow_commit_def bt_remove_def)
qed (rule slow_state_facts(2))

end
