(* ===== verification/Text_Download.thy ===== *)
theory Text_Download
  imports Demo_Run
begin

text \<open>
  What a download leaves on disk and in the baseline. For a text resource with several heads the two
  disagree: \<^verbatim>\<open>content_for_remote\<close> renders the first head, \<^verbatim>\<open>remote_state\<close> the merge of all of them.
\<close>

lemma memory_write:
  assumes "loc_of E = memory_port cr" and "apply_one E (WritePresent key bs p) no_result refused w = (Inr r, w')"
  shows "\<exists>v. map_of (lw w') key = Some (bs, v) \<and> ar_version r = Some (decimal v) \<and> rt w' = rt w"
  using assms
  by (auto simp: apply_one_def bind_eq_Inr on_local_def zoom_def memory_port_def memory_apply_one_def Let_def
      io_error_def split: prod.splits if_splits list.splits option.splits)

lemma content_for_text:
  assumes "heads key (rt w) = h # hs" and "map_of (commits (rt w)) h = Some c" and "cm_change c = TextDelta d"
    and "text_doc_at (yrs_of E) (seeds E (tick w)) key h (rt w) = Inr doc"
  shows "content_for_remote E key None w
    = (Inr (as_bytes (text_content (yrs_of E) doc)), w\<lparr>tick := Suc (tick w)\<rparr>)"
  using assms by (simp add: content_for_remote_def bind_apply get_rt_apply new_seed_apply)


definition demo_text :: "string \<Rightarrow> u8 \<Rightarrow> commit" where
  "demo_text i b = \<lparr>cm_id = i, cm_resource = demo_key, cm_parents = [], cm_author = ''a'',
     cm_counter = 1, cm_timestamp = 5, cm_change = TextDelta [b]\<rparr>"

definition demo_texts :: runtime_state where
  "demo_texts = default_state\<lparr>commits := [(''x'', demo_text ''x'' 97), (''y'', demo_text ''y'' 98)]\<rparr>"

lemma demo_text_heads: "heads demo_key demo_texts = [''x'', ''y'']"
  by (rule heads_eqI) (auto simp: set_heads resource_commits_def demo_texts_def demo_text_def)

lemma demo_text_docs:
  "text_doc_at demo_yrs 0 demo_key ''x'' demo_texts = Inr [97]"
  "text_doc demo_yrs 0 demo_key demo_texts = Inr [97, 98]"
  by (simp_all add: text_doc_at_def text_doc_def resource_commits_def demo_texts_def demo_text_def
      reachable.simps keyed_parents_def bset_def List.map_filter_simps delta_of_def
      from_baseline_and_deltas_def demo_yrs_def text_new_def apply_delta_def sort_key_def)

lemma demo_text_bytes: "as_bytes (text_content demo_yrs [97, 98]) = [97, 98]" "as_bytes (text_content demo_yrs [97]) = [97]"
  by (simp_all add: text_content_def demo_yrs_def as_bytes_def utf8_char_def)

lemma demo_text_name: "char_of (97 :: nat) = CHR ''a''" "char_of (98 :: nat) = CHR ''b''"
  by code_simp+

lemma demo_text_remote:
  "remote_state demo_crypto demo_yrs 0 demo_key demo_texts = Inr (remote_present ''ab'' 2 [''x'', ''y''])"
proof -
  have "head_changes demo_texts [''x'', ''y''] = [TextDelta [97], TextDelta [98]]"
    by (simp add: head_changes_def List.map_filter_simps demo_texts_def demo_text_def)
  then show ?thesis
    by (simp add: remote_state_def demo_text_heads Let_def is_delete_def is_text_def demo_text_docs demo_text_bytes
        demo_text_name)
qed

lemma demo_text_download:
  "\<exists>w'. run_download demo_env ''run'' [] demo_key (remote_present ''ab'' 2 [''x'', ''y''])
     (demo_world demo_texts [] []) = (Inr (), w')"
proof -
  let ?w = "demo_world demo_texts [] [] :: (files, fs, redb_store) world"
  have w: "rt ?w = demo_texts" "lw ?w = []" "tick ?w = 0" by (simp_all add: demo_world_def)
  have E: "yrs_of demo_env = demo_yrs" "seeds demo_env = (\<lambda>_. 0)" "loc_of demo_env = memory_port demo_crypto"
    by (simp_all add: demo_env_def)
  have r: "first_head (remote_present ''ab'' 2 [''x'', ''y'']) = Some ''x''"
    by (simp add: first_head_def remote_present_def remote_heads_of_def)
  have c: "map_of (commits demo_texts) ''x'' = Some (demo_text ''x'' 97)" "cm_change (demo_text ''x'' 97) = TextDelta [97]"
    by (simp_all add: demo_texts_def demo_text_def)
  show ?thesis
    by (simp add: run_download_def bind_apply seq_def w r change_of_def c announce_download_def
        content_for_text [of demo_key ?w, unfolded w, OF demo_text_heads c(1,2), of demo_env, unfolded E, OF demo_text_docs(1)]
        apply_one_def on_local_def zoom_def E memory_port_def memory_apply_one_def Let_def precondition_def
        local_state_of_def local_of_def hm_collect_def version_token_def pre_holds_def remember_text_def get_rt_apply
        new_seed_apply demo_text_docs modify_rt_apply tally_def emit_progress_def emit_def)
qed


end
