(* ===== verification/Typed_State.thy ===== *)
theory Typed_State
  imports Progress Demo_Run
begin

text \<open>
  The type invariant of the remembered state: every map of \<^verbatim>\<open>RuntimeState\<close> is a map (its keys are
  strictly increasing), every record is filed under the key its contents name, the cursors are one per
  client and scope, and the retired clients are a set. A new state has it, and every method of the
  runtime keeps it, maintenance included, on success and on error, in the memory of the device and in its
  store.
\<close>

section \<open>The invariant\<close>

definition typed_state :: "runtime_state \<Rightarrow> bool" where
  "typed_state st \<longleftrightarrow>
     bt_ok (baselines st) \<and> bt_ok (commits st) \<and> bt_ok (conflicts st) \<and> bt_ok (kinds st)
     \<and> bt_ok (text_states st) \<and> bt_ok (checkpoints st) \<and> bt_ok (events_since_snapshot st)
     \<and> sorted_wrt (<) (map cursor_key (cursors st)) \<and> sorted_wrt (<) (retired_clients st)
     \<and> (\<forall>p \<in> set (baselines st). fst p = encoded (sb_key (snd p)))
     \<and> (\<forall>p \<in> set (commits st). fst p = cm_id (snd p))
     \<and> (\<forall>p \<in> set (conflicts st). fst p = cf_id (snd p))
     \<and> (\<forall>p \<in> set (checkpoints st). fst p = encoded (sc_key (snd p)))"

definition stored_typed :: "('l, 'r, 'k, 'd) env \<Rightarrow> 'k \<Rightarrow> bool" where
  "stored_typed E k \<longleftrightarrow> (case fst (state_load E k) of Inl _ \<Rightarrow> True | Inr st \<Rightarrow> typed_state st)"

text \<open>The state is stored in redb, and what the decoder makes of a well-typed state is well typed.\<close>

definition typed_codec :: "('l, 'r, redb_store, 'd) env \<Rightarrow> bool" where
  "typed_codec E \<longleftrightarrow> sto_of E = redb_port
     \<and> (\<forall>st st'. typed_state st \<and> dec_state E (enc_state E st) = Inr st' \<longrightarrow> typed_state st')"

definition typed_device :: "('l, 'r, 'k, 'd) env \<Rightarrow> runtime_state \<times> 'k \<Rightarrow> bool" where
  "typed_device E x \<longleftrightarrow> typed_state (fst x) \<and> stored_typed E (snd x)"

definition keeps_typed ::
  "('l, 'r, redb_store, 'd) env \<Rightarrow> runtime_state \<times> redb_store \<Rightarrow> runtime_state \<times> redb_store \<Rightarrow> bool" where
  "keeps_typed E x y \<longleftrightarrow> (typed_codec E \<and> typed_device E x \<longrightarrow> typed_device E y)"

lemma preorder_keeps_typed: "preorder_rel (keeps_typed E)"
  by (auto simp: keeps_typed_def intro!: preorder_relI)

lemma keeps_typed_state: "(typed_state st \<Longrightarrow> typed_state st') \<Longrightarrow> keeps_typed E (st, k) (st', k)"
  by (simp add: keeps_typed_def typed_device_def)

lemma keeps_typed_store:
  "(typed_codec E \<Longrightarrow> typed_device E (st, k) \<Longrightarrow> stored_typed E k') \<Longrightarrow> keeps_typed E (st, k) (st, k')"
  by (simp add: keeps_typed_def typed_device_def)

lemma typed_default: "typed_state default_state"
  by (simp add: typed_state_def default_state_def)

lemma cursors_of_sorted: "bt_ok m \<Longrightarrow> sorted_wrt (<) (map cursor_key (cursors_of m))"
proof -
  have "map cursor_key (cursors_of m) = map fst m"
    by (induction m) (auto simp: cursors_of_def cursor_key_def)
  then show "bt_ok m \<Longrightarrow> ?thesis" by (simp add: bt_ok_def)
qed

lemma typed_advance_cursors: "typed_state st \<Longrightarrow> typed_state (advance_cursors new st)"
proof -
  have "bt_ok (covered_by (cursors st))" by (simp add: covered_by_def)
  then show "typed_state st \<Longrightarrow> ?thesis"
    by (simp add: typed_state_def advance_cursors_def cursors_of_sorted bt_ok_bumps)
qed

lemma bt_ok_removes: "bt_ok m \<Longrightarrow> bt_ok (fold bt_remove ks m)"
  by (induction ks arbitrary: m) auto

lemma set_removes: "p \<in> set (fold bt_remove ks m) \<Longrightarrow> p \<in> set m"
proof (induction ks arbitrary: m)
  case (Cons k ks)
  from Cons.IH [of "bt_remove k m"] Cons.prems show ?case by (simp add: set_bt_remove)
qed simp

lemma stored_typed_save:
  assumes "typed_codec E" and "typed_device E (st, k)"
  shows "stored_typed E (snd (k_save (sto_of E) (enc_state E st) k))"
proof (cases "db_handle k")
  case None
  with assms show ?thesis
    by (simp add: typed_codec_def typed_device_def redb_port_def redb_save_def with_db_def)
next
  case (Some db)
  then obtain k' where k': "redb_save (enc_state E st) k = (Inr (), k')"
    and load: "redb_load k' = (Inr (Some (enc_state E st)), k')"
    using redb.save_law [of k "enc_state E st"] by auto
  with assms show ?thesis
    by (auto simp: typed_codec_def typed_device_def redb_port_def stored_typed_def state_load_def bind_apply
        split: sum.splits)
qed

lemma stored_typed_close: "typed_codec E \<Longrightarrow> stored_typed E (snd (k_close (sto_of E) k))"
  by (simp add: typed_codec_def redb_port_def redb_close_def stored_typed_def state_load_def bind_apply
      redb_load_def with_db_def)

lemmas typed_updates = insert_commit_def count_event_def bump_count_def set_present_baseline_def
  set_deleted_baseline_def clear_conflicts_def drop_checkpoint_def set_bt_insert set_bt_remove strict_sorted_bset

interpretation typing: compacted_state "keeps_typed E" E
  for E :: "('l, 'r, redb_store, 'd) env"
proof unfold_locales
  show "preorder_rel (keeps_typed E)" by (rule preorder_keeps_typed)
  show "keeps_typed E (st, k) (advance_cursors new st, k)" for st k new
    by (rule keeps_typed_state) (rule typed_advance_cursors)
  show "keeps_typed E (st, k) (forget_commits ids st, k)" for ids st k
    by (auto intro!: keeps_typed_state simp: typed_state_def forget_commits_def bt_ok_removes dest!: set_removes)
  show "keeps_typed E (st, k) (st, snd (k_save (sto_of E) (enc_state E st) k))" for st k
    by (intro keeps_typed_store stored_typed_save)
  show "keeps_typed E (st, k) (st, snd (k_close (sto_of E) k))" for st k
    by (intro keeps_typed_store stored_typed_close)
qed (rule keeps_typed_state, auto simp: typed_state_def typed_updates)+

section \<open>The life of a device\<close>

datatype call = Preview "string list" | Reconcile "string list" | Resolve resolve_request
  | Rollback resource_key string | Maintain u64 "string list" | Retire string | Close

fun after_call :: "('l, 'r, 'k, 'd) env \<Rightarrow> call \<Rightarrow> ('l, 'r, 'k) world \<Rightarrow> ('l, 'r, 'k) world" where
  "after_call E (Preview scopes) w = snd (preview E scopes w)"
| "after_call E (Reconcile scopes) w = snd (reconcile E scopes w)"
| "after_call E (Resolve req) w = snd (resolve E req w)"
| "after_call E (Rollback key i) w = snd (rollback E key i w)"
| "after_call E (Maintain n scopes) w = snd (maintain E n scopes w)"
| "after_call E (Retire who) w = snd (retire_client E who w)"
| "after_call E Close w = snd (close_runtime E w)"

text \<open>
  A device starts on a new database. From then on it serves calls, which succeed or fail; between them
  other programs change its files and other devices change the remote; and a runtime may be built anew on
  the database as the last one left it.
\<close>

inductive device :: "('l, 'r, redb_store, 'd) env \<Rightarrow> ('l, 'r, redb_store) world \<Rightarrow> bool" for E where
  opened: "with_backends E l r (redb_open None) = Inr w \<Longrightarrow> device E w"
| called: "device E w \<Longrightarrow> device E (after_call E c w)"
| outside: "device E w \<Longrightarrow> device E (w\<lparr>lw := l, rw := r\<rparr>)"
| restarted: "device E w \<Longrightarrow> with_backends E l r (kw w) = Inr w' \<Longrightarrow> device E w'"

lemma after_call_typed: "on_device (keeps_typed E) w (after_call E c w)"
  by (cases c) (simp_all add: typing.methods [unfolded steps_def] typing.maintain [unfolded steps_def])

lemma with_backends_typed:
  assumes "typed_codec E" and "stored_typed E k" and "with_backends E l r k = Inr w"
  shows "typed_device E (rt w, kw w)"
proof -
  from assms(3) obtain st k' where load: "state_load E k = (Inr st, k')" and w: "rt w = st" "kw w = k'"
    by (auto simp: with_backends_def split: prod.splits sum.splits)
  from assms(1) load have "k' = k"
    by (cases "db_handle k")
       (auto simp: typed_codec_def redb_port_def state_load_def bind_apply redb_load_def with_db_def
         split: option.splits sum.splits)
  with assms(2) load w show ?thesis by (simp add: typed_device_def stored_typed_def)
qed

lemma device_typed:
  assumes "typed_codec E" and "device E w"
  shows "typed_device E (rt w, kw w)"
  using assms(2)
proof (induction rule: device.induct)
  case (opened l r w)
  have "stored_typed E (redb_open None)"
    using assms(1) by (simp add: typed_codec_def redb_port_def stored_typed_def state_load_def bind_apply
        redb_load_def with_db_def redb_open_def typed_default)
  from with_backends_typed [OF assms(1) this opened] show ?case .
next
  case (called w c)
  with after_call_typed [of E w c] assms(1) show ?case by (simp add: on_device_def keeps_typed_def)
next
  case (restarted w l r w')
  from restarted(3) have "stored_typed E (kw w)" by (simp add: typed_device_def)
  from with_backends_typed [OF assms(1) this restarted(2)] show ?case .
qed simp

section \<open>Properties\<close>

text \<open>C16. The state a device remembers, and the one it has stored, are always well typed: from a new
  database on, through any sequence of calls that succeed or fail at any point, any changes made by
  others in between, and any restarts, every map is strictly ordered, every baseline, commit, conflict and
  checkpoint is filed under its own key, and cursors and retired clients are sets. Of the stored JSON it
  needs only that decoding an encoded well-typed state gives a well-typed state.\<close>

theorem runtime_state_well_typed:
  assumes "sto_of E = redb_port"
    and "\<And>st st'. typed_state st \<Longrightarrow> dec_state E (enc_state E st) = Inr st' \<Longrightarrow> typed_state st'"
    and "device E w"
  shows "typed_state (rt w) \<and> stored_typed E (kw w)"
proof -
  have "typed_codec E" unfolding typed_codec_def using assms(1, 2) by blast
  from device_typed [OF this assms(3)] show ?thesis by (simp add: typed_device_def)
qed

theorem runtime_state_well_typed_witness:
  "typed_state (rt (snd (reconcile demo_env [''s''] (demo_world default_state [] []))))"
proof -
  have "with_backends demo_env [] [] (redb_open None) = Inr (demo_world default_state [] [])"
    by (simp add: with_backends_def state_load_def bind_apply demo_env_def redb_port_def redb_load_def
        with_db_def redb_open_def demo_world_def)
  from device.called [OF device.opened [OF this], of "Reconcile [''s'']"]
  have "device demo_env (snd (reconcile demo_env [''s''] (demo_world default_state [] [])))" by simp
  moreover have "sto_of demo_env = redb_port" and "dec_state demo_env bs = Inr default_state" for bs
    by (simp_all add: demo_env_def)
  ultimately show ?thesis
    using runtime_state_well_typed [of demo_env "snd (reconcile demo_env [''s''] (demo_world default_state [] []))"]
      typed_default by simp
qed

end
