(* ===== verification/Shared_Folder.thy ===== *)
theory Shared_Folder
  imports Typed_State
begin

text \<open>
  The remote that several devices share. \<open>shared_remote\<close> is the contract of \<^verbatim>\<open>RemoteStorageV2\<close> that a relation
  on remote states survives every operation the methods use, maintenance apart; inside it, every other
  method of the runtime keeps the relation. It is interpreted on the folder, for the relation that no
  object is changed or removed, and lifted to any interleaving of the calls of any number of devices.
\<close>

section \<open>Steps on the remote\<close>

definition on_rw :: "('r \<Rightarrow> 'r \<Rightarrow> bool) \<Rightarrow> ('l, 'r, 'k) world \<Rightarrow> ('l, 'r, 'k) world \<Rightarrow> bool" where
  "on_rw Q w w' \<longleftrightarrow> Q (rw w) (rw w')"

named_theorems rw_rules

lemma preorder_on_rw: "preorder_rel Q \<Longrightarrow> preorder_rel (on_rw Q)"
  by (auto simp: preorder_rel_def on_rw_def reflp_def transp_def)

lemma steps_modify_rw [rw_rules]:
  "preorder_rel Q \<Longrightarrow> (\<And>w. rw (f w) = rw w) \<Longrightarrow> steps (on_rw Q) (modify f)"
  by (rule steps_modify) (simp add: on_rw_def preorder_rel_refl)

lemma steps_modify_rt_rw [rw_rules]: "preorder_rel Q \<Longrightarrow> steps (on_rw Q) (modify_rt f)"
  unfolding modify_rt_def by (rule steps_modify_rw) simp_all

lemma steps_ports_rw [rw_rules]:
  assumes "preorder_rel Q"
  shows "steps (on_rw Q) (on_local l)" and "steps (on_rw Q) (on_store k)"
  using assms
  by (auto simp: steps_def on_local_def on_store_def zoom_def on_rw_def preorder_rel_refl split: prod.splits)

lemma steps_on_remote_rw: "steps Q m \<Longrightarrow> steps (on_rw Q) (on_remote m)"
  by (auto simp: steps_def on_remote_def zoom_def on_rw_def split: prod.splits) (metis snd_conv)

lemma steps_get_rt_rw [rw_rules]: "preorder_rel Q \<Longrightarrow> steps (on_rw Q) get_rt"
  unfolding get_rt_def by (intro steps_gets preorder_on_rw)

lemma steps_simple_rw [rw_rules]:
  assumes "preorder_rel Q"
  shows "steps (on_rw Q) (now E)" and "steps (on_rw Q) (new_seed E)" and "steps (on_rw Q) (emit evs)"
    and "steps (on_rw Q) (emit_progress ev)" and "steps (on_rw Q) (io_error msg)" and "steps (on_rw Q) (save_state E)"
    and "steps (on_rw Q) (tally f)" and "steps (on_rw Q) (fail_scope s)" and "steps (on_rw Q) next_counter"
    and "steps (on_rw Q) (new_commit E key ps n ch)" and "steps (on_rw Q) (insert_conflict rec)"
    and "steps (on_rw Q) (local_inventory E scopes)" and "steps (on_rw Q) (build_plan E scopes local)"
    and "steps (on_rw Q) (snapshot_generation E)" and "steps (on_rw Q) (apply_one E m no_result refused)"
    and "steps (on_rw Q) (remember_text E key)" and "steps (on_rw Q) (close_runtime E)"
  using assms preorder_on_rw [OF assms]
  by (auto intro!: step_rules rw_rules simp: now_def new_seed_def emit_def emit_progress_def io_error_def save_state_def
      tally_def fail_scope_def next_counter_def new_commit_def insert_conflict_def local_inventory_def build_plan_def
      snapshot_generation_def apply_one_def remember_text_def close_runtime_def Let_def split: prod.splits)

section \<open>The contract\<close>

locale shared_remote =
  fixes Q :: "'r \<Rightarrow> 'r \<Rightarrow> bool"
    and P :: "'r remote_port"
  assumes preorder: "preorder_rel Q"
    and scan_law: "steps Q (r_scan P scopes cs)"
    and load_law: "steps Q (r_load P ids)"
    and commit_law: "steps Q (r_commit P batch)"
    and lookup_law: "steps Q (r_lookup P hs)"
    and read_law: "steps Q (r_read P ranges)"
    and acks_law: "steps Q (r_write_acks P acks)"
    and snapshot_law: "cc_obsolete c = [] \<Longrightarrow> steps Q (r_compact P c)"
begin

lemma port_laws:
  assumes "rem_of E = P"
  shows "steps (on_rw Q) (on_remote (r_scan (rem_of E) scopes cs))" and "steps (on_rw Q) (on_remote (r_load (rem_of E) ids))"
    and "steps (on_rw Q) (on_remote (r_commit (rem_of E) batch))" and "steps (on_rw Q) (on_remote (r_lookup (rem_of E) hs))"
    and "steps (on_rw Q) (on_remote (fetch_manifest (r_lookup (rem_of E)) (r_read (rem_of E)) hs))"
    and "steps (on_rw Q) (on_remote (r_write_acks (rem_of E) acks))"
    and "steps (on_rw Q) (on_remote (r_compact (rem_of E) (scope_snapshot scope generation kept curs [])))"
proof -
  have "steps Q (fetch_manifest (r_lookup P) (r_read P) hs)"
    by (auto intro!: step_rules preorder lookup_law read_law simp: fetch_manifest_def Let_def)
  moreover have "cc_obsolete (scope_snapshot scope generation kept curs []) = []" by (simp add: scope_snapshot_def)
  ultimately show "steps (on_rw Q) (on_remote (fetch_manifest (r_lookup (rem_of E)) (r_read (rem_of E)) hs))"
    and "steps (on_rw Q) (on_remote (r_compact (rem_of E) (scope_snapshot scope generation kept curs [])))"
    using assms by (simp_all add: steps_on_remote_rw snapshot_law)
qed (simp_all add: assms steps_on_remote_rw scan_law load_law commit_law lookup_law acks_law)

lemmas shared_rules = step_rules rw_rules [OF preorder] preorder_on_rw [OF preorder] port_laws

lemma refresh_remote: "rem_of E = P \<Longrightarrow> steps (on_rw Q) (refresh_remote E scopes)"
  by (auto intro!: shared_rules simp: refresh_remote_def)

lemma snapshot_large_catalogs: "rem_of E = P \<Longrightarrow> steps (on_rw Q) (snapshot_large_catalogs E)"
  by (auto intro!: shared_rules simp: snapshot_large_catalogs_def Let_def)

lemma content_for_remote: "rem_of E = P \<Longrightarrow> steps (on_rw Q) (content_for_remote E key sel)"
  by (auto intro!: shared_rules simp: content_for_remote_def Let_def split: resource_change.splits)

lemma publish:
  assumes "rem_of E = P"
  shows "steps (on_rw Q) (publish_bytes E key kind data parents)" and "steps (on_rw Q) (publish_delete E key parents)"
  using assms
  by (auto intro!: shared_rules simp: publish_bytes_def publish_delete_def publish_change_def stage_binary_def
      stage_text_def Let_def split: resource_kind.splits prod.splits)

lemma run_uploads: "rem_of E = P \<Longrightarrow> steps (on_rw Q) (run_uploads E run local plan)"
  by (auto intro!: shared_rules
      simp: run_uploads_def transfer_def prepare_upload_def merge_upload_def merge_texts_def structured_conflict_def
        construct_commit_def upload_change_def text_upload_def finish_commit_def finish_text_upload_def Let_def
      split: prod.splits plan_operation.splits text_merge_result.splits resource_kind.splits resource_change.splits)

lemma run_operation: "rem_of E = P \<Longrightarrow> steps (on_rw Q) (run_operation E run local op)"
  by (auto intro!: shared_rules content_for_remote simp: run_operation_def run_download_def announce_download_def
      run_establish_def run_apply_delete_def Let_def split: plan_operation.splits resource_change.splits)

lemma register_plan: "steps (on_rw Q) (register_plan E scopes local plan run)"
  by (auto intro!: shared_rules simp: register_plan_def register_operation_def Let_def
      split: plan_operation.splits prod.splits)

lemma execute: "rem_of E = P \<Longrightarrow> steps (on_rw Q) (execute E scopes local plan run)"
  by (auto intro!: shared_rules register_plan run_uploads run_operation
      simp: execute_def finish_run_def guarded_operation_def Let_def)

lemma reconcile: "rem_of E = P \<Longrightarrow> steps (on_rw Q) (reconcile E scopes)"
  by (auto intro!: shared_rules refresh_remote snapshot_large_catalogs execute
      simp: reconcile_def Let_def split: prod.splits)

lemma restore_commit:
  "rem_of E = P \<Longrightarrow> steps (on_rw Q) (restore_commit E msgs key current selected i parents operation)"
  by (auto intro!: shared_rules publish content_for_remote simp: restore_commit_def settle_delete_def
      settle_bytes_def delete_unless_absent_def split: resource_change.splits)

lemma resolve_conflict: "rem_of E = P \<Longrightarrow> steps (on_rw Q) (resolve_conflict E req)"
  by (auto intro!: shared_rules publish restore_commit content_for_remote
      simp: resolve_conflict_def conflict_gone_def preserve_version_def choose_primary_def read_local_side_def
        settle_delete_def settle_bytes_def delete_unless_absent_def Let_def
      split: version_choice.splits)

lemma resolve: "rem_of E = P \<Longrightarrow> steps (on_rw Q) (resolve E req)"
  by (auto intro!: shared_rules resolve_conflict reconcile simp: resolve_def)

lemma rollback: "rem_of E = P \<Longrightarrow> steps (on_rw Q) (rollback E key i)"
  by (auto intro!: shared_rules restore_commit reconcile simp: rollback_def rollback_to_def Let_def)

lemma retire_client: "steps (on_rw Q) (retire_client E who)"
  by (auto intro!: shared_rules simp: retire_client_def)

lemma preview:
  assumes "rem_of E = P"
  shows "steps (on_rw Q) (preview E scopes)"
proof -
  let ?m = "seq (refresh_remote E scopes) (bind (local_inventory E scopes) (build_plan E scopes))"
  have "steps (on_rw Q) ?m" using assms by (auto intro!: shared_rules refresh_remote)
  moreover have "preview E scopes w = (fst (?m w), snd (?m w)\<lparr>rt := rt w\<rparr>)" for w
    by (simp add: preview_def bind_Inr [OF get_rt_apply] split_beta)
  ultimately show ?thesis by (simp add: steps_def on_rw_def)
qed

lemma calls:
  assumes "rem_of E = P" and "\<And>n scopes. c \<noteq> Maintain n scopes"
  shows "Q (rw w) (rw (after_call E c w))"
proof -
  have "on_rw Q w (after_call E c w)"
    using assms
    by (cases c) (auto simp: assms(1) reconcile [unfolded steps_def] resolve [unfolded steps_def] rollback [unfolded steps_def]
        preview [unfolded steps_def] retire_client [unfolded steps_def] steps_simple_rw(17) [OF preorder, unfolded steps_def])
  then show ?thesis by (simp add: on_rw_def)
qed

end

section \<open>The folder\<close>

text \<open>The objects: commits, packs and pack indexes. A relation on folders that says none is changed or removed.\<close>

definition object_path :: "path \<Rightarrow> bool" where
  "object_path p \<longleftrightarrow> below commits_dir p \<or> below packs_dir p \<or> below indexes_dir p"

definition objects_kept :: "fs \<Rightarrow> fs \<Rightarrow> bool" where
  "objects_kept fs fs' \<longleftrightarrow> (\<forall>p b. object_path p \<longrightarrow> map_of fs p = Some b \<longrightarrow> map_of fs' p = Some b)"

lemma preorder_objects_kept: "preorder_rel objects_kept"
  by (rule preorder_relI) (auto simp: objects_kept_def)

lemma objects_kept_immutable:
  "objects_kept fs fs' \<Longrightarrow> objects_kept fs (fold (\<lambda>x. write_immutable (f x) (g x)) xs fs')"
  by (auto simp: objects_kept_def map_of_fold_write_immutable_kept)

lemma objects_kept_other:
  "\<not> object_path p \<Longrightarrow> objects_kept fs (fs_write p d fs)" "\<not> object_path p \<Longrightarrow> objects_kept fs (fs_remove p fs)"
  by (auto simp: objects_kept_def)

lemma objects_kept_fold: "(\<And>x fs. objects_kept fs (h x fs)) \<Longrightarrow> objects_kept fs (fold h xs fs)"
  by (induction xs arbitrary: fs) (auto intro: preorder_rel_refl [OF preorder_objects_kept] preorder_rel_trans [OF preorder_objects_kept])

lemma off_objects:
  "\<not> object_path (ack_path cr a)" "\<not> object_path (snapshot_dir cr scope @ [name])"
  "p \<in> set (files_recursive fs segments_dir) \<Longrightarrow> \<not> object_path p"
    apply (simp_all add: object_path_def below_def ack_path_def snapshot_dir_def set_files_recursive dir_defs)
  by (cases p) auto

lemma drop_covered_keeps: "(\<And>p. p \<in> set ps \<Longrightarrow> \<not> object_path p) \<Longrightarrow> steps objects_kept (drop_covered_segments cd covered ps)"
proof (induction ps)
  case Nil
  then show ?case by (simp add: steps_def preorder_rel_refl [OF preorder_objects_kept])
next
  case (Cons p ps)
  then have IH: "steps objects_kept (drop_covered_segments cd covered ps)" and p: "\<not> object_path p" by simp_all
  show ?case unfolding steps_def
  proof
    fix fs
    have "objects_kept fs (snd (drop_covered_segments cd covered ps fs))"
      and "objects_kept (fs_remove p fs) (snd (drop_covered_segments cd covered ps (fs_remove p fs)))"
      using IH by (simp_all add: steps_def)
    with objects_kept_other(2) [OF p] preorder_rel_trans [OF preorder_objects_kept]
    have "objects_kept fs (snd (drop_covered_segments cd covered ps fs))"
      and "objects_kept fs (snd (drop_covered_segments cd covered ps (fs_remove p fs)))" by blast+
    then show "objects_kept fs (snd (drop_covered_segments cd covered (p # ps) fs))"
      by (simp add: preorder_rel_refl [OF preorder_objects_kept] split: sum.split)
  qed
qed

interpretation folder: shared_remote objects_kept "folder_port cr cd"
  for cr :: crypto and cd :: folder_codec
proof
  show "preorder_rel objects_kept" by (rule preorder_objects_kept)
  note kept = preorder_rel_refl [OF preorder_objects_kept] preorder_rel_trans [OF preorder_objects_kept]
  show "steps objects_kept (r_commit (folder_port cr cd) batch)" for batch
    unfolding steps_def folder_port_simps folder_commit_batch_def write_segments_def write_commits_def write_packs_def
    by (simp add: objects_kept_immutable kept(1))
  show "steps objects_kept (r_write_acks (folder_port cr cd) acks)" for acks
    by (auto simp: steps_def folder_port_def folder_write_acknowledgements_def intro!: objects_kept_fold objects_kept_other off_objects)
  show "steps objects_kept (r_compact (folder_port cr cd) c)" if "cc_obsolete c = []" for c
  proof -
    have "objects_kept fs (publish_snapshot cr cd sn fs)" for fs sn
      unfolding publish_snapshot_def Let_def
      by (rule kept(2) [OF _ objects_kept_other(1) [OF off_objects(2)]])
        (simp add: objects_kept_def map_of_write_immutable)
    moreover have "steps objects_kept (drop_covered_segments cd covered (files_recursive fs segments_dir))" for covered fs
      by (rule drop_covered_keeps) (rule off_objects(3))
    moreover have "snd (r_compact (folder_port cr cd) c fs)
        = snd (drop_covered_segments cd (bt_collect (map (\<lambda>c. (cursor_key c, cu_counter c)) (sn_cursors (cc_snapshot c))))
            (files_recursive (publish_snapshot cr cd (cc_snapshot c) fs) segments_dir) (publish_snapshot cr cd (cc_snapshot c) fs))" for fs
      using that by (simp add: folder_port_def folder_compact_catalog_def remove_commits_def Let_def seq_def bind_apply
          split: sum.splits prod.splits)
    ultimately show ?thesis unfolding steps_def by (intro allI) (simp, blast intro: kept(2))
  qed
qed (auto simp: steps_def folder_port_def folder_scan_catalog_def folder_load_commits_def folder_lookup_chunks_def
  folder_read_ranges_def preorder_rel_refl [OF preorder_objects_kept])

section \<open>Devices that share a folder\<close>

text \<open>
  The devices, each with its files, memory and store, and the one folder. Calls are served one at a time and
  to their end, successful or not, on whatever device and in whatever order; between them files are edited
  and runtimes built anew. No device runs maintenance.
\<close>

type_synonym ('i, 'l, 'k) devices = "'i \<Rightarrow> ('l, fs, 'k) world"

inductive network ::
  "('i \<Rightarrow> ('l, fs, 'k, 'd) env) \<Rightarrow> ('i, 'l, 'k) devices \<times> fs \<Rightarrow> ('i, 'l, 'k) devices \<times> fs \<Rightarrow> bool"
  for Es where
  start: "network Es s s"
| call: "network Es s (ws, fs) \<Longrightarrow> \<forall>n scopes. c \<noteq> Maintain n scopes \<Longrightarrow>
    w = after_call (Es i) c ((ws i)\<lparr>rw := fs\<rparr>) \<Longrightarrow> network Es s (ws(i := w), rw w)"
| edit: "network Es s (ws, fs) \<Longrightarrow> network Es s (ws(i := (ws i)\<lparr>lw := l\<rparr>), fs)"
| restart: "network Es s (ws, fs) \<Longrightarrow> with_backends (Es i) l fs (kw (ws i)) = Inr w \<Longrightarrow> network Es s (ws(i := w), fs)"

lemma network_keeps:
  assumes "network Es s s'" and "\<And>i. rem_of (Es i) = folder_port cr cd"
  shows "objects_kept (snd s) (snd s')"
proof -
  have call: "objects_kept fs (rw (after_call (Es i) c (w\<lparr>rw := fs\<rparr>)))" if "\<forall>n scopes. c \<noteq> Maintain n scopes" for fs i c w
    using folder.calls [OF assms(2), where c = c and w = "w\<lparr>rw := fs\<rparr>"] that by simp
  from assms(1) show ?thesis
    by (induction rule: network.induct)
      (auto simp: preorder_rel_refl [OF preorder_objects_kept] intro: preorder_rel_trans [OF preorder_objects_kept] call)
qed

section \<open>Properties\<close>

text \<open>C17. The shared folder is append-only up to maintenance: however many devices share it and however their
  previews, reconciles, resolutions, rollbacks, retirements, failures and restarts interleave, no commit,
  pack or pack index that was in the folder is ever changed or removed. So a commit that could be loaded
  still can be, unchanged, and a range of a pack that could be read reads the same bytes.\<close>

theorem shared_objects_survive:
  assumes "network Es (ws, fs) (ws', fs')" and "\<And>i. rem_of (Es i) = folder_port cr cd"
  shows "(object_path p \<and> map_of fs p = Some b \<longrightarrow> map_of fs' p = Some b)
    \<and> (load_commit cr cd fs j = Inr c \<longrightarrow> load_commit cr cd fs' j = Inr c)
    \<and> (read_range cr fs rg = Inr data \<longrightarrow> read_range cr fs' rg = Inr data)"
proof -
  from network_keeps [OF assms] have kept: "objects_kept fs fs'" by simp
  have "object_path (commits_dir @ [x])" "object_path (packs_dir @ [x])" for x by (simp_all add: object_path_def)
  then have "fs_read fs' q = Inr d" if "fs_read fs q = Inr d" "q = commits_dir @ [x] \<or> q = packs_dir @ [x]" for q d x
    using kept that unfolding objects_kept_def fs_read_Inr_iff by blast
  with kept show ?thesis by (auto simp: objects_kept_def load_commit_def read_range_def Let_def)
qed

theorem shared_objects_survive_witness:
  "let first = after_call demo_env (Reconcile [''s'']) (demo_world default_state demo_files demo_tree);
       second = after_call demo_env (Preview []) (demo_world default_state [] (rw first))
   in map_of (rw second) (packs_dir @ [''dead'']) = Some [9]"
proof -
  define ws where "ws = (\<lambda>i::nat. demo_world default_state (if i = 0 then demo_files else []) [] :: (files, fs, redb_store) world)"
  define first where "first = after_call demo_env (Reconcile [''s'']) (demo_world default_state demo_files demo_tree)"
  define second where "second = after_call demo_env (Preview []) (demo_world default_state [] (rw first))"
  have "network (\<lambda>_. demo_env) (ws, demo_tree) (ws(0 := first), rw first)"
    by (rule network.call [OF network.start, of "Reconcile [''s'']" _ _ 0])
      (simp_all add: ws_def first_def demo_world_def)
  then have "network (\<lambda>_. demo_env) (ws, demo_tree) ((ws(0 := first))(1 := second), rw second)"
    by (rule network.call [of _ _ _ _ "Preview []" _ 1]) (simp_all add: ws_def second_def demo_world_def)
  from shared_objects_survive [OF this, of demo_crypto demo_codec "packs_dir @ [''dead'']" "[9]"]
  have "map_of (rw second) (packs_dir @ [''dead'']) = Some [9]"
    by (simp add: demo_env_def object_path_def demo_tree_def dir_defs below_def)
  then show ?thesis by (simp add: Let_def first_def second_def)
qed

end
