(* ===== verification/Uploads.thy ===== *)
theory Uploads
  imports Resolution Reports
begin

text \<open>
  The publication phase of a run over the memory replica, exactly: without failures every planned
  publication becomes one commit on the heads of its resource, holding the content of its file, and the
  commit graph afterwards has that commit as the only head of the resource.
\<close>

section \<open>What is read for upload\<close>

definition reads_binary :: "(resource_key \<Rightarrow> resource_content option) \<Rightarrow> files \<Rightarrow> bool" where
  "reads_binary contents fs \<longleftrightarrow>
     (\<forall>key c. contents key = Some c \<longrightarrow> rc_kind c = Binary \<and> (\<exists>v. map_of fs key = Some (rc_data c, v)))"

lemma reads_binaryD:
  "reads_binary contents fs \<Longrightarrow> contents key = Some c \<Longrightarrow> rc_kind c = Binary \<and> (\<exists>v. map_of fs key = Some (rc_data c, v))"
  by (simp add: reads_binary_def)

lemma memory_read_binary:
  assumes "memory_read keys fs = (Inr cs, fs')"
  shows "fs' = fs \<and> reads_binary (by_key cs) fs"
  using assms
  by (auto simp: memory_read_def reads_binary_def by_key_def set_map_filter dest!: hm_collect_SomeD)

lemma prepare_upload_binary:
  assumes "reads_binary contents fs" and "prepare_upload E run contents acc op w = (Inr acc', w')"
  shows "rt w' = rt w \<and> lw w' = lw w
    \<and> failures_count (report w') + length (sg_failed acc) = failures_count (report w) + length (sg_failed acc')"
  using assms(2)
  by (auto simp: prepare_upload_def merge_upload_def merge_inputs_def bind_eq_Inr seq_eq_Inr get_rt_apply
      fail_scope_def tally_def emit_progress_def emit_def reject_upload_def stage_chunks_def Let_def
      split: plan_operation.splits option.splits if_splits dest: reads_binaryD [OF assms(1)])

lemma prepare_uploads_binary:
  assumes "reads_binary contents fs" and "fold_m (prepare_upload E run contents) acc ops w = (Inr acc', w')"
  shows "rt w' = rt w \<and> lw w' = lw w
    \<and> failures_count (report w') + length (sg_failed acc) = failures_count (report w) + length (sg_failed acc')"
  using assms(2)
proof (induction ops arbitrary: acc w)
  case (Cons op ops)
  then obtain acc1 w1 where "prepare_upload E run contents acc op w = (Inr acc1, w1)"
    and "fold_m (prepare_upload E run contents) acc1 ops w1 = (Inr acc', w')" by (auto simp: bind_eq_Inr)
  with prepare_upload_binary [OF assms(1), of E run acc op w acc1 w1] Cons.IH [of acc1 w1] show ?case by simp
qed simp

section \<open>The commits of a publication phase\<close>

text \<open>\<open>made E st fs n op (key, c)\<close>: \<open>c\<close> is the commit of counter \<open>n\<close> for the publication \<open>op\<close>, on the
  heads of its resource in \<open>st\<close>, with the content of the file in \<open>fs\<close>.\<close>

definition made ::
  "('l, 'r, 'k, 'd) env \<Rightarrow> runtime_state \<Rightarrow> files \<Rightarrow> u64 \<Rightarrow> plan_operation \<Rightarrow> resource_key \<times> commit \<Rightarrow> bool" where
  "made E st fs n op kc \<longleftrightarrow> fst kc = op_key op
     \<and> (\<exists>t ch. snd kc = commit_create (crypt E) t (op_key op) (heads (op_key op) st) (client E) n ch
        \<and> (case op of
             PublishDelete _ \<Rightarrow> ch = Delete
           | Upload _ _ \<Rightarrow> (\<exists>data v m hs. map_of fs (op_key op) = Some (data, v)
               \<and> ch = BinarySnapshot (blake3_hex (crypt E) data) m hs)
           | _ \<Rightarrow> False))"

fun made_all ::
  "('l, 'r, 'k, 'd) env \<Rightarrow> runtime_state \<Rightarrow> files \<Rightarrow> u64 \<Rightarrow> plan_operation list \<Rightarrow> (resource_key \<times> commit) list \<Rightarrow> bool"
  where
  "made_all E st fs n [] kcs \<longleftrightarrow> kcs = []"
| "made_all E st fs n (op # ops) kcs \<longleftrightarrow>
     (case kcs of [] \<Rightarrow> False | kc # kcs \<Rightarrow> made E st fs (n + 1) op kc \<and> made_all E st fs (n + 1) ops kcs)"

lemma heads_counter [simp]: "heads key (st\<lparr>counter := n\<rparr>) = heads key st"
  by (simp add: heads_def resource_commits_def)

lemma heads_same_commits: "commits st' = commits st \<Longrightarrow> heads key st' = heads key st"
  by (simp add: heads_def resource_commits_def)

lemma made_cong:
  "heads (op_key op) st' = heads (op_key op) st \<Longrightarrow> made E st' fs n op kc = made E st fs n op kc"
  by (simp add: made_def)

lemma made_all_cong:
  "(\<And>op. op \<in> set ops \<Longrightarrow> heads (op_key op) st' = heads (op_key op) st) \<Longrightarrow>
   made_all E st' fs n ops kcs = made_all E st fs n ops kcs"
proof (induction ops arbitrary: n kcs)
  case (Cons op ops)
  have "made E st' fs (n + 1) op kc = made E st fs (n + 1) op kc" for kc by (rule made_cong) (simp add: Cons.prems)
  moreover have "made_all E st' fs (n + 1) ops kcs = made_all E st fs (n + 1) ops kcs" for kcs
    by (rule Cons.IH) (simp add: Cons.prems)
  ultimately show ?case by (simp split: list.splits)
qed simp

lemma madeI:
  "map_of fs key = Some (data, v) \<Longrightarrow> made E st fs n (Upload key loc)
     (key, commit_create (crypt E) t key (heads key st) (client E) n (BinarySnapshot (blake3_hex (crypt E) data) m hs))"
  "made E st fs n (PublishDelete key) (key, commit_create (crypt E) t key (heads key st) (client E) n Delete)"
  by (auto simp: made_def)

lemma construct_commit_made:
  assumes "reads_binary contents (lw w)" and "sg_failed stg = []" and "is_publication op"
    and "construct_commit E contents (stg, old) op w = (Inr acc', w')"
  shows "\<exists>stg' kc. acc' = (stg', old @ [kc]) \<and> sg_failed stg' = []
    \<and> rt w' = (rt w)\<lparr>counter := counter (rt w) + 1\<rparr> \<and> lw w' = lw w \<and> report w' = report w
    \<and> made E (rt w) (lw w) (counter (rt w) + 1) op kc"
proof (cases op)
  case (Upload key loc)
  with assms(2,4) obtain c where c: "contents key = Some c"
    by (auto simp: construct_commit_def bind_eq_Inr get_rt_apply next_counter_apply split: option.splits)
  from reads_binaryD [OF assms(1) this] obtain v where "rc_kind c = Binary" "map_of (lw w) key = Some (rc_data c, v)"
    by blast
  with assms(2,4) Upload c show ?thesis
    by (auto simp: construct_commit_def bind_eq_Inr get_rt_apply next_counter_apply new_commit_apply upload_change_def
        intro!: madeI)
next
  case (PublishDelete key)
  with assms(2,4) show ?thesis
    by (auto simp: construct_commit_def bind_eq_Inr get_rt_apply next_counter_apply new_commit_apply intro!: madeI)
qed (use assms(3) in \<open>simp_all add: is_publication_def\<close>)

lemma construct_commits_made:
  assumes "reads_binary contents (lw w)" and "sg_failed stg = []" and "list_all is_publication ops"
    and "fold_m (construct_commit E contents) (stg, old) ops w = (Inr (stg', new), w')"
  shows "\<exists>kcs. new = old @ kcs \<and> commits (rt w') = commits (rt w) \<and> lw w' = lw w \<and> report w' = report w
    \<and> made_all E (rt w) (lw w) (counter (rt w)) ops kcs"
  using assms
proof (induction ops arbitrary: stg old w)
  case (Cons op ops)
  then obtain acc1 w1 where one: "construct_commit E contents (stg, old) op w = (Inr acc1, w1)"
    and rest: "fold_m (construct_commit E contents) acc1 ops w1 = (Inr (stg', new), w')"
    by (auto simp: bind_eq_Inr)
  from construct_commit_made [OF Cons.prems(1,2) _ one] Cons.prems(3) obtain stg1 kc where
    acc1: "acc1 = (stg1, old @ [kc])" "sg_failed stg1 = []"
    and w1: "rt w1 = (rt w)\<lparr>counter := counter (rt w) + 1\<rparr>" "lw w1 = lw w" "report w1 = report w"
    and made: "made E (rt w) (lw w) (counter (rt w) + 1) op kc" by auto
  from Cons.IH [OF _ acc1(2) _ rest [unfolded acc1(1)]] Cons.prems(1,3) w1 obtain kcs where
    "new = (old @ [kc]) @ kcs" "commits (rt w') = commits (rt w1)" "lw w' = lw w1" "report w' = report w1"
    "made_all E (rt w1) (lw w1) (counter (rt w1)) ops kcs" by auto
  with w1 made show ?case
    by (intro exI [of _ "kc # kcs"]) (simp add: made_all_cong [of ops "(rt w)\<lparr>counter := counter (rt w) + 1\<rparr>" "rt w"])
qed simp

section \<open>Remembering the commits\<close>

definition insert_all :: "commit list \<Rightarrow> runtime_state \<Rightarrow> runtime_state" where
  "insert_all cs st = foldl (\<lambda>st c. insert_commit c st) st cs"

lemma insert_all_Cons [simp]: "insert_all (c # cs) st = insert_all cs (insert_commit c st)"
  by (simp add: insert_all_def)

lemma insert_all_Nil [simp]: "insert_all [] st = st"
  by (simp add: insert_all_def)

lemma commits_insert_all: "commits (insert_all cs st) = foldl (\<lambda>m c. bt_insert (cm_id c) c m) (commits st) cs"
  by (induction cs arbitrary: st) (simp_all add: insert_commit_def)

lemma made_not_text: "made E st fs n op kc \<Longrightarrow> \<not> is_text (cm_change (snd kc))"
  by (cases op) (auto simp: made_def is_text_def)

lemma finish_commit_binary:
  assumes "\<not> is_text (cm_change (snd kc))" and "finish_commit E run local kc w = (Inr (), w')"
  shows "commits (rt w') = commits (insert_commit (snd kc) (rt w)) \<and> lw w' = lw w
    \<and> failures_count (report w') = failures_count (report w)"
  using assms
  by (cases "cm_change (snd kc)")
    (auto simp: finish_commit_def seq_eq_Inr bind_eq_Inr get_rt_apply modify_rt_apply emit_progress_def
      emit_def tally_def Let_def set_deleted_baseline_def set_present_baseline_def is_text_def
      split: option.splits prod.splits)

lemma finish_commits_made:
  assumes "made_all E st fs n ops kcs" and "for_each kcs (finish_commit E run local) w = (Inr (), w')"
  shows "commits (rt w') = commits (insert_all (map snd kcs) (rt w)) \<and> lw w' = lw w
    \<and> failures_count (report w') = failures_count (report w)"
  using assms
proof (induction ops arbitrary: n kcs w)
  case (Cons op ops)
  from Cons.prems(1) obtain kc kcs' where kcs: "kcs = kc # kcs'" and made: "made E st fs (n + 1) op kc"
    "made_all E st fs (n + 1) ops kcs'" by (cases kcs) auto
  from Cons.prems(2) obtain w1 where one: "finish_commit E run local kc w = (Inr (), w1)"
    and rest: "for_each kcs' (finish_commit E run local) w1 = (Inr (), w')"
    by (auto simp: kcs seq_eq_Inr)
  from finish_commit_binary [OF made_not_text [OF made(1)] one] Cons.IH [OF made(2) rest] show ?case
    by (simp add: kcs commits_insert_all insert_commit_def)
qed simp

lemma emit_progress_keeps:
  "emit_progress ev w = (r, w') \<Longrightarrow> rt w' = rt w \<and> lw w' = lw w \<and> rw w' = rw w \<and> report w' = report w"
  by (auto simp: emit_progress_def emit_def seq_def bind_def)

lemma on_remote_keeps: "on_remote m w = (r, w') \<Longrightarrow> rt w' = rt w \<and> lw w' = lw w \<and> report w' = report w"
  by (auto simp: on_remote_def zoom_def split: prod.splits)

lemma save_state_keeps:
  "save_state E w = (r, w') \<Longrightarrow> rt w' = rt w \<and> lw w' = lw w \<and> rw w' = rw w \<and> report w' = report w"
  by (auto simp: save_state_def bind_def get_rt_apply on_store_def zoom_def split: prod.splits)

lemma transfer_made:
  assumes "made_all E st fs n ops kcs" and "transfer E run local packs kcs w = (Inr (), w')"
  shows "commits (rt w') = commits (insert_all (map snd kcs) (rt w)) \<and> lw w' = lw w
    \<and> failures_count (report w') = failures_count (report w)"
proof (cases "kcs = [] \<and> packs = []")
  case True
  with assms(2) show ?thesis by (simp add: transfer_def)
next
  case False
  with assms(2) obtain ev ids w0 w1 w2 where ev: "emit_progress ev w = (Inr (), w0)"
    and m: "on_remote (r_commit (rem_of E) (upload_batch E packs kcs)) w0 = (Inr ids, w1)"
    and fin: "for_each kcs (finish_commit E run local) w1 = (Inr (), w2)" and save: "save_state E w2 = (Inr (), w')"
    by (simp add: transfer_def seq_eq_Inr bind_eq_Inr) blast
  from finish_commits_made [OF assms(1) fin] emit_progress_keeps [OF ev] on_remote_keeps [OF m] save_state_keeps [OF save]
  show ?thesis by (simp add: commits_insert_all)
qed

lemma transfer_accounts: "steps (accounts S) (transfer E run local packs old)"
  by (auto intro!: account_rules finish_commit_accounts simp: transfer_def Let_def)

lemma run_uploads_made:
  assumes "loc_of E = memory_port cr" and "run_uploads E run local plan w = (Inr (), w')"
    and "failures_count (report w') \<le> failures_count (report w)"
  obtains kcs where "made_all E (rt w) (lw w) (counter (rt w)) (filter is_publication plan) kcs"
    and "lw w' = lw w" and "commits (rt w') = commits (insert_all (map snd kcs) (rt w))"
proof -
  let ?ops = "filter is_publication plan"
  let ?say = "\<lambda>ev. if ?ops = [] then ret () else emit_progress ev"
  have say: "rt v' = rt v \<and> lw v' = lw v \<and> report v' = report v" if "?say ev v = (Inr (), v')" for ev v v'
    using that by (auto split: if_splits dest: emit_progress_keeps)
  from assms(2) obtain ev1 ev2 w1 w2 w3 w4 w5 w6 cs stg found packs stg' kcs where
    w1: "?say ev1 w = (Inr (), w1)"
    and read: "on_local (l_read (loc_of E) (upload_keys ?ops)) w1 = (Inr cs, w2)"
    and prep: "fold_m (prepare_upload E run (by_key cs))
      \<lparr>sg_chunks = [], sg_manifests = [], sg_failed = [], sg_merged = []\<rparr> ?ops w2 = (Inr stg, w3)"
    and found: "on_remote (r_lookup (rem_of E) (map (\<lambda>(c, _). ci_hash c) (sg_chunks stg))) w3 = (Inr found, w4)"
    and w5: "?say ev2 w4 = (Inr (), w5)"
    and con: "fold_m (construct_commit E (by_key cs)) (stg, []) ?ops w5 = (Inr (stg', kcs), w6)"
    and tr: "transfer E run local packs kcs w6 = (Inr (), w')"
    by (auto simp: run_uploads_def Let_def seq_eq_Inr bind_eq_Inr split: prod.splits)
  note w1 = say [OF w1] and w5 = say [OF w5] and w4 = on_remote_keeps [OF found]
  from read assms(1) w1 have w2: "rt w2 = rt w1" "lw w2 = lw w1" "report w2 = report w1"
    and cs: "reads_binary (by_key cs) (lw w)"
    by (auto simp: on_local_def zoom_def memory_port_def split: prod.splits dest!: memory_read_binary)
  note p = prepare_uploads_binary [OF cs prep]
  have chain: "rt w5 = rt w" "lw w5 = lw w" using w1 w2 w4 w5 p by simp_all
  have "accounts {} w5 w'"
    using stepsD [OF steps_fold_m [OF preorder_accounts construct_commit_accounts] con] stepsD [OF transfer_accounts tr]
    by (rule preorder_rel_trans [OF preorder_accounts])
  then have "failures_count (report w5) \<le> failures_count (report w')" by (simp add: accounts_def)
  moreover have "failures_count (report w5) = failures_count (report w) + length (sg_failed stg)"
    using p w1 w2 w4 w5 by simp
  ultimately have "length (sg_failed stg) = 0" using assms(3) by linarith
  then have ok: "sg_failed stg = []" by simp
  have "list_all is_publication ?ops" by (simp add: list_all_iff)
  from construct_commits_made [OF _ ok this con] cs chain
  have made: "made_all E (rt w) (lw w) (counter (rt w)) ?ops kcs" "commits (rt w6) = commits (rt w)" "lw w6 = lw w"
    by simp_all
  from transfer_made [OF made(1) tr] made(2,3) show ?thesis
    by (intro that [OF made(1)]) (simp_all add: commits_insert_all)
qed

section \<open>The commit graph after the phase\<close>

text \<open>No known commit and no known parent has an id made from one of the next \<open>m\<close> counter values.\<close>

definition counters_unused :: "string \<Rightarrow> nat \<Rightarrow> runtime_state \<Rightarrow> bool" where
  "counters_unused who m st \<longleftrightarrow>
     list_all (\<lambda>j. counter_unused who (st\<lparr>counter := counter st + of_nat j\<rparr>)) [0..<m]"

lemma counter_prefix_inj:
  assumes "take (length (counter_prefix who a)) (counter_prefix who b @ x) = counter_prefix who a"
  shows "a = b"
proof -
  have digits: "CHR '':'' \<notin> set (decimal n)" for n
  proof
    assume "CHR '':'' \<in> set (decimal n)"
    then obtain d where "d < 10" "CHR '':'' = digit d" by (blast dest: decimal_digits)
    then have "(of_char CHR '':'' :: nat) < 58" using digit_range by metis
    then show False by simp
  qed
  have tw: "takeWhile (\<lambda>c. c \<noteq> CHR '':'') (decimal n @ CHR '':'' # y) = decimal n" for n y
    using digits [of n] by (subst takeWhile_append2) auto
  from assms obtain y where "counter_prefix who b @ x = counter_prefix who a @ y"
    by (metis append_take_drop_id)
  then have "decimal (unat b) @ CHR '':'' # x = decimal (unat a) @ CHR '':'' # y" by (simp add: counter_prefix_def)
  then have "decimal (unat b) = decimal (unat a)" by (metis tw)
  then have "unat b = unat a" by (rule decimal_inj)
  then show ?thesis by (simp add: word_unat_eq_iff)
qed

lemma cm_id_prefix: "\<exists>x. cm_id (commit_create cr t key ps who n ch) = counter_prefix who n @ x"
  by (simp add: commit_create_def Let_def counter_prefix_def)

lemma counter_unused_later:
  assumes "counter_unused who st" and "c = commit_create cr t key (heads key st) who n ch"
    and "commits_ok st" and "n \<noteq> counter st + 1"
  shows "counter_unused who (insert_commit c st)"
proof -
  let ?p = "counter_prefix who (counter st + 1)"
  have "take (length ?p) (cm_id c) \<noteq> ?p"
    using cm_id_prefix [of cr t key "heads key st" who n ch] counter_prefix_inj [of who "counter st + 1" n] assms(2,4)
    by metis
  moreover have "take (length ?p) i \<noteq> ?p" if "i \<in> set (heads key st)" for i
    using that assms(1,3) by (auto simp: counter_unused_def Let_def list_all_iff set_heads set_resource_commits)
  ultimately show ?thesis using assms(1,3)
    by (auto simp: counter_unused_def Let_def list_all_iff insert_commit_def set_bt_insert commits_ok_def assms(2))
qed

lemma made_commit:
  assumes "made E st fs n op kc"
  obtains t ch where "fst kc = op_key op"
    and "snd kc = commit_create (crypt E) t (op_key op) (heads (op_key op) st) (client E) n ch"
    and "is_publication op"
  using assms by (cases op) (auto simp: made_def is_publication_def)

lemma counters_unused_step:
  assumes "counters_unused (client E) (Suc m) st" and "commits_ok st" and "Suc m < 2 ^ 64"
    and "made E st fs (counter st + 1) op kc"
  shows "counters_unused (client E) m ((insert_commit (snd kc) st)\<lparr>counter := counter st + 1\<rparr>)"
  unfolding counters_unused_def list_all_iff
proof
  fix j assume j: "j \<in> set [0..<m]"
  let ?st = "st\<lparr>counter := counter st + of_nat (Suc j)\<rparr>"
  from made_commit [OF assms(4)] obtain t ch where
    "snd kc = commit_create (crypt E) t (op_key op) (heads (op_key op) st) (client E) (counter st + 1) ch" by blast
  then have c: "snd kc = commit_create (crypt E) t (op_key op) (heads (op_key op) ?st) (client E) (counter st + 1) ch"
    by simp
  have "counter_unused (client E) ?st"
    using assms(1) j unfolding counters_unused_def list_all_iff by (metis Suc_less_eq atLeastLessThan_iff le0 set_upt)
  moreover have "counter st + 1 \<noteq> counter ?st + 1"
  proof
    assume "counter st + 1 = counter ?st + 1"
    then have "(of_nat (Suc j) :: u64) = 0" by simp
    then have "2 ^ 64 dvd Suc j" by (simp only: word_of_nat_eq_0_iff) simp
    with j assms(3) show False by (auto dest!: dvd_imp_le)
  qed
  ultimately have "counter_unused (client E) (insert_commit (snd kc) ?st)"
    using assms(2) by (intro counter_unused_later [OF _ c]) (simp_all add: commits_ok_def)
  moreover have "counter_unused (client E) (insert_commit (snd kc) ?st)
      = counter_unused (client E) ((insert_commit (snd kc) st)\<lparr>counter := counter st + 1 + of_nat j\<rparr>)"
    by (simp add: counter_unused_def insert_commit_def ac_simps)
  ultimately show "counter_unused (client E) ((insert_commit (snd kc) st)\<lparr>counter := counter st + 1\<rparr>
      \<lparr>counter := counter ((insert_commit (snd kc) st)\<lparr>counter := counter st + 1\<rparr>) + of_nat j\<rparr>)" by simp
qed

lemma made_insert:
  assumes "made E st fs (counter st + 1) op kc" and "commits_ok st" and "counter_unused (client E) st"
  shows "fresh_commit (snd kc) st
    \<and> heads k (insert_commit (snd kc) st) = (if k = op_key op then [cm_id (snd kc)] else heads k st)"
proof -
  let ?c = "snd kc"
  from made_commit [OF assms(1)] obtain t ch where
    c: "?c = commit_create (crypt E) t (op_key op) (heads (op_key op) st) (client E) (counter st + 1) ch" by blast
  from counter_unused_fresh [OF assms(3,2) c] have fresh: "fresh_commit ?c st" .
  have key: "cm_resource ?c = op_key op" by (simp add: c)
  have "heads (op_key op) (insert_commit ?c st) = [cm_id ?c]"
  proof (rule heads_eqI)
    show "set (heads (op_key op) (insert_commit ?c st)) = set [cm_id ?c]"
      using set_heads_insert [OF assms(2) fresh, of "op_key op"] by (simp add: key) (simp add: c)
  qed simp
  with fresh heads_insert_other [OF assms(2) fresh] key show ?thesis by simp
qed

text \<open>What the phase leaves of each resource: one head, the new commit, where something was published,
  and the old heads, with the old commits, elsewhere.\<close>

lemma insert_made:
  assumes "made_all E st fs (counter st) ops kcs" and "distinct (map op_key ops)" and "commits_ok st"
    and "counters_unused (client E) (length ops) st" and "length ops < 2 ^ 64"
  shows "commits_ok (insert_all (map snd kcs) st)
    \<and> (\<forall>i c. map_of (commits st) i = Some c \<longrightarrow> map_of (commits (insert_all (map snd kcs) st)) i = Some c)
    \<and> (\<forall>key. key \<notin> op_key ` set ops \<longrightarrow> heads key (insert_all (map snd kcs) st) = heads key st)
    \<and> (\<forall>op \<in> set ops. \<exists>n kc. made E st fs n op kc \<and> heads (op_key op) (insert_all (map snd kcs) st) = [cm_id (snd kc)]
         \<and> map_of (commits (insert_all (map snd kcs) st)) (cm_id (snd kc)) = Some (snd kc))"
  using assms
proof (induction ops arbitrary: st kcs)
  case (Cons op ops)
  from Cons.prems(1) obtain kc kcs' where kcs: "kcs = kc # kcs'" and made: "made E st fs (counter st + 1) op kc"
    and rest: "made_all E st fs (counter st + 1) ops kcs'" by (cases kcs) auto
  let ?c = "snd kc"
  let ?st = "(insert_commit ?c st)\<lparr>counter := counter st + 1\<rparr>"
  have "counter_unused (client E) st"
    using Cons.prems(4) by (simp add: counters_unused_def upt_conv_Cons del: upt_Suc)
  note new = made_insert [OF made Cons.prems(3) this]
  then have fresh: "fresh_commit ?c st" and hs: "heads k ?st = (if k = op_key op then [cm_id ?c] else heads k st)" for k
    by simp_all
  have ne: "op_key op' \<noteq> op_key op" if "op' \<in> set ops" for op'
    using that Cons.prems(2) by (auto dest: image_eqI [of _ op_key, rotated])
  let ?Z = "insert_all (map snd kcs) st"
  have Z: "commits (insert_all (map snd kcs') ?st) = commits ?Z" by (simp add: kcs commits_insert_all insert_commit_def)
  have hZ: "heads k (insert_all (map snd kcs') ?st) = heads k ?Z" for k by (rule heads_same_commits) (rule Z)
  have same: "heads (op_key op') ?st = heads (op_key op') st" if "op' \<in> set ops" for op'
    using hs [of "op_key op'"] ne [OF that] by simp
  have made': "made_all E ?st fs (counter ?st) ops kcs'"
    using rest made_all_cong [of ops ?st st E fs "counter st + 1" kcs', OF same] by simp
  have dist: "distinct (map op_key ops)" using Cons.prems(2) by simp
  have ok: "commits_ok ?st" using commits_ok_insert [OF Cons.prems(3)] by (simp add: commits_ok_def)
  have un: "counters_unused (client E) (length ops) ?st"
    using counters_unused_step [OF _ Cons.prems(3) _ made, of "length ops"] Cons.prems(4,5) by simp
  have len: "length ops < 2 ^ 64" using Cons.prems(5) by simp
  have okZ: "commits_ok (insert_all (map snd kcs') ?st) = commits_ok ?Z" by (simp add: commits_ok_def Z)
  note IH = Cons.IH [OF made' dist ok un len, unfolded okZ hZ Z]
  have old: "map_of (commits ?st) i = Some d" if "map_of (commits st) i = Some d" for i d
    using that fresh by (auto simp: insert_commit_def fresh_commit_def)
  have mk: "made E st fs n op' kc'" if "op' \<in> set ops" "made E ?st fs n op' kc'" for n op' kc'
    using that made_cong [of op' ?st st E fs n kc', OF same] by simp
  have "heads (op_key op) ?Z = [cm_id ?c]" using IH hs [of "op_key op"] ne by (metis imageE)
  moreover have "map_of (commits ?Z) (cm_id ?c) = Some ?c" using IH by (simp add: insert_commit_def del: map_of_eq_Some_iff_bt)
  moreover have "\<exists>n kc'. made E st fs n op' kc' \<and> heads (op_key op') ?Z = [cm_id (snd kc')]
      \<and> map_of (commits ?Z) (cm_id (snd kc')) = Some (snd kc')" if "op' \<in> set ops" for op'
    using IH mk [OF that] that by blast
  ultimately have "\<forall>op' \<in> set (op # ops). \<exists>n kc'. made E st fs n op' kc' \<and> heads (op_key op') ?Z = [cm_id (snd kc')]
      \<and> map_of (commits ?Z) (cm_id (snd kc')) = Some (snd kc')"
    using made by (metis set_ConsD)
  moreover have "heads key ?Z = heads key st" if "key \<notin> op_key ` set (op # ops)" for key
    using that IH hs [of key] by (metis image_insert insertCI list.simps(15))
  ultimately show ?case using IH old by blast
qed simp

end
