(* ===== verification/Agreement.thy ===== *)
theory Agreement
  imports Uploads Text_Download "HOL-Library.Multiset"
begin

text \<open>
  What a clean run leaves: when a reconcile reports no failure and no conflict, the replica and the
  remote agree on every resource in scope. The memory replica has the files, the folder the chunks.
\<close>

section \<open>The remote state of binary resources\<close>

definition binary_state :: "runtime_state \<Rightarrow> resource_key \<Rightarrow> remote_state" where
  "binary_state st key =
     (let hs = heads key st; changes = head_changes st hs; snapshots = List.map_filter snapshot_of changes
      in if hs = [] then RemoteMissing
         else if list_all is_delete changes then RemoteDeleted hs
         else if length snapshots = length changes \<and> list_all (\<lambda>v. v = snapshots ! 0) snapshots
         then remote_present (fst (snapshots ! 0)) (snd (snapshots ! 0)) hs
         else RemoteForked hs)"

definition text_free :: "runtime_state \<Rightarrow> bool" where
  "text_free st \<longleftrightarrow> list_all (\<lambda>(i, c). \<not> is_text (cm_change c)) (commits st)"

lemma remote_state_binary:
  assumes "list_all (\<lambda>ch. \<not> is_text ch) (head_changes st (heads key st))"
  shows "remote_state cr Y s key st = Inr (binary_state st key)"
proof -
  have "list_all is_delete (head_changes st (heads key st))" if "list_all is_text (head_changes st (heads key st))"
    using assms that by (cases "head_changes st (heads key st)") auto
  then show ?thesis by (simp add: remote_state_def binary_state_def Let_def)
qed

lemma text_free_heads: "text_free st \<Longrightarrow> list_all (\<lambda>ch. \<not> is_text ch) (head_changes st (heads key st))"
  by (auto simp: text_free_def list_all_iff head_changes_mem dest!: map_of_SomeD)

lemma head_known:
  "commits_ok st \<Longrightarrow> i \<in> set (heads key st) \<Longrightarrow> \<exists>c. map_of (commits st) i = Some c \<and> cm_resource c = key"
  by (auto simp: set_heads set_resource_commits commits_ok_def)

lemma binary_state_present:
  assumes "commits_ok st" and "binary_state st key = RemotePresent x n hs"
  shows "\<exists>h hs' c m ms. heads key st = h # hs' \<and> map_of (commits st) h = Some c \<and> cm_change c = BinarySnapshot x m ms"
proof -
  from assms(2) have "heads key st \<noteq> []" by (auto simp: binary_state_def)
  then obtain h hs' where h: "heads key st = h # hs'" by (cases "heads key st") auto
  with head_known [OF assms(1), of h key] obtain c where c: "map_of (commits st) h = Some c" by auto
  let ?chs = "head_changes st (heads key st)"
  let ?snaps = "List.map_filter snapshot_of ?chs"
  have first: "cm_change c \<in> set ?chs" unfolding head_changes_mem h using c by force
  from assms(2) have snaps: "length ?snaps = length ?chs" "list_all (\<lambda>v. v = ?snaps ! 0) ?snaps" "x = fst (?snaps ! 0)"
    by (auto simp: binary_state_def Let_def remote_present_def split: if_splits)
  obtain y m where "?snaps ! 0 = (y, m)" by force
  with same_snapshots [OF snaps(1,2)] first snaps(3) have "snapshot_of (cm_change c) = Some (x, m)"
    by (simp add: list_all_iff)
  then have "\<exists>m ms. cm_change c = BinarySnapshot x m ms"
    by (auto simp: snapshot_of_def split: resource_change.splits)
  with h c show ?thesis by blast
qed

lemma map_filter_cong: "(\<And>x. x \<in> set xs \<Longrightarrow> f x = g x) \<Longrightarrow> List.map_filter f xs = List.map_filter g xs"
  by (induction xs) (simp_all add: List.map_filter_simps split: option.splits)

text \<open>A state that knows the same commits under the old ids, and has the old heads, has the old state.\<close>

lemma head_changes_keep:
  assumes "commits_ok st" and "\<And>i c. map_of (commits st) i = Some c \<Longrightarrow> map_of (commits st') i = Some c"
  shows "head_changes st' (heads key st) = head_changes st (heads key st)"
proof -
  have "map_of (commits st') i = map_of (commits st) i" if "i \<in> set (heads key st)" for i
    using head_known [OF assms(1) that] assms(2) by fastforce
  then show ?thesis unfolding head_changes_def by (intro map_filter_cong) simp
qed

lemma binary_state_keep:
  assumes "commits_ok st" and "\<And>i c. map_of (commits st) i = Some c \<Longrightarrow> map_of (commits st') i = Some c"
    and "heads key st' = heads key st"
  shows "binary_state st' key = binary_state st key"
  using head_changes_keep [of st st' key, OF assms(1,2)] assms(3) by (simp add: binary_state_def Let_def)

lemma binary_state_single:
  assumes "heads key st = [i]" and "map_of (commits st) i = Some c"
  shows "binary_state st key = (case cm_change c of
      Delete \<Rightarrow> RemoteDeleted [i] | BinarySnapshot x n _ \<Rightarrow> remote_present x n [i] | TextDelta _ \<Rightarrow> RemoteForked [i])"
  using assms
  by (auto simp: binary_state_def head_changes_def List.map_filter_simps is_delete_def snapshot_of_def
      split: resource_change.splits)

section \<open>Agreement\<close>

definition file_content :: "crypto \<Rightarrow> files \<Rightarrow> resource_key \<Rightarrow> string option" where
  "file_content cr fs key = map_option (\<lambda>(data, _). blake3_hex cr data) (map_of fs key)"

definition agreed_state :: "crypto \<Rightarrow> remote_state \<Rightarrow> files \<Rightarrow> resource_key \<Rightarrow> bool" where
  "agreed_state cr r fs key \<longleftrightarrow>
     (case r of RemoteForked _ \<Rightarrow> False | _ \<Rightarrow> remote_content_id r = file_content cr fs key)"

definition agreed :: "('l, 'r, 'k, 'd) env \<Rightarrow> runtime_state \<Rightarrow> files \<Rightarrow> resource_key \<Rightarrow> bool" where
  "agreed E st fs key \<longleftrightarrow>
     (case remote_state (crypt E) (yrs_of E) 0 key st of Inl _ \<Rightarrow> False | Inr r \<Rightarrow> agreed_state (crypt E) r fs key)"

section \<open>What is planned\<close>

text \<open>The inventory of the memory replica is its listing, which carries every content hash.\<close>

definition listing :: "crypto \<Rightarrow> string list \<Rightarrow> files \<Rightarrow> local_resource list" where
  "listing cr scopes fs = map (\<lambda>(key, data, version). \<lparr>lr_key = key, lr_kind = Binary,
      lr_state = LocalPresent (blake3_hex cr data) (word_of_nat (length data)) (decimal version)\<rparr>)
    (filter (\<lambda>(key, _). scoped scopes (scope_id key)) fs)"

lemma memory_inventory:
  assumes "loc_of E = memory_port (crypt E)" and "\<And>bs. blake3_hex (crypt E) bs \<noteq> []"
  shows "local_inventory E scopes w = (Inr (listing (crypt E) scopes (lw w)), w)"
proof -
  let ?rs = "listing (crypt E) scopes (lw w)"
  have "cache_step (rt w) r = (r, [])" if "r \<in> set ?rs" for r
    using assms(2) that by (auto simp: listing_def cache_step_def)
  then have "map (fst \<circ> cache_step (rt w)) ?rs = ?rs" and "concat (map (snd \<circ> cache_step (rt w)) ?rs) = []"
    by (auto intro!: map_idI)
  then show ?thesis using assms(1)
    by (auto simp: local_inventory_def bind_apply get_rt_apply on_local_def zoom_def memory_port_def memory_list_def
        listing_def [symmetric] Let_def)
qed

lemma listing_kinds: "hm_collect (map (\<lambda>r. (lr_key r, lr_kind r)) (listing cr scopes fs)) key \<noteq> Some Text"
  by (auto simp: listing_def dest!: hm_collect_SomeD)

lemma listing_keys: "bt_ok fs \<Longrightarrow> distinct (map lr_key (listing cr scopes fs))"
proof -
  assume "bt_ok fs"
  then have "distinct (map fst (filter (\<lambda>(key, _). scoped scopes (scope_id key)) fs))"
    by (intro distinct_map_filter bt_ok_distinct)
  then show ?thesis by (simp add: listing_def comp_def case_prod_unfold)
qed

lemma local_state_listing:
  assumes "bt_ok fs" and "scoped scopes (scope_id key)"
  shows "local_state_of (listing cr scopes fs) key = (case map_of fs key of None \<Rightarrow> LocalMissing
    | Some (data, v) \<Rightarrow> LocalPresent (blake3_hex cr data) (word_of_nat (length data)) (decimal v))"
proof (cases "map_of fs key")
  case None
  then have "key \<notin> lr_key ` set (listing cr scopes fs)" by (force simp: listing_def map_of_eq_None_iff)
  then have "local_of (listing cr scopes fs) key = None" by (simp add: local_of_def hm_collect_None_iff image_image)
  with None show ?thesis by (simp add: local_state_of_def)
next
  case (Some f)
  obtain data v where f: "f = (data, v)" by force
  let ?r = "\<lparr>lr_key = key, lr_kind = Binary,
      lr_state = LocalPresent (blake3_hex cr data) (word_of_nat (length data)) (decimal v)\<rparr>"
  from Some f assms(2) have "?r \<in> set (listing cr scopes fs)" by (force simp: listing_def dest: map_of_SomeD)
  from hm_collect_keyed [OF listing_keys [OF assms(1)] this]
  have "local_of (listing cr scopes fs) key = Some ?r" by (simp add: local_of_def)
  with Some f show ?thesis by (simp add: local_state_of_def)
qed

lemma remote_pairs_binary:
  "text_free st \<Longrightarrow> remote_pairs cr Y s scopes st = Inr (map (\<lambda>k. (k, binary_state st k)) (remote_keys scopes st))"
  unfolding remote_pairs_def
  by (rule collect_result_total) (simp add: remote_state_binary [OF text_free_heads])

lemma no_commits_no_heads:
  assumes "scoped scopes (scope_id key)" and "key \<notin> set (remote_keys scopes st)"
  shows "heads key st = []"
proof -
  have "resource_commits key st = []" using assms
    by (auto simp: remote_keys_def resource_commits_def filter_empty_conv)
  then show ?thesis using set_heads [of key st] by simp
qed

lemma planned_remote_state:
  assumes "scoped scopes (scope_id key)"
  shows "unwrap_or RemoteMissing (map_of (rev (map (\<lambda>k. (k, binary_state st k)) (remote_keys scopes st))) key)
    = binary_state st key"
proof (cases "key \<in> set (remote_keys scopes st)")
  case False
  with no_commits_no_heads [OF assms False] show ?thesis
    by (simp add: rev_map map_of_map_restrict binary_state_def)
qed (simp add: rev_map map_of_map_restrict)

text \<open>What is planned for a resource, from what is known of it.\<close>

definition planned :: "crypto \<Rightarrow> local_resource list \<Rightarrow> runtime_state \<Rightarrow> plan_operation \<Rightarrow> bool" where
  "planned cr local st op \<longleftrightarrow> (\<exists>t b. op = plan_resource cr t (op_key op) (local_state_of local (op_key op)) b
      (binary_state st (op_key op)))"

lemma inventory_planned:
  assumes "op \<in> set (plan_inventory cr t (map (\<lambda>r. (lr_key r, lr_state r)) (listing cr scopes fs)) (baseline_pairs scopes st)
      (map (\<lambda>k. (k, binary_state st k)) (remote_keys scopes st)))" (is "op \<in> set ?ops")
  shows "scoped scopes (scope_id (op_key op)) \<and> planned cr (listing cr scopes fs) st op"
proof -
  have "op_key op \<in> set (map op_key ?ops)" using assms by simp
  then have "scoped scopes (scope_id (op_key op))"
    unfolding map_fst_plan_inventory by (auto simp: listing_def baseline_pairs_def remote_keys_def)
  from plan_inventory_memE [OF assms] planned_remote_state [OF this] this show ?thesis
    unfolding planned_def bt_collect_local_state by metis
qed

lemma text_conflict_on_listing [simp]: "text_conflict_to_upload (listing cr scopes fs) op = op"
  by (simp add: text_conflict_to_upload_def listing_kinds split: plan_operation.splits)

lemma text_conflicts_on_listing [simp]: "map (text_conflict_to_upload (listing cr scopes fs)) ops = ops"
  by (simp add: map_idI)

lemma length_bset: "length (bset xs) \<le> length xs"
  by (metis card_length distinct_bset distinct_card set_bset)

lemma build_plan_memory:
  assumes "build_plan E scopes (listing (crypt E) scopes fs) w = (Inr plan, w')" and "text_free (rt w)"
  shows "rt w' = rt w \<and> lw w' = lw w \<and> distinct (map op_key plan)
    \<and> length plan \<le> length fs + length (baselines (rt w)) + length (commits (rt w))
    \<and> (\<forall>op \<in> set plan. scoped scopes (scope_id (op_key op)) \<and> planned (crypt E) (listing (crypt E) scopes fs) (rt w) op)
    \<and> (\<forall>key. scoped scopes (scope_id key) \<and> key \<notin> op_key ` set plan \<longrightarrow> heads key (rt w) = [] \<and> map_of fs key = None)"
proof -
  let ?local = "listing (crypt E) scopes fs"
  let ?pairs = "map (\<lambda>r. (lr_key r, lr_state r)) ?local"
  let ?remote = "map (\<lambda>k. (k, binary_state (rt w) k)) (remote_keys scopes (rt w))"
  define t where "t = (\<lambda>i. now_millis (clock E (Suc (tick w) + i)))"
  define ops where "ops = plan_inventory (crypt E) t ?pairs (baseline_pairs scopes (rt w)) ?remote"
  have plan: "mset plan = mset ops" and w': "rt w' = rt w" "lw w' = lw w"
    using assms
    by (auto simp: build_plan_def bind_eq_Inr seq_eq_Inr Let_def get_rt_apply new_seed_apply remote_pairs_binary
        ops_def t_def split: option.splits)
  have ops_keys: "map op_key ops = bset (map fst ?pairs @ map fst (baseline_pairs scopes (rt w)) @ map fst ?remote)"
    unfolding ops_def by (rule map_fst_plan_inventory)
  from plan have set_plan: "set plan = set ops" by (rule mset_eq_setD)
  have "mset (map op_key plan) = mset (map op_key ops)" using plan by simp
  from mset_eq_imp_distinct_iff [OF this] have "distinct (map op_key plan)"
    unfolding ops_keys by (simp only: distinct_bset)
  moreover have "length plan \<le> length fs + length (baselines (rt w)) + length (commits (rt w))"
  proof -
    have "length plan = length (map op_key ops)" using plan by (metis length_map mset_eq_length)
    also have "\<dots> \<le> length ?local + length (baseline_pairs scopes (rt w)) + length (remote_keys scopes (rt w))"
      unfolding ops_keys using length_bset [of "map fst ?pairs @ map fst (baseline_pairs scopes (rt w)) @ map fst ?remote"]
      by simp
    also have "\<dots> \<le> length fs + length (baselines (rt w)) + length (commits (rt w))"
      unfolding listing_def baseline_pairs_def remote_keys_def
      by (intro add_mono order.trans [OF length_bset]) (simp_all add: order.trans [OF length_filter_le])
    finally show ?thesis .
  qed
  moreover have "heads key (rt w) = [] \<and> map_of fs key = None"
    if key: "scoped scopes (scope_id key)" and out: "key \<notin> op_key ` set plan" for key
  proof
    have "key \<notin> set (map op_key ops)" using out set_plan by simp
    then have no: "key \<notin> lr_key ` set ?local" "key \<notin> set (remote_keys scopes (rt w))"
      unfolding ops_keys by (auto simp: image_image)
    show "heads key (rt w) = []" by (rule no_commits_no_heads [OF key no(2)])
    show "map_of fs key = None" using no(1) key by (force simp: listing_def map_of_eq_None_iff)
  qed
  ultimately show ?thesis using w' inventory_planned [of _ "crypt E" t] set_plan unfolding ops_def by blast
qed

section \<open>What the operations leave\<close>

lemma fetch_hashes:
  assumes "fetch_manifest lookup (folder_read_ranges cr) hs fs = (Inr data, fs')"
  shows "\<exists>ds. data = concat ds \<and> map (blake3_hex cr) ds = hs"
proof -
  from assms obtain ranges fs1 rs ds where read: "collect_result (read_range cr fs1) ranges = Inr rs"
    and ds: "collect_result (\<lambda>h. ok_or (IoError (''range '' @ h @ '' was not returned''))
      (hm_collect (map (\<lambda>r. (rd_hash r, rd_data r)) rs) h)) hs = Inr ds" and data: "data = concat ds"
    by (auto simp: fetch_manifest_def bind_eq_Inr Let_def folder_read_ranges_def)
  have "blake3_hex cr (rd_data r) = rd_hash r" if "r \<in> set rs" for r
  proof -
    from read that obtain rg where "read_range cr fs1 rg = Inr r"
      by (auto simp: collect_result_Inr_iff list_all2_conv_all_nth in_set_conv_nth)
    then show ?thesis by (auto simp: read_range_def Let_def split: if_splits)
  qed
  then have "blake3_hex cr d = h" if "hm_collect (map (\<lambda>r. (rd_hash r, rd_data r)) rs) h = Some d" for h d
    using that by (auto dest!: hm_collect_SomeD)
  with ds have "list_all2 (\<lambda>h d. blake3_hex cr d = h) hs ds"
    by (auto simp: collect_result_Inr_iff elim!: list_all2_mono split: option.splits)
  then have "map (blake3_hex cr) ds = hs" by (induction rule: list_all2_induct) simp_all
  with data show ?thesis by blast
qed

definition fetched :: "crypto \<Rightarrow> runtime_state \<Rightarrow> resource_key \<Rightarrow> bytes \<Rightarrow> bool" where
  "fetched cr st key data \<longleftrightarrow> (\<exists>h hs c x m ms ds. heads key st = h # hs \<and> map_of (commits st) h = Some c
     \<and> cm_change c = BinarySnapshot x m ms \<and> map (blake3_hex cr) ds = ms \<and> data = concat ds)"

lemma content_fetched:
  assumes "rem_of E = folder_port (crypt E) cd" and "text_free (rt w)"
    and "content_for_remote E key None w = (Inr data, w')"
  shows "fetched (crypt E) (rt w) key data \<and> rt w' = rt w \<and> lw w' = lw w"
proof -
  have "\<not> is_text (cm_change c)" if "map_of (commits (rt w)) h = Some c" for h c
    using assms(2) map_of_SomeD [OF that] by (auto simp: text_free_def list_all_iff)
  then show ?thesis using assms(1,3)
    by (fastforce simp: content_for_remote_def bind_eq_Inr get_rt_apply on_remote_def zoom_def io_error_def
        fetched_def is_text_def split: list.splits option.splits resource_change.splits prod.splits dest!: fetch_hashes)
qed

lemma apply_one_keeps:
  assumes "loc_of E = memory_port cr" and "apply_one E m no_result refused w = (Inr r, w')"
  shows "rt w' = rt w \<and> report w' = report w \<and> (\<forall>k. k \<noteq> mutation_key m \<longrightarrow> map_of (lw w') k = map_of (lw w) k)
    \<and> (case m of WritePresent key data _ \<Rightarrow> \<exists>v. map_of (lw w') key = Some (data, v)
        | MutDelete key _ \<Rightarrow> map_of (lw w') key = None
        | CreateCopy key data \<Rightarrow> \<exists>v. map_of (lw w') key = Some (data, v))"
  using assms
  by (cases m) (auto simp: apply_one_def bind_eq_Inr on_local_def zoom_def memory_port_def memory_apply_one_def Let_def
      io_error_def split: prod.splits if_splits list.splits option.splits)

text \<open>What an operation has done to the file of its resource.\<close>

definition landed :: "crypto \<Rightarrow> runtime_state \<Rightarrow> plan_operation \<Rightarrow> files \<Rightarrow> files \<Rightarrow> bool" where
  "landed cr st op fs fs' \<longleftrightarrow> (case op of
       Download key _ \<Rightarrow> \<exists>data v. map_of fs' key = Some (data, v) \<and> fetched cr st key data
     | ApplyDelete key _ _ \<Rightarrow> map_of fs' key = None
     | _ \<Rightarrow> map_of fs' (op_key op) = map_of fs (op_key op))"

lemma remember_text_keeps:
  "remember_text E key w = (r, w') \<Longrightarrow> commits (rt w') = commits (rt w) \<and> lw w' = lw w"
  by (auto simp: remember_text_def bind_apply get_rt_apply new_seed_apply modify_rt_apply split: sum.splits)

lemma announce_download_keeps:
  "announce_download E run key change w = (r, w') \<Longrightarrow> rt w' = rt w \<and> lw w' = lw w"
  by (auto simp: announce_download_def bind_apply on_remote_def zoom_def emit_progress_def emit_def Let_def seq_def
      split: option.splits resource_change.splits prod.splits sum.splits)

lemma run_download_lands:
  assumes "loc_of E = memory_port cr" and "rem_of E = folder_port (crypt E) cd" and "text_free (rt w)"
    and "run_download E run local key remote w = (Inr (), w')"
  shows "commits (rt w') = commits (rt w) \<and> (\<forall>k. k \<noteq> key \<longrightarrow> map_of (lw w') k = map_of (lw w) k)
    \<and> landed (crypt E) (rt w) (Download key remote) (lw w) (lw w')"
proof -
  let ?change = "change_of (rt w) (first_head remote)"
  from assms(4) obtain w1 bs w2 r w3 w4 where an: "announce_download E run key ?change w = (Inr (), w1)"
    and get: "content_for_remote E key None w1 = (Inr bs, w2)"
    and put: "apply_one E (WritePresent key bs (precondition (local_state_of local key)))
      ''local replica returned no apply result'' (error_or ''local precondition failed'') w2 = (Inr r, w3)"
    and note_text: "(case ?change of
            Some (TextDelta _) \<Rightarrow> seq (remember_text E key)
              (modify_rt (\<lambda>st. st\<lparr>kinds := bt_insert (encoded key) Text (kinds st)\<rparr>))
          | _ \<Rightarrow> ret ()) w3 = (Inr (), w4)"
    and w': "commits (rt w') = commits (rt w4)" "lw w' = lw w4"
    by (auto simp: run_download_def bind_eq_Inr seq_eq_Inr modify_rt_apply set_present_baseline_def tally_def
        emit_progress_def emit_def)
  note w1 = announce_download_keeps [OF an]
  have w4: "commits (rt w4) = commits (rt w3)" "lw w4 = lw w3"
    using note_text by (auto simp: seq_eq_Inr modify_rt_apply split: option.splits resource_change.splits dest!: remember_text_keeps)
  from w1 assms(3) have "text_free (rt w1)" by simp
  from content_fetched [OF assms(2) this get] apply_one_keeps [OF assms(1) put] w1 w4 w' show ?thesis
    by (auto simp: landed_def)
qed

lemma run_operation_lands:
  assumes "loc_of E = memory_port cr" and "rem_of E = folder_port (crypt E) cd" and "text_free (rt w)"
    and "run_operation E run local op w = (Inr (), w')"
  shows "commits (rt w') = commits (rt w) \<and> (\<forall>k. k \<noteq> op_key op \<longrightarrow> map_of (lw w') k = map_of (lw w) k)
    \<and> landed (crypt E) (rt w) op (lw w) (lw w')"
proof (cases op)
  case (Download key remote)
  with run_download_lands [OF assms(1-3), of run local key remote w'] assms(4) show ?thesis
    by (simp add: run_operation_def)
next
  case (ApplyDelete key loc hs)
  with assms(4) obtain r w1 where "apply_one E (MutDelete key (precondition loc))
      ''local replica returned no delete result'' (error_or ''local delete precondition failed'') w = (Inr r, w1)"
    and "commits (rt w') = commits (rt w1)" "lw w' = lw w1"
    by (auto simp: run_operation_def run_apply_delete_def bind_eq_Inr seq_eq_Inr modify_rt_apply set_deleted_baseline_def
        tally_def emit_progress_def emit_def)
  with apply_one_keeps [OF assms(1), of "MutDelete key (precondition loc)"] ApplyDelete show ?thesis
    by (fastforce simp: landed_def)
qed (use assms(4) in \<open>auto simp: run_operation_def run_establish_def bind_eq_Inr seq_eq_Inr get_rt_apply modify_rt_apply
    set_present_baseline_def set_deleted_baseline_def tally_def landed_def split: if_splits dest!: remember_text_keeps\<close>)

text \<open>Without a new failure the guarded operation has run to its end.\<close>

lemma guarded_operation_runs:
  assumes "guarded_operation E run local op w = (Inr (), w')" and "failures_count (report w') \<le> failures_count (report w)"
  obtains w1 where "run_operation E run local op w = (Inr (), w1)" and "rt w' = rt w1" and "lw w' = lw w1"
proof -
  obtain outcome w1 where run: "run_operation E run local op w = (outcome, w1)" by (cases "run_operation E run local op w")
  have "accounts {} w w1" using run_operation_accounts [of "{}" E run local op] run by (simp add: steps_def) (metis snd_conv)
  then have le: "failures_count (report w) \<le> failures_count (report w1)" by (simp add: accounts_def)
  show ?thesis
  proof (cases outcome)
    case (Inl e)
    with assms(1) run have "failures_count (report w') = failures_count (report w1) + 1"
      by (auto simp: guarded_operation_def bind_eq_Inr seq_eq_Inr attempt_def fail_scope_def tally_def
          dest!: emit_progress_keeps save_state_keeps)
    with le assms(2) show ?thesis by simp
  next
    case (Inr u)
    with assms(1) run show ?thesis
      by (intro that [of w1]) (auto simp: guarded_operation_def bind_eq_Inr seq_eq_Inr attempt_def dest!: save_state_keeps)
  qed
qed

lemma guarded_operation_accounts:
  "steps (accounts (plan_scopes [op])) (guarded_operation E run local op)"
  by (auto intro!: account_rules run_operation_accounts simp: guarded_operation_def plan_scopes_def)

lemma guarded_operations_land:
  assumes "loc_of E = memory_port cr" and "rem_of E = folder_port (crypt E) cd" and "text_free (rt w)"
    and "distinct (map op_key plan)"
    and "for_each plan (guarded_operation E run local) w = (Inr (), w')"
    and "failures_count (report w') \<le> failures_count (report w)"
  shows "commits (rt w') = commits (rt w) \<and> (\<forall>k. k \<notin> op_key ` set plan \<longrightarrow> map_of (lw w') k = map_of (lw w) k)
    \<and> (\<forall>op \<in> set plan. landed (crypt E) (rt w) op (lw w) (lw w'))"
  using assms(3-6)
proof (induction plan arbitrary: w)
  case (Cons op plan)
  from Cons.prems(3) obtain w1 where one: "guarded_operation E run local op w = (Inr (), w1)"
    and rest: "for_each plan (guarded_operation E run local) w1 = (Inr (), w')" by (auto simp: seq_eq_Inr)
  have "failures_count (report w) \<le> failures_count (report w1)"
    using stepsD [OF guarded_operation_accounts one] by (simp add: accounts_def)
  moreover have "failures_count (report w1) \<le> failures_count (report w')"
    using stepsD [OF guarded_operations_accounts rest] by (simp add: accounts_def)
  ultimately have le: "failures_count (report w1) \<le> failures_count (report w)"
    "failures_count (report w') \<le> failures_count (report w1)" using Cons.prems(4) by linarith+
  from guarded_operation_runs [OF one le(1)] obtain v where "run_operation E run local op w = (Inr (), v)"
    "rt w1 = rt v" "lw w1 = lw v" .
  with run_operation_lands [OF assms(1,2) Cons.prems(1)]
  have step: "commits (rt w1) = commits (rt w)" "\<And>k. k \<noteq> op_key op \<Longrightarrow> map_of (lw w1) k = map_of (lw w) k"
    "landed (crypt E) (rt w) op (lw w) (lw w1)" by auto
  have "text_free (rt w1)" using Cons.prems(1) step(1) by (simp add: text_free_def)
  from Cons.IH [OF this _ rest le(2)] Cons.prems(2)
  have IH: "commits (rt w') = commits (rt w1)" "\<And>k. k \<notin> op_key ` set plan \<Longrightarrow> map_of (lw w') k = map_of (lw w1) k"
    "\<And>op'. op' \<in> set plan \<Longrightarrow> landed (crypt E) (rt w1) op' (lw w1) (lw w')" by auto
  have key: "op_key op \<notin> op_key ` set plan" using Cons.prems(2) by simp
  have "landed (crypt E) (rt w) op (lw w) (lw w')"
    using step(3) IH(2) [OF key] by (auto simp: landed_def split: plan_operation.splits)
  moreover have "landed (crypt E) (rt w) op' (lw w) (lw w')" if "op' \<in> set plan" for op'
  proof -
    have "op_key op' \<noteq> op_key op" using that key by (metis imageI)
    with IH(3) [OF that] step(1,2) show ?thesis
      by (simp add: landed_def fetched_def heads_same_commits [OF step(1)] split: plan_operation.splits)
  qed
  ultimately show ?case using IH(1,2) step(1,2) by simp
qed simp

section \<open>The phases around them\<close>

lemma register_operation_keeps:
  "register_operation run iop w = (Inr (), w') \<Longrightarrow>
   commits (rt w') = commits (rt w) \<and> counter (rt w') = counter (rt w) \<and> lw w' = lw w"
  by (auto simp: register_operation_def Let_def seq_eq_Inr emit_progress_def emit_def insert_conflict_def tally_def
      modify_rt_apply split: plan_operation.splits prod.splits)

lemma register_operations_keep:
  "for_each iops (register_operation run) w = (Inr (), w') \<Longrightarrow>
   commits (rt w') = commits (rt w) \<and> counter (rt w') = counter (rt w) \<and> lw w' = lw w"
proof (induction iops arbitrary: w)
  case (Cons iop iops)
  from Cons.prems obtain w1 where w1: "register_operation run iop w = (Inr (), w1)"
    and rest: "for_each iops (register_operation run) w1 = (Inr (), w')" by (auto simp: seq_eq_Inr)
  from register_operation_keeps [OF w1] Cons.IH [OF rest] show ?case by simp
qed simp

lemma register_plan_keeps:
  assumes "register_plan E scopes local plan run w = (Inr (), w')"
  shows "commits (rt w') = commits (rt w) \<and> counter (rt w') = counter (rt w) \<and> lw w' = lw w
    \<and> failures_count (report w') = 0"
proof -
  from assms obtain w1 w2 where each: "for_each (enumerate 0 plan) (register_operation run) w1 = (Inr (), w2)"
    and w1: "rt w1 = clear_conflicts scopes (rt w)" "lw w1 = lw w" "report w1 = empty_report run"
    and save: "save_state E (w2\<lparr>rt := (rt w2)\<lparr>active_run := Some (plan_journal run plan)\<rparr>\<rparr>) = (Inr (), w')"
    by (simp add: register_plan_def seq_eq_Inr modify_rt_apply emit_progress_def emit_def) fastforce
  from register_operations_keep [OF each] register_operations_count [OF each] w1 save_state_keeps [OF save] show ?thesis
    by (simp add: clear_conflicts_def empty_report_def)
qed

lemma finish_run_keeps:
  assumes "finish_run E scopes plan run w = (Inr (), w')"
  shows "commits (rt w') = commits (rt w) \<and> lw w' = lw w \<and> failures_count (report w') = failures_count (report w)"
  using assms
  by (auto simp: finish_run_def bind_eq_Inr seq_eq_Inr modify_rt_apply emit_progress_def emit_def get_rt_apply
      dest!: save_state_keeps on_remote_keeps)

lemma made_all_text_free:
  assumes "made_all E st fs n ops kcs" and "text_free st'"
  shows "text_free (insert_all (map snd kcs) st')"
  using assms
proof (induction ops arbitrary: n kcs st')
  case (Cons op ops)
  from Cons.prems(1) obtain kc kcs' where kcs: "kcs = kc # kcs'" and made: "made E st fs (n + 1) op kc"
    "made_all E st fs (n + 1) ops kcs'" by (cases kcs) auto
  have "set (bt_insert i c m) \<subseteq> insert (i, c) (set m)" for i and c :: commit and m
    by (induction m) (auto split: if_splits)
  then have "text_free (insert_commit (snd kc) st')"
    using Cons.prems(2) made_not_text [OF made(1)] by (fastforce simp: text_free_def list_all_iff insert_commit_def)
  from Cons.IH [OF made(2) this] show ?case by (simp add: kcs)
qed simp

lemma counters_unused_less: "counters_unused who m st \<Longrightarrow> n \<le> m \<Longrightarrow> counters_unused who n st"
  by (auto simp: counters_unused_def list_all_iff)

lemma counters_unused_cong:
  "commits st' = commits st \<Longrightarrow> counter st' = counter st \<Longrightarrow> counters_unused who m st' = counters_unused who m st"
  by (simp add: counters_unused_def counter_unused_def)

lemma plan_resource_outcome:
  "op = plan_resource cr t key loc b rem \<Longrightarrow> (case op of
      Noop _ \<Rightarrow> rem = RemoteMissing \<and> replica_content_id loc = None
    | EstablishBaseline _ _ _ \<Rightarrow> \<exists>x n hs. rem = RemotePresent x n hs \<and> replica_content_id loc = Some x
    | EstablishDeletedBaseline _ _ \<Rightarrow> (\<exists>hs. rem = RemoteDeleted hs) \<and> replica_content_id loc = None
    | Download _ _ \<Rightarrow> \<exists>x n hs. rem = RemotePresent x n hs
    | PublishDelete _ \<Rightarrow> replica_content_id loc = None
    | ApplyDelete _ _ _ \<Rightarrow> \<exists>hs. rem = RemoteDeleted hs
    | _ \<Rightarrow> True)"
  by (simp add: plan_resource_def replica_content_id_def Let_def split: planner_splits)

lemma listing_content:
  "bt_ok fs \<Longrightarrow> scoped scopes (scope_id key) \<Longrightarrow>
   replica_content_id (local_state_of (listing cr scopes fs) key) = file_content cr fs key"
  by (cases "map_of fs key") (auto simp: local_state_listing replica_content_id_def file_content_def
      simp del: map_of_eq_Some_iff_bt)

section \<open>A run without failures\<close>

text \<open>What a run leaves of the commits and the files it started on.\<close>

definition clean_run ::
  "('l, 'r, 'k, 'd) env \<Rightarrow> plan_operation list \<Rightarrow> runtime_state \<Rightarrow> files \<Rightarrow> runtime_state \<Rightarrow> files \<Rightarrow> bool" where
  "clean_run E plan st fs st' fs' \<longleftrightarrow>
     (\<forall>i c. map_of (commits st) i = Some c \<longrightarrow> map_of (commits st') i = Some c)
   \<and> (\<forall>key. key \<notin> op_key ` set (filter is_publication plan) \<longrightarrow> heads key st' = heads key st)
   \<and> (\<forall>op \<in> set (filter is_publication plan). \<exists>n kc. made E st fs n op kc
        \<and> heads (op_key op) st' = [cm_id (snd kc)] \<and> map_of (commits st') (cm_id (snd kc)) = Some (snd kc))
   \<and> (\<forall>key. key \<notin> op_key ` set plan \<longrightarrow> map_of fs' key = map_of fs key)
   \<and> (\<forall>op \<in> set plan. landed (crypt E) st' op fs fs')
   \<and> text_free st' \<and> (bt_ok fs \<longrightarrow> bt_ok fs')"

lemma landed_cong: "commits st' = commits st \<Longrightarrow> landed cr st' op fs fs' = landed cr st op fs fs'"
  unfolding landed_def fetched_def by (simp only: heads_same_commits [of st' st])

text \<open>The files stay a map: the contract of the replica, for the relation that says so.\<close>

interpretation ordered: guarded_replica "memory_port cr" "\<lambda>fs fs'. bt_ok fs \<longrightarrow> bt_ok fs'" "\<lambda>_. True"
  for cr :: crypto
proof
  show "preorder_rel (\<lambda>fs fs' :: files. bt_ok fs \<longrightarrow> bt_ok fs')" by (rule preorder_relI) auto
  show "steps (\<lambda>fs fs'. bt_ok fs \<longrightarrow> bt_ok fs') (l_apply (memory_port cr) [m])" for m
    by (cases m) (auto simp: steps_def memory_port_def memory_apply_one_def Let_def split: prod.splits if_splits)
qed (simp_all add: steps_def memory_port_def memory_list_def memory_read_def)

lemma execute_clean:
  assumes "loc_of E = memory_port (crypt E)" and "rem_of E = folder_port (crypt E) cd"
    and "commits_ok (rt w)" and "text_free (rt w)" and "distinct (map op_key plan)"
    and "counters_unused (client E) (length plan) (rt w)" and "length plan < 2 ^ 64"
    and "execute E scopes local plan run w = (Inr (r, evs), w')" and "failures_count r = 0"
  shows "clean_run E plan (rt w) (lw w) (rt w') (lw w')"
proof -
  let ?ops = "filter is_publication plan"
  from assms(8) obtain w1 w2 w3 where w1: "register_plan E scopes local plan run w = (Inr (), w1)"
    and w2: "run_uploads E run local plan w1 = (Inr (), w2)"
    and w3: "for_each plan (guarded_operation E run local) w2 = (Inr (), w3)"
    and w4: "finish_run E scopes plan run w3 = (Inr (), w')" and r: "r = report w'"
    by (auto simp: execute_def seq_eq_Inr)
  note reg = register_plan_keeps [OF w1] and fin = finish_run_keeps [OF w4]
  have "failures_count (report w1) \<le> failures_count (report w2)" "failures_count (report w2) \<le> failures_count (report w3)"
    using stepsD [OF run_uploads_accounts w2] stepsD [OF guarded_operations_accounts w3] by (simp_all add: accounts_def)
  with reg fin r assms(9) have fails: "failures_count (report w2) \<le> failures_count (report w1)"
    "failures_count (report w3) \<le> failures_count (report w2)" by simp_all
  from run_uploads_made [OF assms(1) w2 fails(1)] obtain kcs where
    made: "made_all E (rt w1) (lw w1) (counter (rt w1)) ?ops kcs" and lw2: "lw w2 = lw w1"
    and cs2: "commits (rt w2) = commits (insert_all (map snd kcs) (rt w1))" .
  have hs1: "heads key (rt w1) = heads key (rt w)" for key using reg by (intro heads_same_commits) simp
  have made_w: "made E (rt w1) (lw w1) n op kc = made E (rt w) (lw w) n op kc" for n op kc
    using made_cong [OF hs1] reg by simp
  have "distinct (map op_key ?ops)" using assms(5) by (rule distinct_map_filter)
  moreover have "commits_ok (rt w1)" using assms(3) reg by (simp add: commits_ok_def)
  moreover have "counters_unused (client E) (length ?ops) (rt w1)"
    using counters_unused_less [OF assms(6)] reg by (simp add: counters_unused_cong [of "rt w1" "rt w"])
  moreover have "length ?ops < 2 ^ 64" using assms(7) length_filter_le [of is_publication plan] by linarith
  ultimately have ins: "\<And>i c. map_of (commits (rt w)) i = Some c \<Longrightarrow> map_of (commits (rt w2)) i = Some c"
    "\<And>key. key \<notin> op_key ` set ?ops \<Longrightarrow> heads key (rt w2) = heads key (rt w)"
    "\<And>op. op \<in> set ?ops \<Longrightarrow> \<exists>n kc. made E (rt w) (lw w) n op kc \<and> heads (op_key op) (rt w2) = [cm_id (snd kc)]
       \<and> map_of (commits (rt w2)) (cm_id (snd kc)) = Some (snd kc)"
    using insert_made [OF made] reg hs1 unfolding made_w heads_same_commits [OF cs2] cs2 by metis+
  have "text_free (rt w1)" using assms(4) reg by (simp add: text_free_def)
  from made_all_text_free [OF made this] have "text_free (rt w2)" by (simp add: text_free_def cs2)
  from guarded_operations_land [OF assms(1,2) this assms(5) w3 fails(2)]
  have land: "commits (rt w3) = commits (rt w2)" "\<And>k. k \<notin> op_key ` set plan \<Longrightarrow> map_of (lw w3) k = map_of (lw w2) k"
    "\<And>op. op \<in> set plan \<Longrightarrow> landed (crypt E) (rt w2) op (lw w2) (lw w3)" by auto
  have cs: "commits (rt w') = commits (rt w2)" and lw: "lw w' = lw w3" "lw w2 = lw w" using land(1) fin lw2 reg by simp_all
  have "text_free (rt w')" using \<open>text_free (rt w2)\<close> by (simp add: text_free_def cs)
  moreover have "bt_ok (lw w) \<longrightarrow> bt_ok (lw w')"
    using stepsD [OF ordered.execute_lw [OF assms(1)] assms(8)] by (simp add: on_lw_def ordered.allowed_writes_def)
  ultimately show ?thesis
    unfolding clean_run_def lw landed_cong [OF cs] heads_same_commits [OF cs] cs
    using ins land(2,3) unfolding lw by blast
qed

text \<open>The content id of a version is the hash of what its chunks make up.\<close>

definition honest_versions :: "crypto \<Rightarrow> runtime_state \<Rightarrow> bool" where
  "honest_versions cr st \<longleftrightarrow> (\<forall>(i, c) \<in> set (commits st). case cm_change c of
       BinarySnapshot x n hs \<Rightarrow> \<forall>ds. map (blake3_hex cr) ds = hs \<longrightarrow> blake3_hex cr (concat ds) = x
     | _ \<Rightarrow> True)"

lemma agreedI:
  assumes "list_all (\<lambda>ch. \<not> is_text ch) (head_changes st (heads key st))"
    and "agreed_state (crypt E) (binary_state st key) fs key"
  shows "agreed E st fs key"
  using assms by (simp add: agreed_def remote_state_binary)

lemma published_agrees:
  assumes "clean_run E plan st fs st' fs'" and "op \<in> set plan" and "is_publication op" and "bt_ok fs"
    and "scoped scopes (scope_id (op_key op))" and "planned (crypt E) (listing (crypt E) scopes fs) st op"
  shows "agreed E st' fs' (op_key op)"
proof -
  have "op \<in> set (filter is_publication plan)" using assms(2,3) by simp
  with assms(1) obtain n kc where made: "made E st fs n op kc"
    and h: "heads (op_key op) st' = [cm_id (snd kc)]" "map_of (commits st') (cm_id (snd kc)) = Some (snd kc)"
    unfolding clean_run_def by blast
  have land: "landed (crypt E) st' op fs fs'" using assms(1,2) unfolding clean_run_def by blast
  have ch: "head_changes st' (heads (op_key op) st') = [cm_change (snd kc)]"
    using h by (simp add: head_changes_def List.map_filter_simps)
  show ?thesis
  proof (rule agreedI)
    show "list_all (\<lambda>ch. \<not> is_text ch) (head_changes st' (heads (op_key op) st'))"
      using made_not_text [OF made] ch by simp
    show "agreed_state (crypt E) (binary_state st' (op_key op)) fs' (op_key op)"
    proof (cases op)
      case (Upload key loc)
      with made land binary_state_single [OF h] show ?thesis
        by (auto simp: made_def landed_def agreed_state_def file_content_def remote_present_def remote_content_id_def)
    next
      case (PublishDelete key)
      from assms(6) obtain t b where "op = plan_resource (crypt E) t (op_key op)
        (local_state_of (listing (crypt E) scopes fs) (op_key op)) b (binary_state st (op_key op))"
        unfolding planned_def by blast
      from plan_resource_outcome [OF this] PublishDelete listing_content [OF assms(4,5)]
      have "file_content (crypt E) fs key = None" by simp
      with PublishDelete made land binary_state_single [OF h] show ?thesis
        by (auto simp: made_def landed_def agreed_state_def file_content_def remote_content_id_def)
    qed (use assms(3) in \<open>simp_all add: is_publication_def\<close>)
  qed
qed

lemma downloaded_content:
  assumes "clean_run E plan st fs st' fs'" and "commits_ok st" and "honest_versions (crypt E) st"
    and "binary_state st key = RemotePresent x n hs" and "heads key st' = heads key st" and "fetched (crypt E) st' key data"
  shows "blake3_hex (crypt E) data = x"
proof -
  from binary_state_present [OF assms(2,4)] obtain h hs' c m ms where h: "heads key st = h # hs'"
    "map_of (commits st) h = Some c" "cm_change c = BinarySnapshot x m ms" by blast
  have "map_of (commits st') h = Some c" using assms(1) h(2) unfolding clean_run_def by blast
  with h assms(5,6) obtain ds where "map (blake3_hex (crypt E)) ds = ms" "data = concat ds"
    unfolding fetched_def by force
  with map_of_SomeD [OF h(2)] h(3) assms(3) show ?thesis by (fastforce simp: honest_versions_def)
qed

lemma operation_agrees:
  assumes "clean_run E plan st fs st' fs'" and "op \<in> set plan" and "\<not> is_publication op" and "\<not> is_conflict op"
    and "bt_ok fs" and "commits_ok st" and "text_free st" and "honest_versions (crypt E) st"
    and "distinct (map op_key plan)"
    and "scoped scopes (scope_id (op_key op))" and "planned (crypt E) (listing (crypt E) scopes fs) st op"
  shows "agreed E st' fs' (op_key op)"
proof -
  have "op_key op \<notin> op_key ` set (filter is_publication plan)"
    using assms(2,3,9) by (auto simp: distinct_map inj_on_def)
  with assms(1) have hs: "heads (op_key op) st' = heads (op_key op) st" by (simp add: clean_run_def)
  from assms(1) have keep: "\<And>i c. map_of (commits st) i = Some c \<Longrightarrow> map_of (commits st') i = Some c"
    by (simp add: clean_run_def)
  note r = binary_state_keep [OF assms(6) keep hs]
  from assms(1,2) have land: "landed (crypt E) st' op fs fs'" by (simp add: clean_run_def)
  from assms(11) obtain t b where "op = plan_resource (crypt E) t (op_key op)
    (local_state_of (listing (crypt E) scopes fs) (op_key op)) b (binary_state st (op_key op))"
    unfolding planned_def by blast
  note out = plan_resource_outcome [OF this, unfolded listing_content [OF assms(5,10)]]
  show ?thesis
  proof (rule agreedI)
    show "list_all (\<lambda>ch. \<not> is_text ch) (head_changes st' (heads (op_key op) st'))"
      using text_free_heads [OF assms(7)] head_changes_keep [OF assms(6) keep] hs by simp
    show "agreed_state (crypt E) (binary_state st' (op_key op)) fs' (op_key op)"
    proof (cases op)
      case (Download key remote)
      with out obtain x n hs' where x: "binary_state st key = RemotePresent x n hs'" by auto
      from land Download obtain data v where f: "map_of fs' key = Some (data, v)" "fetched (crypt E) st' key data"
        by (auto simp: landed_def)
      have "blake3_hex (crypt E) data = x"
        using downloaded_content [OF assms(1,6,8) x _ f(2)] hs Download by simp
      with x f Download r show ?thesis by (simp add: agreed_state_def file_content_def remote_content_id_def)
    qed (use out land r assms(3,4) in \<open>auto simp: landed_def agreed_state_def file_content_def remote_content_id_def
      is_publication_def is_conflict_def\<close>)
  qed
qed

section \<open>A clean reconcile\<close>

text \<open>What is remembered once the remote has been refreshed, which is all that a reconcile plans with.\<close>

definition learned :: "('l, 'r, 'k, 'd) env \<Rightarrow> string list \<Rightarrow> ('l, 'r, 'k) world \<Rightarrow> runtime_state" where
  "learned E scopes w = rt (snd (refresh_remote E scopes (w\<lparr>rt := (rt w)\<lparr>active_run := None\<rparr>\<rparr>)))"

lemma refresh_only:
  assumes "rt v = rt w" and "rw v = rw w"
  shows "rt (snd (refresh_remote E scopes v)) = rt (snd (refresh_remote E scopes w))
    \<and> lw (snd (refresh_remote E scopes v)) = lw v"
  using assms
  by (auto simp: refresh_remote_def bind_apply seq_def get_rt_apply on_remote_def zoom_def modify_rt_apply
      split: prod.splits sum.splits)

definition same_plan_state :: "('l, 'r, 'k) world \<Rightarrow> ('l, 'r, 'k) world \<Rightarrow> bool" where
  "same_plan_state w w' \<longleftrightarrow> commits (rt w') = commits (rt w) \<and> counter (rt w') = counter (rt w)
     \<and> baselines (rt w') = baselines (rt w) \<and> lw w' = lw w"

lemma snapshot_keeps: "steps same_plan_state (snapshot_large_catalogs E)"
proof -
  have pre: "preorder_rel same_plan_state" by (rule preorder_relI) (auto simp: same_plan_state_def)
  have port: "steps same_plan_state (on_remote m)" for m :: "('b, sync_error, 'e) rm"
    by (auto simp: steps_def on_remote_def zoom_def same_plan_state_def split: prod.splits)
  have mod: "steps same_plan_state (modify f)" if "\<And>w. same_plan_state w (f w)" for f :: "('a, 'b, 'c) world \<Rightarrow> _"
    by (rule steps_modify) (rule that)
  show ?thesis
    by (auto intro!: step_rules pre port mod simp: snapshot_large_catalogs_def snapshot_generation_def now_def get_rt_def
        modify_rt_def Let_def same_plan_state_def)
qed

text \<open>No known id carries a counter of this client above the remembered one.\<close>

definition own_counters_seen :: "string \<Rightarrow> runtime_state \<Rightarrow> bool" where
  "own_counters_seen who st \<longleftrightarrow> (\<forall>(i, c) \<in> set (commits st). \<forall>j \<in> set (i # cm_parents c).
     \<forall>n x. j = counter_prefix who n @ x \<longrightarrow> n \<le> counter st)"

lemma own_counters_unused:
  assumes "own_counters_seen who st" and "unat (counter st) + m < 2 ^ 64"
  shows "counters_unused who m st"
proof -
  have "take (length (counter_prefix who n)) j \<noteq> counter_prefix who n"
    if "k < m" and n: "n = counter st + of_nat k + 1" and "(i, c) \<in> set (commits st)" "j \<in> set (i # cm_parents c)"
    for k n i j c
  proof
    assume "take (length (counter_prefix who n)) j = counter_prefix who n"
    then have "j = counter_prefix who n @ drop (length (counter_prefix who n)) j" by (metis append_take_drop_id)
    with assms(1) that(3,4) have "n \<le> counter st" unfolding own_counters_seen_def by blast
    moreover have "unat n = unat (counter st) + k + 1"
      using assms(2) \<open>k < m\<close> unfolding n by (simp add: unat_word_ariths unat_of_nat)
    ultimately show False by (simp add: word_le_nat_alt)
  qed
  then show ?thesis
    by (auto simp: counters_unused_def counter_unused_def Let_def list_all_iff)
qed

lemma reconcile_phases:
  assumes "reconcile E scopes w = (Inr r, w')"
  obtains run wa wb wc wd we wf wg wh wi local plan evs where
    "refresh_remote E scopes wa = (Inr (), wb)" and "snapshot_large_catalogs E wc = (Inr (), wd)"
    and "local_inventory E scopes we = (Inr local, wf)" and "build_plan E scopes local wg = (Inr plan, wh)"
    and "execute E scopes local plan run wi = (Inr (r, evs), w')"
    and "rt wa = (rt w)\<lparr>active_run := None\<rparr>" "lw wa = lw w" "rw wa = rw w"
    and "rt wc = rt wb" "lw wc = lw wb" and "rt we = rt wd" "lw we = lw wd"
    and "rt wg = note_kinds local (rt wf)" "lw wg = lw wf" and "rt wi = rt wh" "lw wi = lw wh"
  using assms
  apply (simp add: reconcile_def bind_eq_Inr seq_eq_Inr Let_def emit_def modify_rt_apply get_rt_apply now_apply
      split: prod.splits)
  apply (elim exE conjE)
  apply (rule that)
  apply (assumption | rule refl)+
  apply (auto simp: emit_def split: option.splits)
  done

text \<open>What a device has and knows when it plans: its files are a map, commits are filed under their ids, none is
  a text, content ids are the hashes of the chunks, and the counter is not behind the own ids.\<close>

definition sound_start :: "(files, 'r, 'k, 'd) env \<Rightarrow> string list \<Rightarrow> (files, 'r, 'k) world \<Rightarrow> bool" where
  "sound_start E scopes w \<longleftrightarrow> (let st = learned E scopes w
     in bt_ok (lw w) \<and> commits_ok st \<and> text_free st \<and> honest_versions (crypt E) st \<and> own_counters_seen (client E) st
        \<and> unat (counter st) + length (lw w) + length (baselines st) + length (commits st) < 2 ^ 64)"

definition sound_plan :: "(files, 'r, 'k, 'd) env \<Rightarrow> string list \<Rightarrow> files \<Rightarrow> runtime_state \<Rightarrow> plan_operation list \<Rightarrow> bool" where
  "sound_plan E scopes fs st plan \<longleftrightarrow> distinct (map op_key plan)
     \<and> (\<forall>op \<in> set plan. \<not> is_conflict op \<and> scoped scopes (scope_id (op_key op))
          \<and> planned (crypt E) (listing (crypt E) scopes fs) st op)
     \<and> (\<forall>key. scoped scopes (scope_id key) \<and> key \<notin> op_key ` set plan \<longrightarrow> heads key st = [] \<and> map_of fs key = None)"

lemma reconcile_clean_run:
  assumes "loc_of E = memory_port (crypt E)" and "rem_of E = folder_port (crypt E) cd"
    and "\<And>bs. blake3_hex (crypt E) bs \<noteq> []" and "sound_start E scopes w"
    and "reconcile E scopes w = (Inr r, w')" and "failures_count r = 0" and "conflicts_count r = 0"
  obtains st plan where "commits st = commits (learned E scopes w)" and "sound_plan E scopes (lw w) st plan"
    and "clean_run E plan st (lw w) (rt w') (lw w')"
proof -
  let ?st = "learned E scopes w" and ?fs = "lw w"
  from reconcile_phases [OF assms(5)] obtain run wa wb wc wd we wf wg wh wi local plan evs where
    ref: "refresh_remote E scopes wa = (Inr (), wb)" and snap: "snapshot_large_catalogs E wc = (Inr (), wd)"
    and inv: "local_inventory E scopes we = (Inr local, wf)" and build: "build_plan E scopes local wg = (Inr plan, wh)"
    and exec: "execute E scopes local plan run wi = (Inr (r, evs), w')"
    and same: "rt wa = (rt w)\<lparr>active_run := None\<rparr>" "lw wa = lw w" "rw wa = rw w"
      "rt wc = rt wb" "lw wc = lw wb" "rt we = rt wd" "lw we = lw wd"
      "rt wg = note_kinds local (rt wf)" "lw wg = lw wf" "rt wi = rt wh" "lw wi = lw wh" .
  have "rt wb = ?st" "lw wb = ?fs"
    using refresh_only [of wa "w\<lparr>rt := (rt w)\<lparr>active_run := None\<rparr>\<rparr>" E scopes] ref same by (simp_all add: learned_def)
  with stepsD [OF snapshot_keeps snap] same
  have wd: "commits (rt wd) = commits ?st" "counter (rt wd) = counter ?st" "baselines (rt wd) = baselines ?st" "lw wd = ?fs"
    by (simp_all add: same_plan_state_def)
  from inv memory_inventory [OF assms(1,3), of scopes we] same wd
  have local: "local = listing (crypt E) scopes ?fs" "wf = we" by simp_all
  have wg: "commits (rt wg) = commits ?st" "counter (rt wg) = counter ?st" "baselines (rt wg) = baselines ?st" "lw wg = ?fs"
    using same wd local(2) by (simp_all add: note_kinds_def)
  have st: "commits_ok (rt wg)" "text_free (rt wg)"
    using assms(4) wg by (simp_all add: sound_start_def Let_def commits_ok_def text_free_def)
  note plan = build_plan_memory [OF build [unfolded local(1)] st(2)]
  have wi: "rt wi = rt wg" "lw wi = ?fs" using plan wg same by simp_all
  have len: "unat (counter ?st) + length plan < 2 ^ 64" using plan wg assms(4) by (simp add: sound_start_def Let_def)
  have "counters_unused (client E) (length plan) ?st"
    using own_counters_unused [OF _ len] assms(4) by (simp add: sound_start_def Let_def)
  then have "counters_unused (client E) (length plan) (rt wg)" by (simp only: counters_unused_cong [OF wg(1,2)])
  moreover have "length plan < 2 ^ 64" using len by linarith
  ultimately have "clean_run E plan (rt wg) ?fs (rt w') (lw w')"
    using execute_clean [OF assms(1,2) _ _ _ _ _ exec assms(6)] plan st wi by metis
  moreover have "\<not> is_conflict op" if "op \<in> set plan" for op
    using execute_balances [OF exec] assms(7) that by (auto simp: filter_empty_conv)
  ultimately show ?thesis using plan wg(1) by (intro that [of "rt wg" plan]) (simp_all add: sound_plan_def)
qed

text \<open>The whole of it: the hypotheses bundled, and what follows from them.\<close>

definition clean_sync ::
  "(files, fs, 'k, 'd) env \<Rightarrow> string list \<Rightarrow> (files, fs, 'k) world \<Rightarrow> (files, fs, 'k) world \<Rightarrow> bool" where
  "clean_sync E scopes w w' \<longleftrightarrow> loc_of E = memory_port (crypt E) \<and> (\<exists>cd. rem_of E = folder_port (crypt E) cd)
     \<and> (\<forall>bs. blake3_hex (crypt E) bs \<noteq> []) \<and> sound_start E scopes w
     \<and> (\<exists>r. reconcile E scopes w = (Inr r, w') \<and> failures_count r = 0 \<and> conflicts_count r = 0)"

lemma clean_sync_ordered:
  assumes "clean_sync E scopes w w'"
  shows "text_free (rt w') \<and> bt_ok (lw w')"
proof -
  from assms obtain st plan where "clean_run E plan st (lw w) (rt w') (lw w')"
    unfolding clean_sync_def by (metis reconcile_clean_run)
  moreover have "bt_ok (lw w)" using assms by (simp add: clean_sync_def sound_start_def Let_def)
  ultimately show ?thesis by (simp add: clean_run_def)
qed

lemma clean_sync_agrees:
  assumes "clean_sync E scopes w w'" and "scoped scopes (scope_id key)"
  shows "agreed E (rt w') (lw w') key"
proof -
  from assms(1) obtain st plan where cs: "commits st = commits (learned E scopes w)"
    and plan: "sound_plan E scopes (lw w) st plan" and clean: "clean_run E plan st (lw w) (rt w') (lw w')"
    unfolding clean_sync_def by (metis reconcile_clean_run)
  have st: "bt_ok (lw w)" "commits_ok st" "text_free st" "honest_versions (crypt E) st"
    using assms(1) cs
    by (simp_all add: clean_sync_def sound_start_def Let_def commits_ok_def text_free_def honest_versions_def)
  show ?thesis
  proof (cases "key \<in> op_key ` set plan")
    case True
    then obtain op where "op \<in> set plan" "key = op_key op" by blast
    with published_agrees [OF clean this(1) _ st(1)] operation_agrees [OF clean this(1) _ _ st] plan assms(2)
    show ?thesis unfolding sound_plan_def by blast
  next
    case False
    with plan assms(2) have old: "heads key st = []" "map_of (lw w) key = None" by (auto simp: sound_plan_def)
    from False have "key \<notin> op_key ` set (filter is_publication plan)" by auto
    with clean False have "heads key (rt w') = heads key st" "map_of (lw w') key = map_of (lw w) key"
      unfolding clean_run_def by blast+
    with old show ?thesis
      by (intro agreedI) (simp_all add: head_changes_def List.map_filter_simps binary_state_def agreed_state_def
          file_content_def remote_content_id_def)
  qed
qed

section \<open>Properties\<close>


definition hashed_crypto :: crypto where
  "hashed_crypto = demo_crypto\<lparr>blake3_hex := (\<lambda>bs. CHR ''h'' # map (\<lambda>b. char_of (unat b)) bs)\<rparr>"

definition hashed_env :: "string \<Rightarrow> (files, fs, redb_store, ustr) env" where
  "hashed_env who = demo_env\<lparr>client := who, crypt := hashed_crypto, loc_of := memory_port hashed_crypto,
     rem_of := folder_port hashed_crypto demo_codec\<rparr>"

text \<open>A device that holds version 1 of a file which another device has deleted.\<close>

definition gone_state :: runtime_state where
  "gone_state = default_state\<lparr>commits := [(''x'', Runtime_State.demo_delete ''x'' [])],
     baselines := [(encoded demo_key, \<lparr>sb_key = demo_key,
       sb_state = BaselinePresent (blake3_hex hashed_crypto [1]) (decimal 1) [''w''], sb_operation = ''o''\<rparr>)]\<rparr>"

definition gone_files :: files where
  "gone_files = [(demo_key, [1], 1)]"

definition gone_world :: "(files, fs, redb_store) world" where
  "gone_world = demo_world gone_state gone_files []"

abbreviation gone_operation :: plan_operation where
  "gone_operation \<equiv> ApplyDelete demo_key (LocalPresent (blake3_hex hashed_crypto [1]) 1 (decimal 1)) [''x'']"

lemma hashed_not_empty [simp]: "blake3_hex hashed_crypto bs \<noteq> []"
  by (simp add: hashed_crypto_def)

lemma gone_heads: "commits st = commits gone_state \<Longrightarrow> heads demo_key st = [''x'']"
  by (rule heads_eqI) (auto simp: set_heads resource_commits_def gone_state_def Runtime_State.demo_delete_def)

lemma hashed_refresh:
  "rw w = [] \<Longrightarrow> cursors (rt w) = [] \<Longrightarrow> refresh_remote (hashed_env who) scopes w = (Inr (), w)"
  by (simp add: refresh_remote_def bind_def seq_def get_rt_apply modify_rt_apply on_remote_def zoom_def
      hashed_env_def demo_env_def folder_scan_catalog_def demo_scan missing_commits_def folder_load_commits_def
      advance_cursors_def bumps_def cursors_of_def covered_by_def bt_collect_def)

lemma gone_inventory:
  "lw w = gone_files \<Longrightarrow> local_inventory (hashed_env who) [''s''] w = (Inr (listing hashed_crypto [''s''] gone_files), w)"
  by (simp add: local_inventory_def bind_def get_rt_apply on_local_def zoom_def hashed_env_def demo_env_def memory_port_def memory_list_def listing_def cache_step_def
      gone_files_def)

lemma gone_listing: "listing hashed_crypto [''s''] gone_files =
    [\<lparr>lr_key = demo_key, lr_kind = Binary, lr_state = LocalPresent (blake3_hex hashed_crypto [1]) 1 (decimal 1)\<rparr>]"
  by (simp add: listing_def scoped_def demo_key_def gone_files_def)

lemma gone_plan:
  assumes "commits (rt w) = commits gone_state" and "baselines (rt w) = baselines gone_state"
  shows "build_plan (hashed_env who) [''s''] (listing hashed_crypto [''s''] gone_files) w
    = (Inr [gone_operation], w\<lparr>tick := tick w + 2\<rparr>)"
proof -
  have "text_free (rt w)" using assms(1)
    by (simp add: text_free_def gone_state_def Runtime_State.demo_delete_def is_text_def)
  moreover have "remote_keys [''s''] (rt w) = [demo_key]" using assms(1)
    by (simp add: remote_keys_def gone_state_def Runtime_State.demo_delete_def scoped_def demo_key_def bset_def)
  moreover have "binary_state (rt w) demo_key = RemoteDeleted [''x'']" using assms(1)
    by (simp add: binary_state_def gone_heads head_changes_def List.map_filter_simps gone_state_def
        Runtime_State.demo_delete_def is_delete_def)
  moreover have "baseline_pairs [''s''] (rt w) = [(demo_key, BaselinePresent (blake3_hex hashed_crypto [1]) (decimal 1) [''w''])]"
    using assms(2) by (simp add: baseline_pairs_def gone_state_def scoped_def demo_key_def)
  moreover have "crypt (hashed_env who) = hashed_crypto" "policy (hashed_env who) = None" by (simp_all add: hashed_env_def demo_env_def)
  ultimately show ?thesis unfolding gone_listing
    by (simp add: build_plan_def bind_apply seq_def get_rt_apply new_seed_apply Let_def remote_pairs_binary
        plan_inventory_def inventory_keys_def bset_def plan_resource_def bt_collect_def enumerate_eq_zip)
      (simp add: text_conflict_to_upload_def)
qed

lemma gone_execute:
  assumes "lw w = gone_files" and "rw w = []" and "db_handle (kw w) \<noteq> None"
  shows "\<exists>r evs w'. execute (hashed_env who) [''s''] local [gone_operation] run w = (Inr (r, evs), w')
    \<and> failures_count r = 0 \<and> conflicts_count r = 0 \<and> commits (rt w') = commits (rt w)"
  using assms
  by (auto simp add: execute_def register_plan_def bind_def seq_def get_rt_apply modify_rt_apply register_operation_def
      on_remote_def on_local_def on_store_def zoom_def hashed_env_def demo_env_def emit_progress_def emit_def
      run_uploads_def upload_keys_def finish_run_def save_state_def clear_conflicts_def transfer_def
      Let_def redb_save_def with_db_def redb_port_def plan_acks_def folder_write_acknowledgements_def
      memory_port_def memory_read_def folder_port_def folder_lookup_chunks_def lookup_chunks_fs_def
      read_indexes_def files_recursive_def build_packs_def enumerate_eq_zip
      guarded_operation_def attempt_def run_operation_def run_apply_delete_def apply_one_def memory_apply_one_def
      precondition_def version_token_def pre_holds_def is_publication_def is_conflict_def tally_def empty_report_def
      List.map_filter_simps gone_files_def set_deleted_baseline_def)

lemma gone_report:
  assumes "lw w = gone_files" and "rw w = []" and "db_handle (kw w) \<noteq> None" and "commits (rt w) = commits gone_state"
  shows "\<exists>r w'. bind (execute (hashed_env who) [''s''] local [gone_operation] run) (\<lambda>(r, _). ret r) w = (Inr r, w')
    \<and> failures_count r = 0 \<and> conflicts_count r = 0 \<and> commits (rt w') = commits gone_state"
  using gone_execute [OF assms(1-3), of who local run] assms(4) by (auto simp: bind_apply)

lemma gone_start:
  "commits (rt gone_world) = commits gone_state" "baselines (rt gone_world) = baselines gone_state"
  "cursors (rt gone_world) = []" "events_since_snapshot (rt gone_world) = []" "active_run (rt gone_world) = None"
  "counter (rt gone_world) = 0" "lw gone_world = gone_files" "rw gone_world = []" "db_handle (kw gone_world) \<noteq> None"
  by (simp_all add: gone_world_def demo_world_def gone_state_def default_state_def redb_open_def)

lemma gone_reconcile:
  "\<exists>r w'. reconcile (hashed_env who) [''s''] gone_world = (Inr r, w') \<and> failures_count r = 0 \<and> conflicts_count r = 0
     \<and> commits (rt w') = commits gone_state"
  by (simp add: reconcile_def bind_apply now_apply seq_def emit_def modify_rt_apply get_rt_apply
      Let_def gone_start hashed_refresh snapshot_large_catalogs_def gone_inventory gone_plan note_kinds_def)
    (rule gone_report [unfolded bind_apply One_nat_def], simp_all add: gone_start)

lemma hashed_ports:
  "loc_of (hashed_env who) = memory_port (crypt (hashed_env who))"
  "rem_of (hashed_env who) = folder_port (crypt (hashed_env who)) demo_codec"
  "blake3_hex (crypt (hashed_env who)) bs \<noteq> []" "crypt (hashed_env who) = hashed_crypto" "client (hashed_env who) = who"
  by (simp_all add: hashed_env_def)

lemma gone_sound: "sound_start (hashed_env who) [''s''] gone_world"
proof -
  have "learned (hashed_env who) [''s''] gone_world = (rt gone_world)\<lparr>active_run := None\<rparr>"
    by (simp add: learned_def hashed_refresh gone_start)
  moreover have "commits gone_state = [(''x'', Runtime_State.demo_delete ''x'' [])]" "length (baselines gone_state) = 1"
    by (simp_all add: gone_state_def)
  moreover have "''x'' \<noteq> counter_prefix who n @ y" for n y
    by (auto simp: counter_prefix_def Cons_eq_append_conv)
  ultimately show ?thesis using hashed_ports(5) [of who]
    by (auto simp: sound_start_def Let_def gone_start commits_ok_def text_free_def honest_versions_def own_counters_seen_def
        Runtime_State.demo_delete_def is_text_def bt_ok_def gone_files_def)
qed

lemma gone_clean: "\<exists>w'. clean_sync (hashed_env who) [''s''] gone_world w' \<and> commits (rt w') = commits gone_state"
  using gone_reconcile [of who] gone_sound [of who] hashed_ports unfolding clean_sync_def by blast


end
