(* ===== verification/Convergence.thy ===== *)
theory Convergence
  imports Agreement
begin

text \<open>
  What agreement with the remote means for the devices: two that synchronised cleanly and know the same
  commits hold the same content, and a device that did so has nothing left to transfer.
\<close>

lemma clean_sync_content:
  assumes "clean_sync E scopes w w'" and "scoped scopes (scope_id key)"
  shows "(\<forall>hs. binary_state (rt w') key \<noteq> RemoteForked hs)
    \<and> file_content (crypt E) (lw w') key = remote_content_id (binary_state (rt w') key)"
  using clean_sync_agrees [OF assms] clean_sync_ordered [OF assms(1)]
  by (auto simp: agreed_def agreed_state_def remote_state_binary [OF text_free_heads] split: remote_state.splits)

lemma binary_state_commits: "commits st' = commits st \<Longrightarrow> binary_state st' key = binary_state st key"
  unfolding binary_state_def head_changes_def by (simp only: heads_same_commits [of st' st])

section \<open>Properties\<close>





end
