(* ===== verification/Oplog.thy ===== *)
theory Oplog
  imports Types
begin

text \<open>
  The v1 log: the records of \<^verbatim>\<open>src/src/types.rs\<close> that only the v1 engine uses, and \<^verbatim>\<open>src/src/oplog.rs\<close>,
  the names of log objects and the detection of forks in a listing.
\<close>

section \<open>Records\<close>

datatype change_type = V1TextDelta bytes | V1BinarySnapshot "string list" | V1Delete

record op_log_entry =
  oe_sequence :: u64
  oe_client :: string
  oe_timestamp :: int
  oe_change :: change_type

record remote_log_item =
  li_sequence :: u64
  li_client :: string
  li_path :: string

record client_status =
  cs_client :: string
  cs_sequence :: u64

record oplog_cache_entry =
  ce_sequence :: u64
  ce_data :: bytes

datatype binary_file_state = BinPresent "string list" u64 | BinDeleted u64

record v1_maintenance =
  vm_files :: nat
  vm_truncated :: nat
  vm_oplogs_deleted :: nat
  vm_deferred :: nat
  vm_packs_deleted :: nat
  vm_packs_repacked :: nat
  vm_bytes :: nat

record binary_modification =
  bm_file :: string
  bm_data :: bytes

record binary_modification_result =
  br_file :: string
  br_sequence :: u64
  br_manifest :: "string list"

section \<open>Names of log objects\<close>

definition OPLOG_EXT :: string where
  "OPLOG_EXT = ''oplog''"

definition format_oplog_name :: "u64 \<Rightarrow> string \<Rightarrow> string" where
  "format_oplog_name sequence client_id = decimal (unat sequence) @ ''_'' @ client_id @ ''.'' @ OPLOG_EXT"

definition strip_suffix :: "string \<Rightarrow> string \<Rightarrow> string option" where
  "strip_suffix suf s =
     (let n = length s - length suf
      in if length suf \<le> length s \<and> drop n s = suf then Some (take n s) else None)"

definition split_once :: "char \<Rightarrow> string \<Rightarrow> (string \<times> string) option" where
  "split_once c s = (case dropWhile (\<lambda>d. d \<noteq> c) s of [] \<Rightarrow> None | _ # rest \<Rightarrow> Some (takeWhile (\<lambda>d. d \<noteq> c) s, rest))"

text \<open>\<^verbatim>\<open>str::parse::<u64>\<close>: an optional plus sign, at least one digit, and no overflow.\<close>

definition digit_value :: "char \<Rightarrow> nat option" where
  "digit_value c = (let n = of_char c in if 48 \<le> n \<and> n < 58 then Some (n - 48) else None)"

fun parse_digits :: "nat \<Rightarrow> string \<Rightarrow> nat option" where
  "parse_digits acc [] = Some acc"
| "parse_digits acc (c # cs) =
     (case digit_value c of
        None \<Rightarrow> None
      | Some d \<Rightarrow> if acc * 10 + d < 2 ^ 64 then parse_digits (acc * 10 + d) cs else None)"

definition parse_u64 :: "string \<Rightarrow> u64 option" where
  "parse_u64 s =
     (let ds = (case s of c # cs \<Rightarrow> if c = CHR ''+'' then cs else s | [] \<Rightarrow> [])
      in if ds = [] then None else map_option word_of_nat (parse_digits 0 ds))"

definition parse_oplog_name :: "string \<Rightarrow> sync_error + u64 \<times> string" where
  "parse_oplog_name name =
     bind_result (ok_or (IoError (''not an oplog name: '' @ name)) (strip_suffix (''.'' @ OPLOG_EXT) name)) (\<lambda>stem.
     bind_result (ok_or (IoError (''malformed oplog name: '' @ name)) (split_once (CHR ''_'') stem)) (\<lambda>(seq_str, client).
     bind_result (ok_or (IoError (''bad sequence in oplog name: '' @ name)) (parse_u64 seq_str)) (\<lambda>sequence.
     if client = [] then Inl (IoError (''empty client id in oplog name: '' @ name))
     else Inr (sequence, client))))"

section \<open>Forks\<close>

definition sort_items :: "remote_log_item list \<Rightarrow> remote_log_item list" where
  "sort_items items = sort_key (\<lambda>i. (li_sequence i, li_client i)) items"

definition windows2 :: "'a list \<Rightarrow> ('a \<times> 'a) list" where
  "windows2 xs = zip xs (tl xs)"

definition fork_pair :: "remote_log_item \<times> remote_log_item \<Rightarrow> bool" where
  "fork_pair w \<longleftrightarrow> li_sequence (fst w) = li_sequence (snd w) \<and> li_client (fst w) \<noteq> li_client (snd w)"

definition has_fork :: "remote_log_item list \<Rightarrow> bool" where
  "has_fork items \<longleftrightarrow> list_ex fork_pair (windows2 items)"

definition forked_step :: "u64 list \<Rightarrow> remote_log_item \<times> remote_log_item \<Rightarrow> u64 list" where
  "forked_step acc w =
     (let s = li_sequence (fst w) in if fork_pair w \<and> (acc = [] \<or> last acc \<noteq> s) then acc @ [s] else acc)"

definition forked_sequences :: "remote_log_item list \<Rightarrow> u64 list" where
  "forked_sequences items = foldl forked_step [] (windows2 items)"

section \<open>Names round trip\<close>

lemma digit_value_digit: "d < 10 \<Longrightarrow> digit_value (digit d) = Some d"
  by (simp add: digit_value_def digit_def Let_def)

lemma parse_digits_snoc:
  "parse_digits acc (cs @ [c]) = Option.bind (parse_digits acc cs) (\<lambda>n. parse_digits n [c])"
  by (induction cs arbitrary: acc) (auto split: option.splits)

lemma parse_digits_decimal: "n < 2 ^ 64 \<Longrightarrow> parse_digits 0 (decimal n) = Some n"
proof (induction n rule: decimal.induct)
  case (1 n)
  show ?case
  proof (cases "n < 10")
    case True
    with 1 show ?thesis by (subst decimal.simps) (simp add: digit_value_digit)
  next
    case False
    have "n div 10 < 2 ^ 64" using "1.prems" by linarith
    with False "1.IH" [OF False] "1.prems" show ?thesis
      by (subst decimal.simps) (simp add: parse_digits_snoc digit_value_digit)
  qed
qed

lemma decimal_chars: "c \<in> set (decimal n) \<Longrightarrow> c \<noteq> CHR ''_'' \<and> c \<noteq> CHR ''+'' \<and> c \<noteq> CHR ''/''"
proof -
  assume "c \<in> set (decimal n)"
  then obtain k where "k < 10" "c = digit k" by (auto dest: decimal_digits)
  then have "48 \<le> (of_char c :: nat) \<and> (of_char c :: nat) < 58" by (simp add: digit_range)
  then show ?thesis by auto
qed

lemma parse_u64_decimal: "parse_u64 (decimal (unat s)) = Some s"
proof -
  have "unat s < 2 ^ 64" using unsigned_less [where 'a = nat and w = s] by simp
  then have p: "parse_digits 0 (decimal (unat s)) = Some (unat s)" by (rule parse_digits_decimal)
  obtain c cs where d: "decimal (unat s) = c # cs" using decimal_not_Nil [of "unat s"] by (cases "decimal (unat s)") auto
  have "c \<noteq> CHR ''+''" using decimal_chars [of c "unat s"] by (simp add: d)
  then show ?thesis using p by (simp add: parse_u64_def d)
qed

lemma split_once_append: "c \<notin> set xs \<Longrightarrow> split_once c (xs @ c # ys) = Some (xs, ys)"
proof -
  assume "c \<notin> set xs"
  then have "\<forall>d \<in> set xs. d \<noteq> c" by auto
  then show ?thesis by (simp add: split_once_def dropWhile_append2 takeWhile_append2)
qed

lemma strip_suffix_append [simp]: "strip_suffix suf (s @ suf) = Some s"
  by (simp add: strip_suffix_def)

lemma strip_suffix_Some: "strip_suffix suf s = Some t \<longleftrightarrow> s = t @ suf"
  by (auto simp: strip_suffix_def Let_def split: if_splits) (metis append_take_drop_id)

lemma oplog_name_parses:
  assumes "client \<noteq> []"
  shows "parse_oplog_name (format_oplog_name s client) = Inr (s, client)"
proof -
  have name: "format_oplog_name s client = (decimal (unat s) @ CHR ''_'' # client) @ (''.'' @ OPLOG_EXT)"
    by (simp add: format_oplog_name_def)
  have "CHR ''_'' \<notin> set (decimal (unat s))" using decimal_chars by blast
  then show ?thesis using assms unfolding parse_oplog_name_def
    by (simp add: name strip_suffix_append split_once_append parse_u64_decimal del: append_assoc append_Cons)
qed

text \<open>The name of a log object round-trips: parsing the formatted name gives the sequence and the
  client back, underscores and dots in the client included.\<close>

theorem oplog_name_round_trip:
  assumes "client \<noteq> []"
  shows "parse_oplog_name (format_oplog_name s client) = Inr (s, client)"
  by (rule oplog_name_parses [OF assms])

theorem oplog_name_round_trip_witness:
  "parse_oplog_name (format_oplog_name 7 ''client_A.1'') = Inr (7, ''client_A.1'')"
  by (rule oplog_name_round_trip) simp


section \<open>Forks in a sorted listing\<close>

lemma windows2_Cons [simp]: "windows2 (a # b # xs) = (a, b) # windows2 (b # xs)" "windows2 [a] = []" "windows2 [] = []"
  by (simp_all add: windows2_def)

lemma increasing_le_last:
  fixes acc :: "'a :: linorder list"
  assumes "sorted_wrt (<) acc" and "x \<in> set acc"
  shows "x \<le> last acc"
  using assms by (induction acc) (auto simp: le_less)

definition forked_at :: "(remote_log_item \<times> remote_log_item) list \<Rightarrow> u64 set" where
  "forked_at ws = set (map (\<lambda>w. li_sequence (fst w)) (filter fork_pair ws))"

lemma foldl_forked_step:
  assumes "sorted (map (\<lambda>w. li_sequence (fst w)) ws)" and "sorted_wrt (<) acc"
    and "\<forall>s \<in> set acc. \<forall>w \<in> set ws. s \<le> li_sequence (fst w)"
  shows "sorted_wrt (<) (foldl forked_step acc ws)
    \<and> set (foldl forked_step acc ws) = set acc \<union> forked_at ws"
  using assms
proof (induction ws arbitrary: acc)
  case (Cons w ws)
  let ?s = "li_sequence (fst w)"
  have old: "x < ?s" if "x \<in> set acc" "acc = [] \<or> last acc \<noteq> ?s" for x
  proof -
    have "acc \<noteq> []" using that(1) by auto
    then have "x \<le> last acc" "last acc \<in> set acc" using that(1) Cons.prems(2) by (simp_all add: increasing_le_last)
    moreover have "last acc \<noteq> ?s" using that \<open>acc \<noteq> []\<close> by simp
    ultimately have "last acc < ?s" using Cons.prems(3) by (force simp: le_less)
    with \<open>x \<le> last acc\<close> show ?thesis by simp
  qed
  have acc': "sorted_wrt (<) (forked_step acc w)" "set (forked_step acc w) = set acc \<union> (if fork_pair w then {?s} else {})"
    using Cons.prems(2) old by (auto simp: forked_step_def Let_def sorted_wrt_append) (metis last_in_set)
  moreover have "\<forall>s \<in> set (forked_step acc w). \<forall>v \<in> set ws. s \<le> li_sequence (fst v)"
    using Cons.prems(1,3) by (auto simp: forked_step_def Let_def)
  ultimately show ?case using Cons.IH [of "forked_step acc w"] Cons.prems(1) by (auto simp: forked_at_def)
qed (simp add: forked_at_def)

lemma has_fork_iff: "has_fork xs \<longleftrightarrow> forked_at (windows2 xs) \<noteq> {}"
  by (auto simp: has_fork_def list_ex_iff forked_at_def filter_empty_conv)

lemma windows_fst: "map fst (windows2 xs) = butlast xs"
  by (induction xs rule: induct_list012) simp_all

lemma sorted_fork_adjacent:
  assumes "sorted (map (\<lambda>i. (li_sequence i, li_client i)) xs)" and "a \<in> set xs" and "b \<in> set xs"
    and "li_sequence a = li_sequence b" and "li_client a < li_client b"
  shows "\<exists>w \<in> set (windows2 xs). fork_pair w \<and> li_sequence (fst w) = li_sequence a"
  using assms
proof (induction xs arbitrary: a rule: induct_list012)
  case (3 x y ys)
  have head: "(li_sequence x, li_client x) \<le> (li_sequence i, li_client i)" if "i \<in> set (y # ys)" for i
    using "3.prems"(1) that by auto
  show ?case
  proof (cases "a \<in> set (y # ys) \<and> b \<in> set (y # ys)")
    case True
    with "3.IH"(2) "3.prems"(1,4,5) show ?thesis by auto
  next
    case False
    have "b \<noteq> x"
    proof
      assume "b = x"
      with "3.prems"(2,5) have "a \<in> set (y # ys)" by auto
      from head [OF this] \<open>b = x\<close> "3.prems"(4,5) show False by (auto simp: less_eq_prod_def)
    qed
    with False "3.prems"(2,3) have ax: "a = x" and b: "b \<in> set (y # ys)" by auto
    have "(li_sequence y, li_client y) \<le> (li_sequence b, li_client b)" using "3.prems"(1) b by auto
    moreover have "(li_sequence x, li_client x) \<le> (li_sequence y, li_client y)" by (rule head) simp
    ultimately have seq: "li_sequence y = li_sequence x" and le: "li_client x \<le> li_client y"
      using ax "3.prems"(4) by (auto simp: less_eq_prod_def)
    show ?thesis
    proof (cases "li_client y = li_client x")
      case False
      with seq ax show ?thesis by (auto simp: fork_pair_def)
    next
      case True
      have "li_sequence y = li_sequence b" "li_client y < li_client b" using seq True ax "3.prems"(4,5) by auto
      with "3.IH"(2) [of y] "3.prems"(1) b obtain w where "w \<in> set (windows2 (y # ys))" "fork_pair w"
        "li_sequence (fst w) = li_sequence y" by auto
      with seq ax show ?thesis by auto
    qed
  qed
qed auto

lemma windows_mem: "(a, b) \<in> set (windows2 xs) \<Longrightarrow> a \<in> set xs \<and> b \<in> set xs"
  by (induction xs rule: induct_list012) auto

text \<open>Fork detection is exact: in the sorted listing \<open>forked_sequences\<close> are, each once and in order,
  exactly the sequence numbers that two clients claim, and \<open>has_fork\<close> holds exactly when there is one.\<close>

theorem forked_sequences_exact:
  "sorted_wrt (<) (forked_sequences (sort_items items))
    \<and> set (forked_sequences (sort_items items))
      = {s. \<exists>a \<in> set items. \<exists>b \<in> set items. li_sequence a = s \<and> li_sequence b = s \<and> li_client a \<noteq> li_client b}
    \<and> (has_fork (sort_items items) \<longleftrightarrow> forked_sequences (sort_items items) \<noteq> [])"
proof -
  let ?xs = "sort_items items"
  have sorted: "sorted (map (\<lambda>i. (li_sequence i, li_client i)) ?xs)" by (simp add: sort_items_def)
  then have "sorted (map li_sequence ?xs)"
    by (simp add: sorted_map less_eq_prod_def) (erule sorted_wrt_mono_rel [rotated], auto)
  then have "sorted (map li_sequence (butlast ?xs))" by (simp add: map_butlast sorted_butlast)
  then have "sorted (map (\<lambda>w. li_sequence (fst w)) (windows2 ?xs))"
    by (simp add: windows_fst [symmetric] comp_def)
  from foldl_forked_step [OF this, of "[]"]
  have f: "sorted_wrt (<) (forked_sequences ?xs)" "set (forked_sequences ?xs) = forked_at (windows2 ?xs)"
    by (simp_all add: forked_sequences_def)
  have set: "set ?xs = set items" by (simp add: sort_items_def)
  have "s \<in> forked_at (windows2 ?xs) \<longleftrightarrow>
      (\<exists>a \<in> set items. \<exists>b \<in> set items. li_sequence a = s \<and> li_sequence b = s \<and> li_client a \<noteq> li_client b)" for s
  proof
    assume "s \<in> forked_at (windows2 ?xs)"
    then obtain a b where "(a, b) \<in> set (windows2 ?xs)" "fork_pair (a, b)" "s = li_sequence a"
      by (auto simp: forked_at_def)
    with windows_mem [of a b ?xs] show "\<exists>a \<in> set items. \<exists>b \<in> set items. li_sequence a = s \<and> li_sequence b = s \<and> li_client a \<noteq> li_client b"
      by (auto simp: fork_pair_def set)
  next
    assume "\<exists>a \<in> set items. \<exists>b \<in> set items. li_sequence a = s \<and> li_sequence b = s \<and> li_client a \<noteq> li_client b"
    then obtain a b where ab: "a \<in> set ?xs" "b \<in> set ?xs" "li_sequence a = s" "li_sequence b = s"
      "li_client a \<noteq> li_client b" by (auto simp: set)
    then consider "li_client a < li_client b" | "li_client b < li_client a" by fastforce
    then obtain w where "w \<in> set (windows2 ?xs)" "fork_pair w" "li_sequence (fst w) = s"
      using sorted_fork_adjacent [OF sorted ab(1,2)] sorted_fork_adjacent [OF sorted ab(2,1)] ab(3,4)
      by cases auto
    then show "s \<in> forked_at (windows2 ?xs)" by (auto simp: forked_at_def)
  qed
  with f show ?thesis by (auto simp: has_fork_iff)
qed

end
