(* ===== verification/Log_Remote.thy ===== *)
theory Log_Remote
  imports Oplog Folder_Remote
begin

text \<open>
  \<^verbatim>\<open>LocalFolderRemote\<close> of \<^verbatim>\<open>src/src/remote.rs\<close>, the v1 remote. Unlike the v2 folder its operations look
  at directories (\<^verbatim>\<open>list_files\<close> reports the ids whose \<^verbatim>\<open>oplogs\<close> directory exists, a write into a missing
  directory fails), so the model keeps the directories beside the files. A path is relative to the root;
  ids are relative and without \<^verbatim>\<open>..\<close>, and a slash in an id is a nesting of directories, as \<^verbatim>\<open>Path::join\<close>
  makes it. \<^verbatim>\<open>read_dir\<close> has no specified order: the model lists the files, then the directories. Device
  failures are not modelled; absent files, files in the place of directories and short reads are.
\<close>

section \<open>The directory tree\<close>

record folder =
  files_of :: fs
  dirs_of :: "path list"

fun split_on :: "char \<Rightarrow> string \<Rightarrow> string list" where
  "split_on c [] = [[]]"
| "split_on c (x # xs) =
     (if x = c then [] # split_on c xs
      else (case split_on c xs of [] \<Rightarrow> [[x]] | w # ws \<Rightarrow> (x # w) # ws))"

definition split_path :: "string \<Rightarrow> path" where
  "split_path s = filter (\<lambda>c. c \<noteq> [] \<and> c \<noteq> ''.'') (split_on (CHR ''/'') s)"

definition is_a_directory :: sync_error where
  "is_a_directory = IoError ''Is a directory (os error 21)''"

definition not_a_directory :: sync_error where
  "not_a_directory = IoError ''Not a directory (os error 20)''"

definition file_exists :: sync_error where
  "file_exists = IoError ''File exists (os error 17)''"

definition path_prefixes :: "path \<Rightarrow> path list" where
  "path_prefixes p = map (\<lambda>n. take n p) [0..<Suc (length p)]"

definition path_exists :: "path \<Rightarrow> folder \<Rightarrow> bool" where
  "path_exists p f \<longleftrightarrow> fs_exists (files_of f) p \<or> p \<in> set (dirs_of f)"

definition absent_error :: "path \<Rightarrow> folder \<Rightarrow> sync_error" where
  "absent_error p f =
     (if list_ex (fs_exists (files_of f)) (path_prefixes (butlast p)) then not_a_directory else not_found)"

definition create_dir_all :: "path \<Rightarrow> folder \<Rightarrow> sync_error + folder" where
  "create_dir_all p f =
     (if fs_exists (files_of f) p then Inl file_exists
      else if list_ex (fs_exists (files_of f)) (path_prefixes p) then Inl not_a_directory
      else Inr (f\<lparr>dirs_of := dirs_of f @ filter (\<lambda>d. d \<notin> set (dirs_of f)) (path_prefixes p)\<rparr>))"

definition write_file :: "path \<Rightarrow> bytes \<Rightarrow> folder \<Rightarrow> sync_error + folder" where
  "write_file p data f =
     (if p \<in> set (dirs_of f) then Inl is_a_directory
      else if butlast p \<in> set (dirs_of f) then Inr (f\<lparr>files_of := fs_write p data (files_of f)\<rparr>)
      else Inl (absent_error p f))"

definition read_file :: "path \<Rightarrow> folder \<Rightarrow> sync_error + bytes" where
  "read_file p f =
     (case map_of (files_of f) p of
        Some data \<Rightarrow> Inr data
      | None \<Rightarrow> Inl (if p \<in> set (dirs_of f) then is_a_directory else absent_error p f))"

definition remove_file :: "path \<Rightarrow> folder \<Rightarrow> sync_error + folder" where
  "remove_file p f =
     (if fs_exists (files_of f) p then Inr (f\<lparr>files_of := fs_remove p (files_of f)\<rparr>)
      else Inl (if p \<in> set (dirs_of f) then is_a_directory else absent_error p f))"

definition read_dir :: "path \<Rightarrow> folder \<Rightarrow> sync_error + string list" where
  "read_dir d f =
     (if d \<in> set (dirs_of f)
      then Inr (map last (filter (\<lambda>p. p \<noteq> [] \<and> butlast p = d) (map fst (files_of f) @ dirs_of f)))
      else Inl (if fs_exists (files_of f) d then not_a_directory else absent_error d f))"

definition reading :: "(folder \<Rightarrow> sync_error + 'a) \<Rightarrow> (folder, sync_error, 'a) rm" where
  "reading m = (\<lambda>f. (m f, f))"

definition updating :: "(folder \<Rightarrow> sync_error + folder) \<Rightarrow> (folder, sync_error, unit) rm" where
  "updating m = (\<lambda>f. case m f of Inl e \<Rightarrow> (Inl e, f) | Inr f' \<Rightarrow> (Inr (), f'))"

section \<open>Helpers and layout\<close>

text \<open>\<open>log_codec\<close> carries the JSON of the stored objects, which serde renders and parses. The parser of a
  status gives \<^verbatim>\<open>None\<close> when the JSON has no unsigned \<^verbatim>\<open>last_synced_sequence\<close>.\<close>

record log_codec =
  enc_entry :: "op_log_entry \<Rightarrow> bytes"
  dec_entry :: "bytes \<Rightarrow> string + op_log_entry"
  enc_status :: "u64 \<Rightarrow> bytes"
  dec_status :: "bytes \<Rightarrow> string + u64 option"

definition oplog_dir :: "string \<Rightarrow> path" where
  "oplog_dir file_id = split_path file_id @ [''oplogs'']"

definition baseline_dir :: "string \<Rightarrow> path" where
  "baseline_dir file_id = split_path file_id @ [''baselines'']"

definition pack_dir :: path where
  "pack_dir = [''packs'']"

definition pack_index_dir :: path where
  "pack_index_dir = [''pack-indexes'']"

definition status_dir :: path where
  "status_dir = [''clients_status'']"

definition open_folder :: folder where
  "open_folder = \<lparr>files_of = [], dirs_of = [[]]\<rparr>"

definition baseline_name :: "u64 \<Rightarrow> string" where
  "baseline_name s = ''baseline_'' @ decimal (unat s) @ ''.zst''"

definition strip_prefix :: "string \<Rightarrow> string \<Rightarrow> string option" where
  "strip_prefix pre s = (if take (length pre) s = pre then Some (drop (length pre) s) else None)"

definition write_addressed :: "path \<Rightarrow> string \<Rightarrow> bytes \<Rightarrow> (folder, sync_error, unit) rm" where
  "write_addressed dir name data =
     seq (updating (create_dir_all dir))
         (updating (\<lambda>f. if path_exists (dir @ split_path name) f then Inr f
                        else write_file (dir @ split_path name) data f))"

definition list_dir_names :: "path \<Rightarrow> folder \<Rightarrow> sync_error + string list" where
  "list_dir_names dir f = (if path_exists dir f then read_dir dir f else Inr [])"

definition delete_if_present :: "path \<Rightarrow> (folder, sync_error, unit) rm" where
  "delete_if_present p = updating (\<lambda>f. case remove_file p f of
       Inl e \<Rightarrow> if e = not_found then Inr f else Inl e
     | Inr f' \<Rightarrow> Inr f')"

section \<open>The log of a file\<close>

definition RESERVED :: "string list" where
  "RESERVED = [''packs'', ''pack-indexes'', ''clients_status'']"

definition log_list_files :: "(folder, sync_error, string list) rm" where
  "log_list_files = reading (\<lambda>f.
     bind_result (list_dir_names [] f) (\<lambda>names.
     Inr (filter (\<lambda>n. n \<notin> set RESERVED \<and> path_exists (oplog_dir n) f) names)))"

definition log_item :: "string \<Rightarrow> sync_error + remote_log_item" where
  "log_item name = bind_result (parse_oplog_name name) (\<lambda>(sequence, client).
     Inr \<lparr>li_sequence = sequence, li_client = client, li_path = name\<rparr>)"

definition list_oplogs_in :: "string \<Rightarrow> folder \<Rightarrow> sync_error + remote_log_item list" where
  "list_oplogs_in file_id f =
     bind_result (list_dir_names (oplog_dir file_id) f) (\<lambda>names.
     collect_result log_item (filter (\<lambda>n. strip_suffix (''.'' @ OPLOG_EXT) n \<noteq> None) names))"

definition log_list_oplogs :: "string \<Rightarrow> (folder, sync_error, remote_log_item list) rm" where
  "log_list_oplogs file_id = reading (list_oplogs_in file_id)"

definition write_oplog :: "log_codec \<Rightarrow> string \<Rightarrow> op_log_entry \<Rightarrow> (folder, sync_error, unit) rm" where
  "write_oplog cd file_id entry =
     (let dir = oplog_dir file_id
      in seq (updating (create_dir_all dir))
             (updating (write_file
               (dir @ split_path (format_oplog_name (oe_sequence entry) (oe_client entry))) (enc_entry cd entry))))"

definition log_put_oplog :: "log_codec \<Rightarrow> string \<Rightarrow> op_log_entry \<Rightarrow> (folder, sync_error, unit) rm" where
  "log_put_oplog cd file_id entry = write_oplog cd file_id entry"

definition log_put_oplog_cas :: "log_codec \<Rightarrow> string \<Rightarrow> op_log_entry \<Rightarrow> (folder, sync_error, unit) rm" where
  "log_put_oplog_cas cd file_id entry =
     bind (log_list_oplogs file_id) (\<lambda>items.
     if list_ex (\<lambda>i. li_sequence i = oe_sequence entry) items
     then throw (CasConflict (oe_sequence entry))
     else write_oplog cd file_id entry)"

definition log_get_oplog :: "string \<Rightarrow> string \<Rightarrow> (folder, sync_error, bytes) rm" where
  "log_get_oplog file_id remote_path = reading (read_file (oplog_dir file_id @ split_path remote_path))"

definition log_delete_oplog :: "string \<Rightarrow> string \<Rightarrow> (folder, sync_error, unit) rm" where
  "log_delete_oplog file_id remote_path = updating (\<lambda>f.
     case remove_file (oplog_dir file_id @ split_path remote_path) f of
       Inl e \<Rightarrow> if e = not_found then Inr f else Inl e
     | Inr f' \<Rightarrow> Inr f')"

section \<open>Packs\<close>

definition log_put_pack :: "string \<Rightarrow> bytes \<Rightarrow> (folder, sync_error, unit) rm" where
  "log_put_pack pack_id data = write_addressed pack_dir pack_id data"

definition log_get_pack_range :: "string \<Rightarrow> u64 \<Rightarrow> u32 \<Rightarrow> (folder, sync_error, bytes) rm" where
  "log_get_pack_range pack_id offset len = reading (\<lambda>f.
     bind_result (read_file (pack_dir @ split_path pack_id) f) (\<lambda>file.
     let data = take (unat len) (drop (unat offset) file)
     in if length data < unat len then Inl (IoError ''failed to fill whole buffer'') else Inr data))"

definition log_list_packs :: "(folder, sync_error, string list) rm" where
  "log_list_packs = reading (list_dir_names pack_dir)"

definition log_delete_pack :: "string \<Rightarrow> (folder, sync_error, unit) rm" where
  "log_delete_pack pack_id = delete_if_present (pack_dir @ split_path pack_id)"

definition log_put_pack_index :: "string \<Rightarrow> bytes \<Rightarrow> (folder, sync_error, unit) rm" where
  "log_put_pack_index index_id data = write_addressed pack_index_dir index_id data"

definition log_get_pack_index :: "string \<Rightarrow> (folder, sync_error, bytes) rm" where
  "log_get_pack_index index_id = reading (read_file (pack_index_dir @ split_path index_id))"

definition log_list_pack_indexes :: "(folder, sync_error, string list) rm" where
  "log_list_pack_indexes = reading (list_dir_names pack_index_dir)"

definition log_delete_pack_index :: "string \<Rightarrow> (folder, sync_error, unit) rm" where
  "log_delete_pack_index index_id = delete_if_present (pack_index_dir @ split_path index_id)"

section \<open>Baselines and statuses\<close>

definition log_put_baseline :: "string \<Rightarrow> u64 \<Rightarrow> bytes \<Rightarrow> (folder, sync_error, unit) rm" where
  "log_put_baseline file_id s data =
     seq (updating (create_dir_all (baseline_dir file_id)))
         (updating (write_file (baseline_dir file_id @ [baseline_name s]) data))"

definition log_get_baseline :: "string \<Rightarrow> u64 \<Rightarrow> (folder, sync_error, bytes option) rm" where
  "log_get_baseline file_id s = reading (\<lambda>f.
     case read_file (baseline_dir file_id @ [baseline_name s]) f of
       Inr data \<Rightarrow> Inr (Some data)
     | Inl e \<Rightarrow> if e = not_found then Inr None else Inl e)"

definition baseline_sequence :: "string \<Rightarrow> u64 option" where
  "baseline_sequence name =
     Option.bind (strip_prefix ''baseline_'' name) (\<lambda>s. Option.bind (strip_suffix ''.zst'' s) parse_u64)"

definition log_list_baselines :: "string \<Rightarrow> (folder, sync_error, u64 list) rm" where
  "log_list_baselines file_id = reading (\<lambda>f.
     bind_result (list_dir_names (baseline_dir file_id) f) (\<lambda>names.
     Inr (sort (List.map_filter baseline_sequence names))))"

definition log_put_status :: "log_codec \<Rightarrow> string \<Rightarrow> u64 \<Rightarrow> (folder, sync_error, unit) rm" where
  "log_put_status cd client_id s =
     seq (updating (create_dir_all status_dir))
         (updating (write_file (status_dir @ split_path (client_id @ ''.status'')) (enc_status cd s)))"

definition status_of :: "log_codec \<Rightarrow> folder \<Rightarrow> string \<Rightarrow> sync_error + client_status" where
  "status_of cd f name =
     bind_result (read_file (status_dir @ [name]) f) (\<lambda>bytes.
     bind_result (parse_with (dec_status cd) bytes) (\<lambda>val.
     bind_result (ok_or (SerdeError (''bad status file: '' @ name)) val) (\<lambda>s.
     Inr \<lparr>cs_client = unwrap_or [] (strip_suffix ''.status'' name), cs_sequence = s\<rparr>)))"

definition log_list_statuses :: "log_codec \<Rightarrow> (folder, sync_error, client_status list) rm" where
  "log_list_statuses cd = reading (\<lambda>f.
     bind_result (list_dir_names status_dir f) (\<lambda>names.
     collect_result (status_of cd f) (filter (\<lambda>n. strip_suffix ''.status'' n \<noteq> None) names)))"

end
