(* ===== verification/Log_Store.thy ===== *)
theory Log_Store
  imports Oplog
begin

text \<open>
  \<^verbatim>\<open>RedbStore\<close> of \<^verbatim>\<open>src/src/store.rs\<close>, the v1 store: four tables in key order behind a handle that
  \<^verbatim>\<open>close\<close> drops. A write transaction commits as a whole, so each write is one function on the tables; I/O
  errors of the database are not modelled. redb orders a \<^verbatim>\<open>(&str, u64)\<close> key by its components.
\<close>

record log_tables =
  FILES :: "(string \<times> bytes) list"
  OPLOG :: "((string \<times> u64) \<times> bytes) list"
  BASELINE_META :: "(string \<times> u64) list"
  SYNC_CURSOR :: "(string \<times> u64) list"

record log_store =
  log_db :: "log_tables option"

definition log_with_db ::
  "(log_tables \<Rightarrow> (sync_error + 'a) \<times> log_tables) \<Rightarrow> (log_store, sync_error, 'a) rm" where
  "log_with_db action = (\<lambda>s. case log_db s of
       None \<Rightarrow> (Inl (IoError ''redb store is closed''), s)
     | Some db \<Rightarrow> (case action db of (r, db') \<Rightarrow> (r, s\<lparr>log_db := Some db'\<rparr>)))"

definition log_write :: "(log_tables \<Rightarrow> log_tables) \<Rightarrow> (log_store, sync_error, unit) rm" where
  "log_write f = log_with_db (\<lambda>db. (Inr (), f db))"

definition log_open :: "log_tables option \<Rightarrow> log_store" where
  "log_open file = \<lparr>log_db = Some (unwrap_or \<lparr>FILES = [], OPLOG = [], BASELINE_META = [], SYNC_CURSOR = []\<rparr> file)\<rparr>"

definition log_get_file_state :: "string \<Rightarrow> (log_store, sync_error, bytes option) rm" where
  "log_get_file_state file_id = log_with_db (\<lambda>db. (Inr (map_of (FILES db) file_id), db))"

definition log_tracked_files :: "(log_store, sync_error, string list) rm" where
  "log_tracked_files = log_with_db (\<lambda>db. (Inr (map fst (FILES db)), db))"

definition cached_rows :: "string \<Rightarrow> u64 \<Rightarrow> log_tables \<Rightarrow> ((string \<times> u64) \<times> bytes) list" where
  "cached_rows file_id up_to db = filter (\<lambda>(k, _). (file_id, 0) \<le> k \<and> k \<le> (file_id, up_to)) (OPLOG db)"

definition log_cached_oplogs :: "string \<Rightarrow> (log_store, sync_error, oplog_cache_entry list) rm" where
  "log_cached_oplogs file_id = log_with_db (\<lambda>db.
     (Inr (map (\<lambda>((_, s), data). \<lparr>ce_sequence = s, ce_data = data\<rparr>) (cached_rows file_id (- 1) db)), db))"

definition log_get_baseline_meta :: "string \<Rightarrow> (log_store, sync_error, u64 option) rm" where
  "log_get_baseline_meta file_id = log_with_db (\<lambda>db. (Inr (map_of (BASELINE_META db) file_id), db))"

definition log_get_sync_cursor :: "string \<Rightarrow> (log_store, sync_error, u64 option) rm" where
  "log_get_sync_cursor file_id = log_with_db (\<lambda>db. (Inr (map_of (SYNC_CURSOR db) file_id), db))"

definition insert_row :: "string \<Rightarrow> oplog_cache_entry \<Rightarrow> log_tables \<Rightarrow> log_tables" where
  "insert_row file_id e db = db\<lparr>OPLOG := bt_insert (file_id, ce_sequence e) (ce_data e) (OPLOG db)\<rparr>"

definition log_persist_file ::
  "string \<Rightarrow> bytes \<Rightarrow> u64 \<Rightarrow> oplog_cache_entry option \<Rightarrow> (log_store, sync_error, unit) rm" where
  "log_persist_file file_id state head cache_entry = log_write (\<lambda>db.
     let db1 = db\<lparr>FILES := bt_insert file_id state (FILES db)\<rparr>;
         db2 = db1\<lparr>SYNC_CURSOR := bt_insert file_id head (SYNC_CURSOR db1)\<rparr>
     in case cache_entry of None \<Rightarrow> db2 | Some e \<Rightarrow> insert_row file_id e db2)"

definition log_cache_oplogs :: "string \<Rightarrow> oplog_cache_entry list \<Rightarrow> (log_store, sync_error, unit) rm" where
  "log_cache_oplogs file_id entries =
     (if entries = [] then ret () else log_write (fold (insert_row file_id) entries))"

definition log_commit_truncation :: "string \<Rightarrow> u64 \<Rightarrow> (log_store, sync_error, unit) rm" where
  "log_commit_truncation file_id up_to = log_write (\<lambda>db.
     let keys = map (snd \<circ> fst) (cached_rows file_id up_to db);
         db1 = db\<lparr>OPLOG := fold (\<lambda>s. bt_remove (file_id, s)) keys (OPLOG db)\<rparr>
     in db1\<lparr>BASELINE_META := bt_insert file_id up_to (BASELINE_META db1)\<rparr>)"

definition log_close :: "(log_store, sync_error, unit) rm" where
  "log_close = (\<lambda>s. (Inr (), s\<lparr>log_db := None\<rparr>))"

section \<open>The cache of a file\<close>

text \<open>\<open>cached_log\<close> is the abstract view of the cache: the stored bytes of each sequence.\<close>

definition cached_log :: "log_tables \<Rightarrow> string \<Rightarrow> u64 \<Rightarrow> bytes option" where
  "cached_log db file_id = (\<lambda>s. map_of (OPLOG db) (file_id, s))"

lemma word_le_max [simp]: "(s :: u64) \<le> - 1"
  by simp

lemma map_of_filter_fst: "map_of (filter (\<lambda>(k, _). P k) m) k = (if P k then map_of m k else None)"
  by (induction m) auto

lemma map_of_cached_rows:
  "map_of (cached_rows file_id up_to db) k
     = (if fst k = file_id \<and> snd k \<le> up_to then map_of (OPLOG db) k else None)"
  by (cases k) (auto simp: cached_rows_def map_of_filter_fst less_eq_prod_def)

lemma cached_rows_keys: "(k, v) \<in> set (cached_rows file_id up_to db) \<Longrightarrow> fst k = file_id \<and> snd k \<le> up_to"
  by (cases k) (auto simp: cached_rows_def less_eq_prod_def)

lemma map_of_fold_remove:
  "map_of (fold (\<lambda>s. bt_remove (file_id, s)) keys m) k
     = (if fst k = file_id \<and> snd k \<in> set keys then None else map_of m k)"
  by (induction keys arbitrary: m) (cases k, auto)+

lemma map_of_None_keys: "snd k \<notin> (snd \<circ> fst) ` set m \<Longrightarrow> map_of m k = None"
  by (cases k) (force simp: map_of_eq_None_iff)

lemma truncated_cache:
  "cached_log (db\<lparr>OPLOG := fold (\<lambda>s. bt_remove (f, s)) (map (snd \<circ> fst) (cached_rows f up_to db)) (OPLOG db)\<rparr>) g s
     = (if g = f \<and> s \<le> up_to then None else cached_log db g s)"
proof (cases "g = f \<and> s \<le> up_to \<and> map_of (OPLOG db) (f, s) \<noteq> None")
  case True
  then have "map_of (cached_rows f up_to db) (f, s) \<noteq> None" by (simp add: map_of_cached_rows)
  then have "s \<in> (snd \<circ> fst) ` set (cached_rows f up_to db)" using map_of_None_keys [of "(f, s)"] by fastforce
  with True show ?thesis by (simp add: cached_log_def map_of_fold_remove)
next
  case False
  have "s \<in> (snd \<circ> fst) ` set (cached_rows f up_to db) \<Longrightarrow> s \<le> up_to" by (auto dest: cached_rows_keys)
  with False show ?thesis by (auto simp: cached_log_def map_of_fold_remove)
qed

lemma cached_fold_insert:
  "cached_log (fold (insert_row f) es db) g s
     = (if g = f then (case hm_collect (map (\<lambda>e. (ce_sequence e, ce_data e)) es) s of
                         Some b \<Rightarrow> Some b | None \<Rightarrow> cached_log db g s)
        else cached_log db g s)"
  by (induction es arbitrary: db) (auto simp: cached_log_def insert_row_def hm_collect_def map_add_def split: option.splits)

end
