(* ===== verification/Log_Engine.thy ===== *)
theory Log_Engine
  imports Log_Remote Log_Store Binary_Pack Text_Doc
begin

text \<open>
  \<^verbatim>\<open>SyncEngine\<close> of \<^verbatim>\<open>src/src/engine.rs\<close>, the v1 engine, up to the publication of log entries: its state,
  reading the log, rebuilding a file from it, persisting and the compare-and-swap loop. The two traits it
  is built on are the records of operations \<open>log_remote\<close> (\<^verbatim>\<open>RemoteStorage\<close>) and \<open>log_storage\<close>
  (\<^verbatim>\<open>LocalStore\<close>); \<open>engine\<close> is everything a method can read or change. Locks are not modelled: one method
  runs at a time. Adding one to a head wraps, as it does in a release build.
\<close>

section \<open>Ports, environment and state\<close>

record 'r log_remote =
  lg_list_files :: "('r, sync_error, string list) rm"
  lg_list_oplogs :: "string \<Rightarrow> ('r, sync_error, remote_log_item list) rm"
  lg_put_oplog :: "string \<Rightarrow> op_log_entry \<Rightarrow> ('r, sync_error, unit) rm"
  lg_put_cas :: "string \<Rightarrow> op_log_entry \<Rightarrow> ('r, sync_error, unit) rm"
  lg_get_oplog :: "string \<Rightarrow> string \<Rightarrow> ('r, sync_error, bytes) rm"
  lg_delete_oplog :: "string \<Rightarrow> string \<Rightarrow> ('r, sync_error, unit) rm"
  lg_put_pack :: "string \<Rightarrow> bytes \<Rightarrow> ('r, sync_error, unit) rm"
  lg_get_range :: "string \<Rightarrow> u64 \<Rightarrow> u32 \<Rightarrow> ('r, sync_error, bytes) rm"
  lg_list_packs :: "('r, sync_error, string list) rm"
  lg_delete_pack :: "string \<Rightarrow> ('r, sync_error, unit) rm"
  lg_put_index :: "string \<Rightarrow> bytes \<Rightarrow> ('r, sync_error, unit) rm"
  lg_get_index :: "string \<Rightarrow> ('r, sync_error, bytes) rm"
  lg_list_indexes :: "('r, sync_error, string list) rm"
  lg_delete_index :: "string \<Rightarrow> ('r, sync_error, unit) rm"
  lg_put_baseline :: "string \<Rightarrow> u64 \<Rightarrow> bytes \<Rightarrow> ('r, sync_error, unit) rm"
  lg_get_baseline :: "string \<Rightarrow> u64 \<Rightarrow> ('r, sync_error, bytes option) rm"
  lg_list_baselines :: "string \<Rightarrow> ('r, sync_error, u64 list) rm"
  lg_put_status :: "string \<Rightarrow> u64 \<Rightarrow> ('r, sync_error, unit) rm"
  lg_list_statuses :: "('r, sync_error, client_status list) rm"

record 'k log_storage =
  lk_get_state :: "string \<Rightarrow> ('k, sync_error, bytes option) rm"
  lk_list_files :: "('k, sync_error, string list) rm"
  lk_list_oplogs :: "string \<Rightarrow> ('k, sync_error, oplog_cache_entry list) rm"
  lk_baseline_meta :: "string \<Rightarrow> ('k, sync_error, u64 option) rm"
  lk_cursor :: "string \<Rightarrow> ('k, sync_error, u64 option) rm"
  lk_persist :: "string \<Rightarrow> bytes \<Rightarrow> u64 \<Rightarrow> oplog_cache_entry option \<Rightarrow> ('k, sync_error, unit) rm"
  lk_cache :: "string \<Rightarrow> oplog_cache_entry list \<Rightarrow> ('k, sync_error, unit) rm"
  lk_truncate :: "string \<Rightarrow> u64 \<Rightarrow> ('k, sync_error, unit) rm"
  lk_close :: "('k, sync_error, unit) rm"

datatype 'd file_state = FText 'd | FBinary "string list" bool

record 'd tracked_file =
  tf_head :: u64
  tf_state :: "'d file_state"

datatype persisted_state = PText bytes u64 | PBinary "string list" bool u64

datatype notification = ContentUpdated string | ConflictCopy string string

record ('r, 'k, 'd) log_env =
  log_client :: string
  log_crypto :: crypto
  log_yrs :: "'d yrs"
  log_cdc :: "bytes \<Rightarrow> (nat \<times> nat) list"
  log_clock :: "nat \<Rightarrow> int"
  log_seeds :: "nat \<Rightarrow> nat"
  log_policy :: binary_conflict_policy
  log_json :: log_codec
  enc_persisted :: "persisted_state \<Rightarrow> bytes"
  enc_pack :: "pack_index \<Rightarrow> bytes"
  dec_pack :: "bytes \<Rightarrow> string + pack_index"
  zstd_encode :: "bytes \<Rightarrow> string + bytes"
  zstd_decode :: "bytes \<Rightarrow> string + bytes"
  log_rem :: "'r log_remote"
  log_sto :: "'k log_storage"

record ('r, 'k, 'd) engine =
  tracked :: "string \<Rightarrow> 'd tracked_file option"
  in_flight :: "string set"
  remote :: 'r
  store :: 'k
  readings :: nat
  notified :: "notification list"

type_synonym ('r, 'k, 'd, 'a) log_op = "(('r, 'k, 'd) engine, sync_error, 'a) rm"

definition MAX_CAS_ATTEMPTS :: nat where
  "MAX_CAS_ATTEMPTS = 8"

definition engine_new :: "'r \<Rightarrow> 'k \<Rightarrow> ('r, 'k, 'd) engine" where
  "engine_new r k =
     \<lparr>tracked = (\<lambda>_. None), in_flight = {}, remote = r, store = k, readings = 0, notified = []\<rparr>"

definition at_remote :: "('r, sync_error, 'a) rm \<Rightarrow> ('r, 'k, 'd, 'a) log_op" where
  "at_remote = zoom remote (\<lambda>s w. w\<lparr>remote := s\<rparr>)"

definition at_store :: "('k, sync_error, 'a) rm \<Rightarrow> ('r, 'k, 'd, 'a) log_op" where
  "at_store = zoom store (\<lambda>s w. w\<lparr>store := s\<rparr>)"

definition notify :: "notification \<Rightarrow> ('r, 'k, 'd, unit) log_op" where
  "notify n = modify (\<lambda>w. w\<lparr>notified := notified w @ [n]\<rparr>)"

definition log_error :: "string \<Rightarrow> ('r, 'k, 'd, 'a) log_op" where
  "log_error msg = throw (IoError msg)"

text \<open>The v1 clock: 0 for a reading before the epoch or above \<^verbatim>\<open>i64::MAX\<close>.\<close>

definition log_millis :: "int \<Rightarrow> int" where
  "log_millis t = (if 0 \<le> t \<and> t < 2 ^ 63 then t else 0)"

definition log_now :: "('r, 'k, 'd) log_env \<Rightarrow> ('r, 'k, 'd, int) log_op" where
  "log_now E = bind (gets (\<lambda>w. log_millis (log_clock E (readings w)))) (\<lambda>t.
     seq (modify (\<lambda>w. w\<lparr>readings := Suc (readings w)\<rparr>)) (ret t))"

definition new_doc :: "('r, 'k, 'd) log_env \<Rightarrow> ('r, 'k, 'd, 'd) log_op" where
  "new_doc E = bind (gets (\<lambda>w. text_new (log_yrs E) (log_seeds E (readings w)))) (\<lambda>d.
     seq (modify (\<lambda>w. w\<lparr>readings := Suc (readings w)\<rparr>)) (ret d))"

definition set_file :: "string \<Rightarrow> 'd tracked_file \<Rightarrow> ('r, 'k, 'd, unit) log_op" where
  "set_file file_id f = modify (\<lambda>w. w\<lparr>tracked := (tracked w)(file_id := Some f)\<rparr>)"

definition engine_head :: "('r, 'k, 'd) engine \<Rightarrow> string \<Rightarrow> u64" where
  "engine_head w file_id = (case tracked w file_id of Some f \<Rightarrow> tf_head f | None \<Rightarrow> 0)"

text \<open>A method that holds a \<^verbatim>\<open>&mut TrackedFile\<close> works on the entry of the map; the entry was inserted
  before, so the error is not reached.\<close>

definition with_file :: "string \<Rightarrow> ('d tracked_file \<Rightarrow> ('r, 'k, 'd, 'a) log_op) \<Rightarrow> ('r, 'k, 'd, 'a) log_op" where
  "with_file file_id k = bind (gets (\<lambda>w. tracked w file_id)) (\<lambda>f. case f of
       Some file \<Rightarrow> k file | None \<Rightarrow> log_error ''unreachable: the file is tracked'')"

section \<open>Reading the log\<close>

definition tip_is_forked :: "op_log_entry list \<Rightarrow> bool" where
  "tip_is_forked entries =
     (if entries = [] then False
      else length (filter (\<lambda>e. oe_sequence e = oe_sequence (last entries)) entries) > 1)"

definition entry_bytes ::
  "('r, 'k, 'd) log_env \<Rightarrow> string \<Rightarrow> u64 set \<Rightarrow> (u64 \<Rightarrow> bytes option) \<Rightarrow> remote_log_item \<Rightarrow>
   ('r, 'k, 'd, bytes \<times> oplog_cache_entry list) log_op" where
  "entry_bytes E file_id forked cached item =
     (if li_sequence item \<in> forked
      then bind (at_remote (lg_get_oplog (log_rem E) file_id (li_path item))) (\<lambda>b. ret (b, []))
      else case cached (li_sequence item) of
        Some b \<Rightarrow> ret (b, [])
      | None \<Rightarrow> bind (at_remote (lg_get_oplog (log_rem E) file_id (li_path item))) (\<lambda>b.
          ret (b, [\<lparr>ce_sequence = li_sequence item, ce_data = b\<rparr>])))"

definition load_step ::
  "('r, 'k, 'd) log_env \<Rightarrow> string \<Rightarrow> u64 set \<Rightarrow> (u64 \<Rightarrow> bytes option) \<Rightarrow>
   op_log_entry list \<times> oplog_cache_entry list \<Rightarrow> remote_log_item \<Rightarrow>
   ('r, 'k, 'd, op_log_entry list \<times> oplog_cache_entry list) log_op" where
  "load_step E file_id forked cached acc item =
     bind (entry_bytes E file_id forked cached item) (\<lambda>(bytes, new).
     bind (lift_result (parse_with (dec_entry (log_json E)) bytes)) (\<lambda>entry.
     ret (fst acc @ [entry], snd acc @ new)))"

definition load_entries_caching ::
  "('r, 'k, 'd) log_env \<Rightarrow> string \<Rightarrow> ('r, 'k, 'd, op_log_entry list \<times> oplog_cache_entry list) log_op" where
  "load_entries_caching E file_id =
     bind (at_remote (lg_list_oplogs (log_rem E) file_id)) (\<lambda>listed.
     let items = sort_items listed; forked = set (forked_sequences items)
     in bind (at_store (lk_list_oplogs (log_sto E) file_id)) (\<lambda>rows.
        let cached = hm_collect (map (\<lambda>e. (ce_sequence e, ce_data e)) rows)
        in fold_m (load_step E file_id forked cached) ([], []) items))"

definition load_entries :: "('r, 'k, 'd) log_env \<Rightarrow> string \<Rightarrow> ('r, 'k, 'd, op_log_entry list) log_op" where
  "load_entries E file_id = bind (load_entries_caching E file_id) (\<lambda>(entries, _). ret entries)"

definition decompress :: "('r, 'k, 'd) log_env \<Rightarrow> bytes \<Rightarrow> sync_error + bytes" where
  "decompress E z = (case zstd_decode E z of Inl msg \<Rightarrow> Inl (IoError msg) | Inr raw \<Rightarrow> Inr raw)"

definition baseline_at ::
  "('r, 'k, 'd) log_env \<Rightarrow> string \<Rightarrow> u64 \<Rightarrow> ('r, 'k, 'd, (bytes \<times> u64) option) log_op" where
  "baseline_at E file_id s =
     bind (at_remote (lg_get_baseline (log_rem E) file_id s)) (\<lambda>compressed. case compressed of
         None \<Rightarrow> ret None
       | Some z \<Rightarrow> bind (lift_result (decompress E z)) (\<lambda>raw. ret (Some (raw, s))))"

definition load_baseline ::
  "('r, 'k, 'd) log_env \<Rightarrow> string \<Rightarrow> ('r, 'k, 'd, (bytes \<times> u64) option) log_op" where
  "load_baseline E file_id =
     bind (at_remote (lg_list_baselines (log_rem E) file_id)) (\<lambda>seqs.
     if seqs = [] then ret None else baseline_at E file_id (last seqs))"

definition load_all_baselines ::
  "('r, 'k, 'd) log_env \<Rightarrow> string \<Rightarrow> ('r, 'k, 'd, (bytes \<times> u64) list) log_op" where
  "load_all_baselines E file_id =
     bind (at_remote (lg_list_baselines (log_rem E) file_id)) (\<lambda>seqs.
     bind (collect_m (baseline_at E file_id) seqs) (\<lambda>found. ret (List.map_filter id found)))"

section \<open>Rebuilding a file\<close>

definition log_delta :: "op_log_entry \<Rightarrow> bytes option" where
  "log_delta e = (case oe_change e of V1TextDelta d \<Rightarrow> Some d | _ \<Rightarrow> None)"

definition is_text_log :: "op_log_entry list \<Rightarrow> bool" where
  "is_text_log entries \<longleftrightarrow> list_ex (\<lambda>e. log_delta e \<noteq> None) entries"

definition build_text ::
  "('r, 'k, 'd) log_env \<Rightarrow> string \<Rightarrow> op_log_entry list \<Rightarrow> ('r, 'k, 'd, 'd tracked_file) log_op" where
  "build_text E file_id entries =
     bind (load_all_baselines E file_id) (\<lambda>baselines.
     let baseline_seq = foldl max 0 (map snd baselines)
     in bind (new_doc E) (\<lambda>doc.
        bind (lift_result (apply_deltas (log_yrs E) doc (map fst baselines))) (\<lambda>doc.
        let head = foldl (\<lambda>h e. max h (oe_sequence e)) baseline_seq entries;
            deltas = List.map_filter log_delta (filter (\<lambda>e. \<not> oe_sequence e \<le> baseline_seq) entries)
        in bind (lift_result (apply_deltas (log_yrs E) doc deltas)) (\<lambda>doc.
           ret \<lparr>tf_head = head, tf_state = FText doc\<rparr>))))"

function group_entries :: "op_log_entry list \<Rightarrow> op_log_entry list list" where
  "group_entries [] = []"
| "group_entries (e # es) =
     (e # takeWhile (\<lambda>x. oe_sequence x = oe_sequence e) es)
       # group_entries (dropWhile (\<lambda>x. oe_sequence x = oe_sequence e) es)"
  by pat_completeness auto

termination
  by (relation "measure length") (auto simp: le_imp_less_Suc length_dropWhile_le)

text \<open>The logical state a binary entry sets: \<^verbatim>\<open>Some(Some(manifest))\<close>, \<^verbatim>\<open>Some(None)\<close> for a deletion, and
  nothing for a text entry.\<close>

definition binary_state_of :: "op_log_entry \<Rightarrow> string list option option" where
  "binary_state_of e = (case oe_change e of
       V1BinarySnapshot hashes \<Rightarrow> Some (Some hashes) | V1Delete \<Rightarrow> Some None | V1TextDelta _ \<Rightarrow> None)"

definition resolve_fork ::
  "binary_conflict_policy \<Rightarrow> string list option \<Rightarrow> string list option \<Rightarrow> string list option \<Rightarrow>
   sync_error + string list option \<times> bool" where
  "resolve_fork policy current left right =
     (if left = right then Inr (left, False)
      else case (left, right) of
        (Some l, Some r) \<Rightarrow>
          if left = current then Inr (right, False)
          else if right = current then Inr (left, False)
          else (case merge_manifests (unwrap_or [] current) l r policy of
              Unchanged m \<Rightarrow> Inr (Some m, False)
            | FastForward m \<Rightarrow> Inr (Some m, False)
            | NeedsResolution \<Rightarrow> Inl ConflictNeedResolution
            | MergeConflicted resolved needs_copy \<Rightarrow> Inr (Some resolved, needs_copy))
      | _ \<Rightarrow> (case policy of
            Manual \<Rightarrow> Inl ConflictNeedResolution
          | KeepLocal \<Rightarrow> Inr (left, False)
          | KeepBoth \<Rightarrow> Inr (left, True)
          | KeepRemote \<Rightarrow> Inr (right, False)))"

definition merge_group ::
  "binary_conflict_policy \<Rightarrow> string list option \<times> u64 \<times> bool \<Rightarrow> op_log_entry list \<Rightarrow>
   sync_error + string list option \<times> u64 \<times> bool" where
  "merge_group policy acc g =
     (case acc of (current, head, needs_copy) \<Rightarrow>
      let head = max head (oe_sequence (hd g))
      in case List.map_filter binary_state_of g of
           [] \<Rightarrow> Inr (current, head, needs_copy)
         | [state] \<Rightarrow> Inr (state, head, needs_copy)
         | left # right # _ \<Rightarrow>
             bind_result (resolve_fork policy current left right) (\<lambda>(state, copy).
             Inr (state, head, needs_copy \<or> copy)))"

fun fold_result :: "('b \<Rightarrow> 'a \<Rightarrow> 'e + 'b) \<Rightarrow> 'b \<Rightarrow> 'a list \<Rightarrow> 'e + 'b" where
  "fold_result f b [] = Inr b"
| "fold_result f b (x # xs) = bind_result (f b x) (\<lambda>b'. fold_result f b' xs)"

definition build_binary ::
  "binary_conflict_policy \<Rightarrow> op_log_entry list \<Rightarrow> sync_error + 'd tracked_file \<times> bool" where
  "build_binary policy entries =
     bind_result (fold_result (merge_group policy) (None, 0, False) (group_entries entries)) (\<lambda>(current, head, copy).
     Inr (\<lparr>tf_head = head, tf_state = FBinary (unwrap_or [] current) (current = None)\<rparr>, copy))"

section \<open>Persisting and publishing\<close>

definition persisted_of :: "'d yrs \<Rightarrow> 'd tracked_file \<Rightarrow> persisted_state" where
  "persisted_of Y file = (case tf_state file of
       FText doc \<Rightarrow> PText (full_update Y doc) (tf_head file)
     | FBinary hashes deleted \<Rightarrow> PBinary hashes deleted (tf_head file))"

definition persist_file ::
  "('r, 'k, 'd) log_env \<Rightarrow> string \<Rightarrow> 'd tracked_file \<Rightarrow> op_log_entry option \<Rightarrow> ('r, 'k, 'd, unit) log_op" where
  "persist_file E file_id file cache_entry =
     (let cache = map_option (\<lambda>e. \<lparr>ce_sequence = oe_sequence e, ce_data = enc_entry (log_json E) e\<rparr>) cache_entry
      in at_store (lk_persist (log_sto E) file_id (enc_persisted E (persisted_of (log_yrs E) file)) (tf_head file) cache))"

definition integrate_remote :: "('r, 'k, 'd) log_env \<Rightarrow> string \<Rightarrow> ('r, 'k, 'd, unit) log_op" where
  "integrate_remote E file_id =
     bind (load_entries E file_id) (\<lambda>entries.
     with_file file_id (\<lambda>file. case tf_state file of
         FText _ \<Rightarrow> bind (build_text E file_id entries) (set_file file_id)
       | FBinary _ _ \<Rightarrow>
           bind (lift_result (build_binary (log_policy E) entries)) (\<lambda>(rebuilt, _). set_file file_id rebuilt)))"

definition make_entry ::
  "('r, 'k, 'd) log_env \<Rightarrow> change_type \<Rightarrow> u64 \<Rightarrow> ('r, 'k, 'd, op_log_entry) log_op" where
  "make_entry E change s = bind (log_now E) (\<lambda>t.
     ret \<lparr>oe_sequence = s, oe_client = log_client E, oe_timestamp = t, oe_change = change\<rparr>)"

text \<open>The retry loop, by the number of attempts left: the code's own bound, not fuel of the model.\<close>

fun publish_from ::
  "('r, 'k, 'd) log_env \<Rightarrow> string \<Rightarrow> change_type \<Rightarrow> nat \<Rightarrow> ('r, 'k, 'd, op_log_entry) log_op" where
  "publish_from E file_id change 0 = throw (RetryExhausted (word_of_nat (Suc MAX_CAS_ATTEMPTS)))"
| "publish_from E file_id change (Suc left) =
     bind (gets (\<lambda>w. engine_head w file_id + 1)) (\<lambda>s.
     bind (make_entry E change s) (\<lambda>entry.
     bind (attempt (at_remote (lg_put_cas (log_rem E) file_id entry))) (\<lambda>r. case r of
         Inr _ \<Rightarrow> with_file file_id (\<lambda>file. seq (set_file file_id (file\<lparr>tf_head := s\<rparr>)) (ret entry))
       | Inl (CasConflict _) \<Rightarrow> seq (integrate_remote E file_id) (publish_from E file_id change left)
       | Inl e \<Rightarrow> throw e)))"

definition publish_with_retry ::
  "('r, 'k, 'd) log_env \<Rightarrow> string \<Rightarrow> change_type \<Rightarrow> ('r, 'k, 'd, op_log_entry) log_op" where
  "publish_with_retry E file_id change = publish_from E file_id change MAX_CAS_ATTEMPTS"

end
