(* ===== verification/Log_Methods.thy ===== *)
theory Log_Methods
  imports Log_Engine
begin

text \<open>
  The rest of \<^verbatim>\<open>SyncEngine\<close> in \<^verbatim>\<open>src/src/engine.rs\<close>: packs and their collection, the edits, \<^verbatim>\<open>sync\<close>,
  \<^verbatim>\<open>rollback\<close>, truncation and the getters. The order in which a \<^verbatim>\<open>HashSet\<close> of ids is walked is not
  specified; \<open>truncate_many\<close> takes the order of the ids.
\<close>

section \<open>Packs\<close>

type_synonym chunk_map = "string \<Rightarrow> (string \<times> u64 \<times> u32) option"

definition index_chunk :: "string \<Rightarrow> chunk_map \<Rightarrow> packed_chunk \<Rightarrow> chunk_map" where
  "index_chunk pack_id m c =
     (if m (pc_hash c) = None then m(pc_hash c \<mapsto> (pack_id, pc_offset c, pc_length c)) else m)"

definition read_pack_index :: "('r, 'k, 'd) log_env \<Rightarrow> string \<Rightarrow> ('r, 'k, 'd, pack_index) log_op" where
  "read_pack_index E index_id =
     bind (at_remote (lg_get_index (log_rem E) index_id)) (\<lambda>bytes. lift_result (parse_with (dec_pack E) bytes))"

definition load_pack_index :: "('r, 'k, 'd) log_env \<Rightarrow> ('r, 'k, 'd, chunk_map) log_op" where
  "load_pack_index E =
     bind (at_remote (lg_list_indexes (log_rem E))) (\<lambda>ids.
     fold_m (\<lambda>m index_id. bind (read_pack_index E index_id) (\<lambda>index.
       ret (foldl (index_chunk (pi_pack_id index)) m (pi_chunks index)))) (\<lambda>_. None) ids)"

definition put_packs :: "('r, 'k, 'd) log_env \<Rightarrow> chunk list \<Rightarrow> ('r, 'k, 'd, unit) log_op" where
  "put_packs E chunks = for_each (build_packs (log_crypto E) chunks) (\<lambda>(pack_id, bytes, index).
     seq (at_remote (lg_put_pack (log_rem E) pack_id bytes))
         (at_remote (lg_put_index (log_rem E) pack_id (enc_pack E index))))"

definition upload_packs :: "('r, 'k, 'd) log_env \<Rightarrow> chunk list \<Rightarrow> ('r, 'k, 'd, unit) log_op" where
  "upload_packs E chunks =
     bind (load_pack_index E) (\<lambda>existing.
     put_packs E (filter (\<lambda>(c, _). existing (ci_hash c) = None) chunks))"

definition snapshot_hashes :: "op_log_entry \<Rightarrow> string list" where
  "snapshot_hashes e = (case oe_change e of V1BinarySnapshot hashes \<Rightarrow> hashes | _ \<Rightarrow> [])"

definition global_live_chunks :: "('r, 'k, 'd) log_env \<Rightarrow> ('r, 'k, 'd, string set) log_op" where
  "global_live_chunks E =
     bind (at_remote (lg_list_files (log_rem E))) (\<lambda>ids.
     fold_m (\<lambda>live fid. bind (load_entries E fid) (\<lambda>entries.
       ret (live \<union> set (concat (map snapshot_hashes entries))))) {} ids)"

definition total_length :: "packed_chunk list \<Rightarrow> nat" where
  "total_length chunks = sum_list (map (\<lambda>c. unat (pc_length c)) chunks)"

definition live_chunk :: "('r, 'k, 'd) log_env \<Rightarrow> pack_index \<Rightarrow> packed_chunk \<Rightarrow> ('r, 'k, 'd, chunk) log_op" where
  "live_chunk E old c =
     bind (at_remote (lg_get_range (log_rem E) (pi_pack_id old) (pc_offset c) (pc_length c))) (\<lambda>data.
     if \<not> verify_chunk (log_crypto E) (pc_hash c) data then throw (Corrupt (pc_hash c))
     else ret (\<lparr>ci_hash = pc_hash c, ci_offset = pc_offset c, ci_length = pc_length c\<rparr>, data))"

definition repack_live :: "('r, 'k, 'd) log_env \<Rightarrow> pack_index \<Rightarrow> string list \<Rightarrow> ('r, 'k, 'd, unit) log_op" where
  "repack_live E old live_hashes =
     bind (collect_m (live_chunk E old) (filter (\<lambda>c. pc_hash c \<in> set live_hashes) (pi_chunks old))) (\<lambda>chunks.
     seq (put_packs E chunks)
    (seq (at_remote (lg_delete_pack (log_rem E) (pi_pack_id old)))
         (at_remote (lg_delete_index (log_rem E) (pi_pack_id old)))))"

definition gc_pack ::
  "('r, 'k, 'd) log_env \<Rightarrow> string set \<Rightarrow> nat \<times> nat \<times> nat \<Rightarrow> string \<Rightarrow>
   ('r, 'k, 'd, nat \<times> nat \<times> nat) log_op" where
  "gc_pack E live counts index_id =
     (case counts of (deleted, repacked, reclaimed) \<Rightarrow>
      bind (read_pack_index E index_id) (\<lambda>index.
      let total = total_length (pi_chunks index)
      in case classify_pack (pi_chunks index) live of
           KeepPack \<Rightarrow> ret counts
         | KeepMixed \<Rightarrow> ret counts
         | DeletePack \<Rightarrow>
             seq (at_remote (lg_delete_pack (log_rem E) (pi_pack_id index)))
            (seq (at_remote (lg_delete_index (log_rem E) index_id))
                 (ret (deleted + 1, repacked, reclaimed + total)))
         | Repack live_hashes \<Rightarrow>
             let live_bytes = total_length (filter (\<lambda>c. pc_hash c \<in> set live_hashes) (pi_chunks index))
             in seq (repack_live E index live_hashes)
                    (ret (deleted, repacked + 1, reclaimed + (total - live_bytes)))))"

definition gc_packs ::
  "('r, 'k, 'd) log_env \<Rightarrow> string set \<Rightarrow> ('r, 'k, 'd, nat \<times> nat \<times> nat) log_op" where
  "gc_packs E live =
     bind (at_remote (lg_list_indexes (log_rem E))) (\<lambda>ids. fold_m (gc_pack E live) (0, 0, 0) ids)"

section \<open>Truncation\<close>

definition sat_sub :: "u64 \<Rightarrow> u64 \<Rightarrow> u64" where
  "sat_sub a b = (if b \<le> a then a - b else 0)"

definition put_truncation_baseline ::
  "('r, 'k, 'd) log_env \<Rightarrow> string \<Rightarrow> op_log_entry list \<Rightarrow> u64 \<Rightarrow> ('r, 'k, 'd, unit) log_op" where
  "put_truncation_baseline E file_id entries cutoff =
     bind (load_baseline E file_id) (\<lambda>existing.
     let existing_seq = (case existing of None \<Rightarrow> 0 | Some (_, s) \<Rightarrow> s);
         deltas = List.map_filter log_delta
           (filter (\<lambda>e. oe_sequence e > existing_seq \<and> oe_sequence e \<le> cutoff) entries)
     in bind (gets (\<lambda>w. log_seeds E (readings w))) (\<lambda>seed.
        seq (modify (\<lambda>w. w\<lparr>readings := Suc (readings w)\<rparr>))
       (bind (lift_result (from_baseline_and_deltas (log_yrs E) seed (map_option fst existing) deltas)) (\<lambda>doc.
        bind (lift_result (case zstd_encode E (full_update (log_yrs E) doc) of
            Inl msg \<Rightarrow> Inl (IoError msg) | Inr z \<Rightarrow> Inr z)) (\<lambda>compressed.
        at_remote (lg_put_baseline (log_rem E) file_id cutoff compressed))))))"

definition truncation_cut :: "op_log_entry list \<Rightarrow> client_status list \<Rightarrow> u64 \<Rightarrow> u64" where
  "truncation_cut entries statuses n =
     (let latest = Max (set (map oe_sequence entries));
          watermark = (if statuses = [] then latest else Min (set (map cs_sequence statuses)))
      in min (sat_sub latest n) watermark)"

definition truncate_file_history ::
  "('r, 'k, 'd) log_env \<Rightarrow> string \<Rightarrow> u64 \<Rightarrow> ('r, 'k, 'd, bool \<times> nat \<times> bool) log_op" where
  "truncate_file_history E file_id n =
     bind (load_entries E file_id) (\<lambda>entries.
     if entries = [] then ret (False, 0, False)
     else
     bind (at_remote (lg_list_statuses (log_rem E))) (\<lambda>statuses.
     let cutoff = truncation_cut entries statuses n
     in if cutoff = 0 then ret (False, 0, True)
     else
     seq (if is_text_log entries then put_truncation_baseline E file_id entries cutoff else ret ())
    (bind (at_remote (lg_list_oplogs (log_rem E) file_id)) (\<lambda>listed.
     let covered = filter (\<lambda>i. li_sequence i \<le> cutoff) (sort_items listed)
     in seq (for_each covered (\<lambda>i. at_remote (lg_delete_oplog (log_rem E) file_id (li_path i))))
       (seq (at_store (lk_truncate (log_sto E) file_id cutoff))
            (ret (True, length covered, False)))))))"

definition truncate :: "('r, 'k, 'd) log_env \<Rightarrow> string \<Rightarrow> u64 \<Rightarrow> ('r, 'k, 'd, unit) log_op" where
  "truncate E file_id n =
     bind (truncate_file_history E file_id n) (\<lambda>_.
     bind (global_live_chunks E) (\<lambda>live.
     bind (gc_packs E live) (\<lambda>_. ret ())))"

definition truncate_step ::
  "('r, 'k, 'd) log_env \<Rightarrow> u64 \<Rightarrow> v1_maintenance \<Rightarrow> string \<Rightarrow> ('r, 'k, 'd, v1_maintenance) log_op" where
  "truncate_step E n report file_id =
     bind (truncate_file_history E file_id n) (\<lambda>(truncated, deleted, deferred).
     ret (report\<lparr>vm_truncated := vm_truncated report + of_bool truncated,
                 vm_oplogs_deleted := vm_oplogs_deleted report + deleted,
                 vm_deferred := vm_deferred report + of_bool deferred\<rparr>))"

definition truncate_many ::
  "('r, 'k, 'd) log_env \<Rightarrow> string list \<Rightarrow> u64 \<Rightarrow> ('r, 'k, 'd, v1_maintenance) log_op" where
  "truncate_many E file_ids n =
     (let unique = bset file_ids;
          report = \<lparr>vm_files = length unique, vm_truncated = 0, vm_oplogs_deleted = 0, vm_deferred = 0,
                    vm_packs_deleted = 0, vm_packs_repacked = 0, vm_bytes = 0\<rparr>
      in bind (fold_m (truncate_step E n) report unique) (\<lambda>report.
         bind (global_live_chunks E) (\<lambda>live.
         bind (gc_packs E live) (\<lambda>(deleted, repacked, reclaimed).
         ret (report\<lparr>vm_packs_deleted := deleted, vm_packs_repacked := repacked, vm_bytes := reclaimed\<rparr>)))))"

section \<open>Edits\<close>

text \<open>\<^verbatim>\<open>entry(file_id).or_insert_with(..)\<close>.\<close>

definition track_text :: "('r, 'k, 'd) log_env \<Rightarrow> string \<Rightarrow> ('r, 'k, 'd, unit) log_op" where
  "track_text E file_id = bind (gets (\<lambda>w. tracked w file_id)) (\<lambda>f.
     if f = None then bind (new_doc E) (\<lambda>doc. set_file file_id \<lparr>tf_head = 0, tf_state = FText doc\<rparr>) else ret ())"

definition track_binary :: "string \<Rightarrow> ('r, 'k, 'd, unit) log_op" where
  "track_binary file_id = bind (gets (\<lambda>w. tracked w file_id)) (\<lambda>f.
     if f = None then set_file file_id \<lparr>tf_head = 0, tf_state = FBinary [] False\<rparr> else ret ())"

definition set_state :: "string \<Rightarrow> 'd file_state \<Rightarrow> ('r, 'k, 'd, unit) log_op" where
  "set_state file_id state = with_file file_id (\<lambda>file. set_file file_id (file\<lparr>tf_state := state\<rparr>))"

definition put_status_at_head :: "('r, 'k, 'd) log_env \<Rightarrow> string \<Rightarrow> ('r, 'k, 'd, unit) log_op" where
  "put_status_at_head E file_id =
     with_file file_id (\<lambda>file. at_remote (lg_put_status (log_rem E) (log_client E) (tf_head file)))"

definition persist_current ::
  "('r, 'k, 'd) log_env \<Rightarrow> string \<Rightarrow> op_log_entry \<Rightarrow> ('r, 'k, 'd, unit) log_op" where
  "persist_current E file_id entry = with_file file_id (\<lambda>file. persist_file E file_id file (Some entry))"

definition modify_text :: "('r, 'k, 'd) log_env \<Rightarrow> string \<Rightarrow> ustr \<Rightarrow> ('r, 'k, 'd, u64) log_op" where
  "modify_text E file_id new_content =
     seq (track_text E file_id)
    (with_file file_id (\<lambda>file. case tf_state file of
         FBinary _ _ \<Rightarrow> log_error (file_id @ '' is not a text file'')
       | FText doc \<Rightarrow>
           let (delta, doc') = set_text (log_yrs E) doc new_content
           in seq (set_state file_id (FText doc'))
             (bind (publish_with_retry E file_id (V1TextDelta delta)) (\<lambda>entry.
              seq (persist_current E file_id entry)
             (seq (put_status_at_head E file_id)
             (seq (notify (ContentUpdated file_id))
                  (ret (oe_sequence entry))))))))"

definition publish_binary ::
  "('r, 'k, 'd) log_env \<Rightarrow> string \<Rightarrow> change_type \<Rightarrow> 'd file_state \<Rightarrow> ('r, 'k, 'd, op_log_entry) log_op" where
  "publish_binary E file_id change state =
     bind (publish_with_retry E file_id change) (\<lambda>entry.
     seq (set_state file_id state)
    (seq (persist_current E file_id entry)
    (seq (put_status_at_head E file_id)
         (ret entry))))"

definition require_binary :: "string \<Rightarrow> ('r, 'k, 'd, unit) log_op" where
  "require_binary file_id = with_file file_id (\<lambda>file. case tf_state file of
       FBinary _ _ \<Rightarrow> ret () | FText _ \<Rightarrow> log_error (file_id @ '' is not a binary file''))"

definition modify_binary :: "('r, 'k, 'd) log_env \<Rightarrow> string \<Rightarrow> bytes \<Rightarrow> ('r, 'k, 'd, u64) log_op" where
  "modify_binary E file_id data =
     (let chunks = chunk_data (log_crypto E) (log_cdc E) data;
          man = map (\<lambda>(c, _). ci_hash c) chunks
      in seq (upload_packs E chunks)
        (seq (track_binary file_id)
        (seq (require_binary file_id)
        (bind (publish_binary E file_id (V1BinarySnapshot man) (FBinary man False)) (\<lambda>entry.
         seq (notify (ContentUpdated file_id)) (ret (oe_sequence entry)))))))"

definition modify_prepared ::
  "('r, 'k, 'd) log_env \<Rightarrow> string \<times> string list \<times> chunk list \<Rightarrow>
   ('r, 'k, 'd, binary_modification_result) log_op" where
  "modify_prepared E p =
     (case p of (file_id, man, _) \<Rightarrow>
      seq (track_binary file_id)
     (seq (require_binary file_id)
     (bind (publish_binary E file_id (V1BinarySnapshot man) (FBinary man False)) (\<lambda>entry.
      ret \<lparr>br_file = file_id, br_sequence = oe_sequence entry, br_manifest = man\<rparr>))))"

definition modify_binaries ::
  "('r, 'k, 'd) log_env \<Rightarrow> binary_modification list \<Rightarrow>
   ('r, 'k, 'd, binary_modification_result list) log_op" where
  "modify_binaries E modifications =
     (if modifications = [] then ret []
      else
      let prepared = map (\<lambda>m. let chunks = chunk_data (log_crypto E) (log_cdc E) (bm_data m)
            in (bm_file m, map (\<lambda>(c, _). ci_hash c) chunks, chunks)) modifications;
          combined = concat (map (\<lambda>(_, _, chunks). chunks) prepared)
      in seq (upload_packs E combined)
        (bind (collect_m (modify_prepared E) prepared) (\<lambda>results.
         seq (for_each (map br_file results) (\<lambda>f. notify (ContentUpdated f)))
             (ret results))))"

definition delete_binary :: "('r, 'k, 'd) log_env \<Rightarrow> string \<Rightarrow> ('r, 'k, 'd, u64) log_op" where
  "delete_binary E file_id =
     seq (track_binary file_id)
    (with_file file_id (\<lambda>file. case tf_state file of
         FText _ \<Rightarrow> log_error (file_id @ '' is not a binary file'')
       | FBinary _ already_deleted \<Rightarrow>
           if already_deleted then ret (tf_head file)
           else bind (publish_binary E file_id V1Delete (FBinary [] True)) (\<lambda>entry.
             seq (notify (ContentUpdated file_id)) (ret (oe_sequence entry)))))"

section \<open>Sync\<close>

definition publish_convergence :: "('r, 'k, 'd) log_env \<Rightarrow> string \<Rightarrow> bool \<Rightarrow> ('r, 'k, 'd, unit) log_op" where
  "publish_convergence E file_id is_text =
     bind (gets (\<lambda>w. tracked w file_id)) (\<lambda>f.
     let change = (case map_option tf_state f of
           Some (FText doc) \<Rightarrow> if is_text then Some (V1TextDelta (full_update (log_yrs E) doc)) else None
         | Some (FBinary man deleted) \<Rightarrow>
             if is_text then None else Some (if deleted then V1Delete else V1BinarySnapshot man)
         | None \<Rightarrow> None)
     in case change of
          None \<Rightarrow> ret ()
        | Some c \<Rightarrow> bind (publish_with_retry E file_id c) (\<lambda>entry.
            seq (persist_current E file_id entry) (put_status_at_head E file_id)))"

definition load_converged ::
  "('r, 'k, 'd) log_env \<Rightarrow> string \<Rightarrow>
   ('r, 'k, 'd, (op_log_entry list \<times> oplog_cache_entry list \<times> 'd tracked_file \<times> bool) option) log_op" where
  "load_converged E file_id =
     bind (load_entries_caching E file_id) (\<lambda>(entries, fetched).
     if entries = [] then ret None
     else
     bind (if is_text_log entries then bind (build_text E file_id entries) (\<lambda>f. ret (f, False))
           else lift_result (build_binary (log_policy E) entries)) (\<lambda>(file, needs_copy).
     ret (Some (entries, fetched, file, needs_copy))))"

definition sync_body :: "('r, 'k, 'd) log_env \<Rightarrow> string \<Rightarrow> ('r, 'k, 'd, unit) log_op" where
  "sync_body E file_id =
     bind (load_converged E file_id) (\<lambda>loaded. case loaded of
       None \<Rightarrow> ret ()
     | Some (entries, fetched, file, needs_copy) \<Rightarrow>
     seq (persist_file E file_id file None)
    (seq (at_remote (lg_put_status (log_rem E) (log_client E) (tf_head file)))
    (seq (set_file file_id file)
    (seq (at_store (lk_cache (log_sto E) file_id fetched))
    (seq (if needs_copy then notify (ConflictCopy file_id (file_id @ '' (conflict)'')) else ret ())
    (seq (notify (ContentUpdated file_id))
         (if tip_is_forked entries then publish_convergence E file_id (is_text_log entries) else ret ())))))))"

text \<open>The guard takes the mark off on every exit, as \<^verbatim>\<open>SyncGuard\<close>'s \<^verbatim>\<open>drop\<close> does.\<close>

definition guarded_sync :: "string \<Rightarrow> ('r, 'k, 'd, unit) log_op \<Rightarrow> ('r, 'k, 'd, unit) log_op" where
  "guarded_sync file_id body = (\<lambda>w.
     case body (w\<lparr>in_flight := insert file_id (in_flight w)\<rparr>) of
       (r, w') \<Rightarrow> (r, w'\<lparr>in_flight := in_flight w' - {file_id}\<rparr>))"

definition engine_sync :: "('r, 'k, 'd) log_env \<Rightarrow> string \<Rightarrow> ('r, 'k, 'd, unit) log_op" where
  "engine_sync E file_id =
     bind (gets (\<lambda>w. file_id \<in> in_flight w)) (\<lambda>running.
     if running then ret () else guarded_sync file_id (sync_body E file_id))"

section \<open>Rollback\<close>

definition text_at :: "('r, 'k, 'd) log_env \<Rightarrow> string \<Rightarrow> op_log_entry list \<Rightarrow> u64 \<Rightarrow> ('r, 'k, 'd, ustr) log_op" where
  "text_at E file_id entries k =
     bind (load_baseline E file_id) (\<lambda>baseline.
     let baseline_seq = (case baseline of None \<Rightarrow> 0 | Some (_, s) \<Rightarrow> s);
         deltas = List.map_filter log_delta
           (filter (\<lambda>e. oe_sequence e > baseline_seq \<and> oe_sequence e \<le> k) entries)
     in bind (gets (\<lambda>w. log_seeds E (readings w))) (\<lambda>seed.
        seq (modify (\<lambda>w. w\<lparr>readings := Suc (readings w)\<rparr>))
       (bind (lift_result (from_baseline_and_deltas (log_yrs E) seed (map_option fst baseline) deltas)) (\<lambda>doc.
        ret (text_content (log_yrs E) doc)))))"

definition rollback_text ::
  "('r, 'k, 'd) log_env \<Rightarrow> string \<Rightarrow> op_log_entry list \<Rightarrow> u64 \<Rightarrow> ('r, 'k, 'd, u64) log_op" where
  "rollback_text E file_id entries k =
     bind (text_at E file_id entries k) (\<lambda>at_k.
     seq (track_text E file_id)
    (seq (integrate_remote E file_id)
    (with_file file_id (\<lambda>file. case tf_state file of
         FBinary _ _ \<Rightarrow> log_error ''kind mismatch during rollback''
       | FText doc \<Rightarrow>
           let (delta, doc') = set_text (log_yrs E) doc at_k
           in seq (set_state file_id (FText doc'))
             (bind (publish_with_retry E file_id (V1TextDelta delta)) (\<lambda>entry.
              seq (persist_current E file_id entry) (ret (oe_sequence entry))))))))"

definition binary_state_at :: "op_log_entry list \<Rightarrow> u64 \<Rightarrow> string list option option" where
  "binary_state_at entries k =
     (case List.map_filter binary_state_of (rev (filter (\<lambda>e. oe_sequence e \<le> k) entries)) of
        [] \<Rightarrow> None | s # _ \<Rightarrow> Some s)"

definition rollback_binary ::
  "('r, 'k, 'd) log_env \<Rightarrow> string \<Rightarrow> op_log_entry list \<Rightarrow> u64 \<Rightarrow> ('r, 'k, 'd, u64) log_op" where
  "rollback_binary E file_id entries k =
     (case binary_state_at entries k of
        None \<Rightarrow> log_error (''no binary state at or before sequence '' @ decimal (unat k))
      | Some state \<Rightarrow>
          seq (track_binary file_id)
         (seq (integrate_remote E file_id)
         (bind (publish_with_retry E file_id (case state of Some man \<Rightarrow> V1BinarySnapshot man | None \<Rightarrow> V1Delete)) (\<lambda>entry.
          seq (set_state file_id (FBinary (unwrap_or [] state) (state = None)))
         (seq (persist_current E file_id entry)
              (ret (oe_sequence entry)))))))"

definition engine_rollback :: "('r, 'k, 'd) log_env \<Rightarrow> string \<Rightarrow> u64 \<Rightarrow> ('r, 'k, 'd, u64) log_op" where
  "engine_rollback E file_id k =
     bind (load_entries E file_id) (\<lambda>entries.
     if entries = [] then log_error (''nothing to roll back for '' @ file_id)
     else
     bind (if is_text_log entries then rollback_text E file_id entries k else rollback_binary E file_id entries k) (\<lambda>s.
     seq (at_remote (lg_put_status (log_rem E) (log_client E) s))
    (seq (notify (ContentUpdated file_id))
         (ret s))))"

section \<open>Reading a file\<close>

definition read_chunk :: "('r, 'k, 'd) log_env \<Rightarrow> chunk_map \<Rightarrow> string \<Rightarrow> ('r, 'k, 'd, bytes) log_op" where
  "read_chunk E index h =
     bind (lift_result (ok_or (IoError (''chunk '' @ h @ '' not found in any pack'')) (index h))) (\<lambda>(pack_id, offset, len).
     bind (at_remote (lg_get_range (log_rem E) pack_id offset len)) (\<lambda>bytes.
     if \<not> verify_chunk (log_crypto E) h bytes then throw (Corrupt h) else ret bytes))"

definition present_manifest :: "('r, 'k, 'd) engine \<Rightarrow> string \<Rightarrow> sync_error + string list" where
  "present_manifest w file_id =
     (case map_option tf_state (tracked w file_id) of
        Some (FBinary man deleted) \<Rightarrow>
          if deleted then Inl (IoError (file_id @ '' is deleted'')) else Inr man
      | _ \<Rightarrow> Inl (IoError (file_id @ '' is not a tracked binary file'')))"

definition read_binary :: "('r, 'k, 'd) log_env \<Rightarrow> string \<Rightarrow> ('r, 'k, 'd, bytes) log_op" where
  "read_binary E file_id =
     bind (bind (gets (\<lambda>w. present_manifest w file_id)) lift_result) (\<lambda>man.
     bind (load_pack_index E) (\<lambda>index.
     bind (collect_m (read_chunk E index) man) (\<lambda>chunks. ret (concat chunks))))"

definition get_text :: "('r, 'k, 'd) log_env \<Rightarrow> ('r, 'k, 'd) engine \<Rightarrow> string \<Rightarrow> sync_error + ustr" where
  "get_text E w file_id =
     (case map_option tf_state (tracked w file_id) of
        Some (FText doc) \<Rightarrow> Inr (text_content (log_yrs E) doc)
      | _ \<Rightarrow> Inl (IoError (file_id @ '' is not a tracked text file'')))"

definition get_manifest :: "('r, 'k, 'd) engine \<Rightarrow> string \<Rightarrow> sync_error + string list" where
  "get_manifest w file_id = present_manifest w file_id"

definition get_binary_state :: "('r, 'k, 'd) engine \<Rightarrow> string \<Rightarrow> sync_error + binary_file_state" where
  "get_binary_state w file_id =
     (case tracked w file_id of
        Some f \<Rightarrow> (case tf_state f of
            FBinary man deleted \<Rightarrow> Inr (if deleted then BinDeleted (tf_head f) else BinPresent man (tf_head f))
          | FText _ \<Rightarrow> Inl (IoError (file_id @ '' is not a tracked binary file'')))
      | None \<Rightarrow> Inl (IoError (file_id @ '' is not a tracked binary file'')))"

definition is_syncing :: "('r, 'k, 'd) engine \<Rightarrow> string \<Rightarrow> bool" where
  "is_syncing w file_id \<longleftrightarrow> file_id \<in> in_flight w"

definition engine_close :: "('r, 'k, 'd) log_env \<Rightarrow> ('r, 'k, 'd, unit) log_op" where
  "engine_close E = at_store (lk_close (log_sto E))"

end
