(* ===== verification/Log_Backends.thy ===== *)
theory Log_Backends
  imports Log_Methods
begin

text \<open>
  The v1 engine over the repository's own backends, and a concrete instance of its other parameters for
  the witnesses and the scenarios: a hash that spells its input, encodings of the stored objects with lengths in one byte, the document that is its
  text, and no compression.
\<close>

section \<open>The repository's own backends\<close>

definition folder_log :: "log_codec \<Rightarrow> folder log_remote" where
  "folder_log cd =
     \<lparr>lg_list_files = log_list_files, lg_list_oplogs = log_list_oplogs, lg_put_oplog = log_put_oplog cd,
      lg_put_cas = log_put_oplog_cas cd, lg_get_oplog = log_get_oplog, lg_delete_oplog = log_delete_oplog,
      lg_put_pack = log_put_pack, lg_get_range = log_get_pack_range, lg_list_packs = log_list_packs,
      lg_delete_pack = log_delete_pack, lg_put_index = log_put_pack_index, lg_get_index = log_get_pack_index,
      lg_list_indexes = log_list_pack_indexes, lg_delete_index = log_delete_pack_index,
      lg_put_baseline = log_put_baseline, lg_get_baseline = log_get_baseline,
      lg_list_baselines = log_list_baselines, lg_put_status = log_put_status cd,
      lg_list_statuses = log_list_statuses cd\<rparr>"

definition redb_log :: "log_store log_storage" where
  "redb_log =
     \<lparr>lk_get_state = log_get_file_state, lk_list_files = log_tracked_files, lk_list_oplogs = log_cached_oplogs,
      lk_baseline_meta = log_get_baseline_meta, lk_cursor = log_get_sync_cursor, lk_persist = log_persist_file,
      lk_cache = log_cache_oplogs, lk_truncate = log_commit_truncation, lk_close = log_close\<rparr>"

lemma folder_log_simps [simp]:
  "lg_list_files (folder_log cd) = log_list_files" "lg_list_oplogs (folder_log cd) = log_list_oplogs"
  "lg_put_cas (folder_log cd) = log_put_oplog_cas cd" "lg_get_oplog (folder_log cd) = log_get_oplog"
  "lg_delete_oplog (folder_log cd) = log_delete_oplog" "lg_put_pack (folder_log cd) = log_put_pack"
  "lg_get_range (folder_log cd) = log_get_pack_range" "lg_delete_pack (folder_log cd) = log_delete_pack"
  "lg_put_index (folder_log cd) = log_put_pack_index" "lg_get_index (folder_log cd) = log_get_pack_index"
  "lg_list_indexes (folder_log cd) = log_list_pack_indexes" "lg_delete_index (folder_log cd) = log_delete_pack_index"
  "lg_put_baseline (folder_log cd) = log_put_baseline" "lg_get_baseline (folder_log cd) = log_get_baseline"
  "lg_list_baselines (folder_log cd) = log_list_baselines" "lg_put_status (folder_log cd) = log_put_status cd"
  "lg_list_statuses (folder_log cd) = log_list_statuses cd"
  by (simp_all add: folder_log_def)

lemma redb_log_simps [simp]:
  "lk_list_oplogs redb_log = log_cached_oplogs" "lk_persist redb_log = log_persist_file"
  "lk_cache redb_log = log_cache_oplogs" "lk_truncate redb_log = log_commit_truncation" "lk_close redb_log = log_close"
  by (simp_all add: redb_log_def)

section \<open>A concrete instance\<close>

definition demo_hash :: "bytes \<Rightarrow> string" where
  "demo_hash bs = CHR ''h'' # concat (map (\<lambda>b. decimal (unat b) @ ''-'') bs)"

definition put_string :: "string \<Rightarrow> bytes" where
  "put_string s = word_of_nat (length s) # str_bytes s"

definition get_string :: "bytes \<Rightarrow> string \<times> bytes" where
  "get_string bs = (case bs of [] \<Rightarrow> ([], [])
     | n # rest \<Rightarrow> (map (\<lambda>b. char_of (unat b)) (take (unat n) rest), drop (unat n) rest))"

fun get_strings :: "nat \<Rightarrow> bytes \<Rightarrow> string list" where
  "get_strings 0 bs = []"
| "get_strings (Suc n) bs = (case get_string bs of (s, rest) \<Rightarrow> s # get_strings n rest)"

definition demo_enc_entry :: "op_log_entry \<Rightarrow> bytes" where
  "demo_enc_entry e = ucast (oe_sequence e) # put_string (oe_client e) @ (case oe_change e of
       V1TextDelta d \<Rightarrow> 0 # d
     | V1BinarySnapshot hs \<Rightarrow> 1 # word_of_nat (length hs) # concat (map put_string hs)
     | V1Delete \<Rightarrow> [2])"

definition demo_dec_entry :: "bytes \<Rightarrow> string + op_log_entry" where
  "demo_dec_entry bs = (case bs of [] \<Rightarrow> Inl ''empty''
     | s # rest \<Rightarrow> (case get_string rest of
         (c, []) \<Rightarrow> Inl ''no change''
       | (c, tag # body) \<Rightarrow> Inr \<lparr>oe_sequence = ucast s, oe_client = c, oe_timestamp = 0,
           oe_change = (if tag = 0 then V1TextDelta body
             else if tag = 1 then V1BinarySnapshot (get_strings (unat (hd body)) (tl body)) else V1Delete)\<rparr>))"

definition demo_log_codec :: log_codec where
  "demo_log_codec = \<lparr>enc_entry = demo_enc_entry, dec_entry = demo_dec_entry,
     enc_status = (\<lambda>s. [ucast s]), dec_status = (\<lambda>bs. Inr (map_option ucast (find (\<lambda>_. True) bs)))\<rparr>"

definition demo_enc_pack :: "pack_index \<Rightarrow> bytes" where
  "demo_enc_pack index = put_string (pi_pack_id index) @ concat (map (\<lambda>c.
     ucast (pc_offset c) # ucast (pc_length c) # put_string (pc_hash c)) (pi_chunks index))"

fun get_chunks :: "nat \<Rightarrow> bytes \<Rightarrow> packed_chunk list" where
  "get_chunks 0 bs = []"
| "get_chunks (Suc n) bs = (case bs of
     off # len # rest \<Rightarrow> (case get_string rest of (h, tail) \<Rightarrow>
       \<lparr>pc_hash = h, pc_offset = ucast off, pc_length = ucast len\<rparr> # get_chunks n tail)
   | _ \<Rightarrow> [])"

definition demo_dec_pack :: "bytes \<Rightarrow> string + pack_index" where
  "demo_dec_pack bs = (case get_string bs of (i, rest) \<Rightarrow>
     Inr \<lparr>pi_pack_id = i, pi_chunks = get_chunks (length rest) rest\<rparr>)"

definition demo_log_env :: "string \<Rightarrow> (folder, log_store, ustr) log_env" where
  "demo_log_env c =
     \<lparr>log_client = c, log_crypto = demo_crypto\<lparr>blake3_hex := demo_hash\<rparr>, log_yrs = demo_yrs,
      log_cdc = demo_cdc, log_clock = (\<lambda>_. 0), log_seeds = (\<lambda>_. 0), log_policy = KeepBoth,
      log_json = demo_log_codec, enc_persisted = (\<lambda>_. []), enc_pack = demo_enc_pack, dec_pack = demo_dec_pack,
      zstd_encode = Inr, zstd_decode = Inr, log_rem = folder_log demo_log_codec, log_sto = redb_log\<rparr>"

definition demo_engine :: "folder \<Rightarrow> (folder, log_store, ustr) engine" where
  "demo_engine f = engine_new f (log_open None)"

end
