(* ===== verification/Log_Folder.thy ===== *)
theory Log_Folder
  imports Log_Remote
begin

text \<open>
  What the v1 folder guarantees about the log: a folder in good order stays so, and every operation but
  the unconditional \<^verbatim>\<open>put_oplog\<close> and the deletions only ever adds log objects, under sequence numbers that
  nobody had claimed.
\<close>

section \<open>Paths\<close>

definition plain_name :: "string \<Rightarrow> bool" where
  "plain_name s \<longleftrightarrow> s \<noteq> [] \<and> s \<noteq> ''.'' \<and> CHR ''/'' \<notin> set s"

lemma split_on_plain: "c \<notin> set s \<Longrightarrow> split_on c s = [s]"
  by (induction s) auto

lemma split_path_plain: "plain_name s \<Longrightarrow> split_path s = [s]"
  by (simp add: plain_name_def split_path_def split_on_plain)

lemma oplog_name_plain: "CHR ''/'' \<notin> set client \<Longrightarrow> plain_name (format_oplog_name s client)"
proof -
  assume c: "CHR ''/'' \<notin> set client"
  have "CHR ''/'' \<notin> set (decimal n)" for n using decimal_chars by blast
  with c have "CHR ''/'' \<notin> set (format_oplog_name s client)"
    by (simp add: format_oplog_name_def OPLOG_EXT_def)
  moreover have "CHR ''_'' \<in> set (format_oplog_name s client)" by (simp add: format_oplog_name_def)
  ultimately show ?thesis by (auto simp: plain_name_def)
qed

lemma collect_result_mem: "collect_result f xs = Inr ys \<Longrightarrow> x \<in> set xs \<Longrightarrow> \<exists>y \<in> set ys. f x = Inr y"
  by (induction xs arbitrary: ys) auto

section \<open>Folders in good order\<close>

definition folder_ok :: "folder \<Rightarrow> bool" where
  "folder_ok f \<longleftrightarrow> [] \<in> set (dirs_of f) \<and> (\<forall>p \<in> fst ` set (files_of f). butlast p \<in> set (dirs_of f))"

definition log_object :: "folder \<Rightarrow> string \<Rightarrow> string \<Rightarrow> bytes option" where
  "log_object f file_id name = map_of (files_of f) (oplog_dir file_id @ [name])"

lemma fs_write_simps [simp]:
  "map_of (fs_write p data fs) = (map_of fs)(p \<mapsto> data)"
  "fst ` set (fs_write p data fs) = insert p (fst ` set fs)"
proof -
  have "map_of (filter (\<lambda>f. fst f \<noteq> p) fs) q = (if q = p then None else map_of fs q)" for q
    by (induction fs) auto
  then show "map_of (fs_write p data fs) = (map_of fs)(p \<mapsto> data)" by (simp add: fs_write_def fun_eq_iff)
qed (force simp: fs_write_def image_iff)

lemma create_dir_all_Inr:
  "create_dir_all p f = Inr f' \<Longrightarrow> files_of f' = files_of f \<and> set (dirs_of f) \<subseteq> set (dirs_of f') \<and> p \<in> set (dirs_of f')"
  by (auto simp: create_dir_all_def path_prefixes_def split: if_splits)

lemma create_dir_all_ok: "create_dir_all p f = Inr f' \<Longrightarrow> folder_ok f \<Longrightarrow> folder_ok f'"
  using create_dir_all_Inr [of p f f'] by (auto simp: folder_ok_def)

lemma write_file_Inr:
  "write_file p data f = Inr f' \<Longrightarrow>
     butlast p \<in> set (dirs_of f) \<and> files_of f' = fs_write p data (files_of f) \<and> dirs_of f' = dirs_of f"
  by (auto simp: write_file_def split: if_splits)

lemma write_file_ok: "write_file p data f = Inr f' \<Longrightarrow> folder_ok f \<Longrightarrow> folder_ok f'"
  using write_file_Inr [of p data f f'] by (auto simp: folder_ok_def)

lemma log_object_listed:
  assumes "folder_ok f" and "list_oplogs_in file_id f = Inr items" and "log_object f file_id name \<noteq> None"
    and "parse_oplog_name name = Inr (s, c)"
  shows "s \<in> li_sequence ` set items"
proof -
  let ?p = "oplog_dir file_id @ [name]"
  have p: "?p \<in> fst ` set (files_of f)"
    using assms(3) by (force simp: log_object_def dest: map_of_SomeD)
  then have dir: "oplog_dir file_id \<in> set (dirs_of f)" using assms(1) by (force simp: folder_ok_def)
  with assms(2) obtain names where names: "read_dir (oplog_dir file_id) f = Inr names"
    "collect_result log_item (filter (\<lambda>n. strip_suffix (''.'' @ OPLOG_EXT) n \<noteq> None) names) = Inr items"
    by (auto simp: list_oplogs_in_def list_dir_names_def path_exists_def)
  have "name \<in> set names" using p dir names(1) by (force simp: read_dir_def image_iff)
  moreover have "strip_suffix (''.'' @ OPLOG_EXT) name \<noteq> None"
    using assms(4) by (auto simp: parse_oplog_name_def)
  ultimately have "name \<in> set (filter (\<lambda>n. strip_suffix (''.'' @ OPLOG_EXT) n \<noteq> None) names)" by simp
  then obtain item where "item \<in> set items" "log_item name = Inr item"
    using collect_result_mem [OF names(2)] by blast
  then show ?thesis using assms(4) by (force simp: log_item_def)
qed

section \<open>The log only grows\<close>

text \<open>\<open>log_grows f f'\<close>: every log object of \<open>f\<close> is in \<open>f'\<close> with its bytes, and a log object that is new in
  \<open>f'\<close> has a sequence number that no object of that file had.\<close>

definition log_grows :: "folder \<Rightarrow> folder \<Rightarrow> bool" where
  "log_grows f f' \<longleftrightarrow> (\<forall>file_id name.
     (\<forall>data. log_object f file_id name = Some data \<longrightarrow> log_object f' file_id name = Some data)
     \<and> (\<forall>s c name' c'. log_object f file_id name = None \<and> log_object f' file_id name \<noteq> None
          \<and> parse_oplog_name name = Inr (s, c) \<and> log_object f file_id name' \<noteq> None
          \<longrightarrow> parse_oplog_name name' \<noteq> Inr (s, c')))"

definition keeps_log :: "folder \<Rightarrow> folder \<Rightarrow> bool" where
  "keeps_log f f' \<longleftrightarrow> (folder_ok f \<longrightarrow> folder_ok f' \<and> log_grows f f')"

lemma log_grows_same: "log_object f' = log_object f \<Longrightarrow> log_grows f f'"
  by (auto simp: log_grows_def)

lemma log_grows_trans:
  assumes "log_grows a b" and "log_grows b c"
  shows "log_grows a c"
  unfolding log_grows_def
proof (intro allI conjI impI)
  fix file_id name data
  assume "log_object a file_id name = Some data"
  with assms show "log_object c file_id name = Some data" by (simp add: log_grows_def)
next
  fix file_id name s cl name' cl'
  assume n: "log_object a file_id name = None \<and> log_object c file_id name \<noteq> None
    \<and> parse_oplog_name name = Inr (s, cl) \<and> log_object a file_id name' \<noteq> None"
  then have "log_object b file_id name' \<noteq> None" using assms(1) by (fastforce simp: log_grows_def)
  with n assms show "parse_oplog_name name' \<noteq> Inr (s, cl')"
    unfolding log_grows_def by (cases "log_object b file_id name = None") blast+
qed

lemma keeps_log_preorder: "preorder_rel keeps_log"
  by (rule preorder_relI) (auto simp: keeps_log_def log_grows_same intro: log_grows_trans)

lemma steps_reading: "steps keeps_log (reading m)"
  by (simp add: steps_def reading_def preorder_rel_refl [OF keeps_log_preorder])

lemma steps_create_dir: "steps keeps_log (updating (create_dir_all p))"
  by (auto simp: steps_def updating_def keeps_log_def log_grows_same log_object_def fun_eq_iff
      dest: create_dir_all_ok create_dir_all_Inr split: sum.split)

text \<open>A write outside the log directories.\<close>

definition off_log :: "path \<Rightarrow> bool" where
  "off_log p \<longleftrightarrow> (\<forall>file_id. butlast p \<noteq> oplog_dir file_id)"

lemma off_logI: "last (butlast p) \<noteq> ''oplogs'' \<Longrightarrow> off_log p"
  by (auto simp: off_log_def oplog_dir_def)

lemma log_object_off_log: "off_log p \<Longrightarrow> files_of f' = fs_write p data (files_of f) \<Longrightarrow> log_object f' = log_object f"
  by (auto simp: log_object_def fun_eq_iff off_log_def)

lemma steps_write_off_log: "off_log p \<Longrightarrow> steps keeps_log (updating (write_file p data))"
  by (auto simp: steps_def updating_def keeps_log_def dest: write_file_ok write_file_Inr
      split: sum.split intro!: log_grows_same log_object_off_log)

lemma steps_write_addressed:
  assumes "off_log (dir @ split_path name)"
  shows "steps keeps_log (write_addressed dir name data)"
proof -
  have "updating (\<lambda>f. if path_exists (dir @ split_path name) f then Inr f else write_file (dir @ split_path name) data f) f
      = (if path_exists (dir @ split_path name) f then (Inr (), f) else updating (write_file (dir @ split_path name) data) f)" for f
    by (simp add: updating_def)
  with steps_write_off_log [OF assms, of data]
  have "steps keeps_log (updating (\<lambda>f. if path_exists (dir @ split_path name) f then Inr f
      else write_file (dir @ split_path name) data f))"
    by (simp add: steps_def preorder_rel_refl [OF keeps_log_preorder])
  then show ?thesis unfolding write_addressed_def
    by (intro steps_seq steps_create_dir keeps_log_preorder)
qed

lemma steps_put_oplog_cas:
  assumes client: "oe_client entry \<noteq> []" "CHR ''/'' \<notin> set (oe_client entry)"
  shows "steps keeps_log (log_put_oplog_cas cd file_id entry)"
  unfolding steps_def
proof
  fix f
  let ?s = "oe_sequence entry" let ?dir = "oplog_dir file_id"
  let ?name = "format_oplog_name ?s (oe_client entry)"
  show "keeps_log f (snd (log_put_oplog_cas cd file_id entry f))"
  proof (cases "list_oplogs_in file_id f")
    case (Inl e)
    then show ?thesis
      by (simp add: log_put_oplog_cas_def bind_apply log_list_oplogs_def reading_def preorder_rel_refl [OF keeps_log_preorder])
  next
    case (Inr items)
    show ?thesis
    proof (cases "?s \<in> li_sequence ` set items")
      case True
      with Inr show ?thesis
        by (auto simp: log_put_oplog_cas_def bind_apply log_list_oplogs_def reading_def list_ex_iff
            preorder_rel_refl [OF keeps_log_preorder])
    next
      case False
      then have run: "log_put_oplog_cas cd file_id entry f = write_oplog cd file_id entry f"
        using Inr by (simp add: log_put_oplog_cas_def bind_apply log_list_oplogs_def reading_def list_ex_iff image_iff)
          (use False in \<open>force simp: image_iff\<close>)
      have path: "split_path ?name = [?name]" by (rule split_path_plain [OF oplog_name_plain [OF client(2)]])
      have parse: "parse_oplog_name ?name = Inr (?s, oe_client entry)" by (rule oplog_name_parses [OF client(1)])
      show ?thesis unfolding keeps_log_def
      proof
        assume ok: "folder_ok f"
        note unclaimed = log_object_listed [OF ok Inr]
        show "folder_ok (snd (log_put_oplog_cas cd file_id entry f)) \<and> log_grows f (snd (log_put_oplog_cas cd file_id entry f))"
        proof (cases "create_dir_all ?dir f")
          case (Inl e)
          with ok show ?thesis
            by (simp add: run write_oplog_def Let_def seq_def bind_apply updating_def log_grows_same)
        next
          case (Inr g)
          note g = create_dir_all_ok [OF Inr ok] create_dir_all_Inr [OF Inr]
          have same: "log_object g = log_object f" by (simp add: log_object_def g fun_eq_iff)
          show ?thesis
          proof (cases "write_file (?dir @ [?name]) (enc_entry cd entry) g")
            case (Inl e)
            with g(1) show ?thesis
              by (simp add: run write_oplog_def Let_def seq_def bind_apply updating_def path \<open>create_dir_all ?dir f = Inr g\<close> log_grows_same same)
          next
            case (Inr h)
            then have h: "snd (write_oplog cd file_id entry f) = h"
              by (simp add: write_oplog_def Let_def seq_def bind_apply updating_def path \<open>create_dir_all ?dir f = Inr g\<close>)
            have obj: "log_object h fid n = (if oplog_dir fid = ?dir \<and> n = ?name then Some (enc_entry cd entry) else log_object f fid n)" for fid n
              using write_file_Inr [OF Inr] g(2) by (auto simp: log_object_def)
            have dirs: "log_object f fid = log_object f file_id" if "oplog_dir fid = ?dir" for fid
              using that by (simp add: log_object_def fun_eq_iff)
            have "log_grows f h" unfolding log_grows_def
              using unclaimed parse False by (auto simp: obj split: if_splits dest!: dirs) (metis imageI)+
            with write_file_ok [OF Inr g(1)] show ?thesis by (simp add: run h)
          qed
        qed
      qed
    qed
  qed
qed

end
