(* ===== verification/Log_History.thy ===== *)
theory Log_History
  imports Log_Backends Log_Folder
begin

text \<open>
  History is append-only. The contract \<open>append_log\<close> is what an engine that never truncates needs of its
  remote for that; the v1 folder provides it, and the edits, \<^verbatim>\<open>sync\<close> and \<^verbatim>\<open>rollback\<close> are shown to do
  nothing to the remote but such steps.
\<close>

section \<open>The contract\<close>

definition on_log :: "('r \<Rightarrow> 'r \<Rightarrow> bool) \<Rightarrow> ('r, 'k, 'd) engine \<Rightarrow> ('r, 'k, 'd) engine \<Rightarrow> bool" where
  "on_log R w w' \<longleftrightarrow> R (remote w) (remote w')"

lemma preorder_on_log: "preorder_rel R \<Longrightarrow> preorder_rel (on_log R)"
  by (rule preorder_relI) (auto simp: on_log_def intro: preorder_rel_refl preorder_rel_trans)

lemma build_packs_ids: "(i, b, index) \<in> set (build_packs cr chunks) \<Longrightarrow> i = blake3_hex cr b"
proof -
  let ?ids = "\<lambda>packs. \<forall>p \<in> set packs. fst p = blake3_hex cr (fst (snd p))"
  have step: "?ids (fst st) \<Longrightarrow> ?ids (fst (pack_step cr st x))" for st x
    by (cases st; cases x) (auto simp: seal_pack_def Let_def)
  have "?ids (fst (foldl (pack_step cr) ([], {}, [], []) xs))" for xs
    by (induction xs rule: rev_induct) (use step in auto)
  moreover assume "(i, b, index) \<in> set (build_packs cr chunks)"
  ultimately show ?thesis
    by (cases "foldl (pack_step cr) ([], {}, [], []) chunks")
      (auto simp: build_packs_def seal_pack_def Let_def split: if_splits dest!: meta_spec [of _ chunks] dest: bspec)
qed

text \<open>An engine with this remote and client, whose pack ids the remote accepts.\<close>

definition env_on ::
  "'r log_remote \<Rightarrow> (string \<Rightarrow> bool) \<Rightarrow> (string \<Rightarrow> bool) \<Rightarrow> ('r, 'k, 'd) log_env \<Rightarrow> bool" where
  "env_on R client_ok ok E \<longleftrightarrow> log_rem E = R \<and> client_ok (log_client E) \<and> (\<forall>b. ok (blake3_hex (log_crypto E) b))"

lemma bind_make_entry:
  "bind (make_entry E change s) k = bind (log_now E) (\<lambda>t.
     k \<lparr>oe_sequence = s, oe_client = log_client E, oe_timestamp = t, oe_change = change\<rparr>)"
  by (simp add: make_entry_def bind_def fun_eq_iff split: prod.splits sum.splits)

locale append_log =
  fixes R :: "'r log_remote" and grows :: "'r \<Rightarrow> 'r \<Rightarrow> bool" and client_ok :: "string \<Rightarrow> bool" and pack_ok :: "string \<Rightarrow> bool"
  assumes order: "preorder_rel grows"
    and lists: "steps grows (lg_list_oplogs R f)" "steps grows (lg_list_indexes R)" "steps grows (lg_list_baselines R f)"
    and reads: "steps grows (lg_get_oplog R f p)" "steps grows (lg_get_index R i)" "steps grows (lg_get_baseline R f s)"
    and cas: "client_ok (oe_client e) \<Longrightarrow> steps grows (lg_put_cas R f e)"
    and packs: "pack_ok i \<Longrightarrow> steps grows (lg_put_pack R i data)" "pack_ok i \<Longrightarrow> steps grows (lg_put_index R i data)"
    and status: "client_ok c \<Longrightarrow> steps grows (lg_put_status R c s)"
begin

lemma at_remote_steps: "steps grows m \<Longrightarrow> steps (on_log grows) (at_remote m)"
  by (simp add: steps_def on_log_def at_remote_def zoom_def case_prod_unfold)

lemma local_steps:
  "steps (on_log grows) (at_store m)" "steps (on_log grows) (set_file f file)"
  "steps (on_log grows) (notify n)" "steps (on_log grows) (log_error msg)"
  "steps (on_log grows) (modify (\<lambda>w. w\<lparr>readings := Suc (readings w)\<rparr>))"
  by (simp_all add: steps_def on_log_def at_store_def zoom_def set_file_def notify_def log_error_def
      case_prod_unfold preorder_rel_refl [OF order])

lemmas append_rules = step_rules at_remote_steps local_steps preorder_on_log [OF order]

lemma with_file_steps: "(\<And>file. steps (on_log grows) (k file)) \<Longrightarrow> steps (on_log grows) (with_file f k)"
  by (auto intro!: append_rules simp: with_file_def)

lemma small_steps:
  "steps (on_log grows) (log_now E)" "steps (on_log grows) (new_doc E)" "steps (on_log grows) (track_text E f)"
  "steps (on_log grows) (track_binary f)" "steps (on_log grows) (set_state f st)"
  "steps (on_log grows) (require_binary f)" "steps (on_log grows) (persist_current E f e)"
  "steps (on_log grows) (persist_file E f file c)"
  by (auto intro!: append_rules with_file_steps simp: log_now_def new_doc_def track_text_def track_binary_def
      set_state_def require_binary_def persist_current_def persist_file_def Let_def split: file_state.splits)

lemma env_steps:
  assumes "env_on R client_ok pack_ok E"
  shows "steps grows (lg_list_oplogs (log_rem E) f)" "steps grows (lg_list_indexes (log_rem E))"
    "steps grows (lg_list_baselines (log_rem E) f)" "steps grows (lg_get_oplog (log_rem E) f p)"
    "steps grows (lg_get_index (log_rem E) i)" "steps grows (lg_get_baseline (log_rem E) f s)"
    "steps grows (lg_put_pack (log_rem E) (blake3_hex (log_crypto E) b) data)"
    "steps grows (lg_put_index (log_rem E) (blake3_hex (log_crypto E) b) data)"
    "steps grows (lg_put_status (log_rem E) (log_client E) s)"
    "oe_client e = log_client E \<Longrightarrow> steps grows (lg_put_cas (log_rem E) f e)"
  using assms lists reads packs status cas by (auto simp: env_on_def)

lemma load_steps:
  assumes "env_on R client_ok pack_ok E"
  shows "steps (on_log grows) (load_entries_caching E f)" and "steps (on_log grows) (load_entries E f)"
    and "steps (on_log grows) (load_baseline E f)" and "steps (on_log grows) (build_text E f entries)"
    and "steps (on_log grows) (load_pack_index E)"
  using assms
  by (auto intro!: append_rules small_steps env_steps simp: load_entries_caching_def load_entries_def load_step_def
      entry_bytes_def load_baseline_def baseline_at_def build_text_def load_all_baselines_def load_pack_index_def
      read_pack_index_def Let_def)

lemma integrate_steps: "env_on R client_ok pack_ok E \<Longrightarrow> steps (on_log grows) (integrate_remote E f)"
  by (auto intro!: append_rules with_file_steps load_steps simp: integrate_remote_def split: file_state.splits)

lemma publish_from_steps:
  assumes "env_on R client_ok pack_ok E"
  shows "steps (on_log grows) (publish_from E f change n)"
proof (induction n)
  case (Suc n)
  then show ?case unfolding publish_from.simps bind_make_entry using assms
    by (auto intro!: append_rules with_file_steps small_steps integrate_steps env_steps
        split: sync_error.splits)
qed (simp only: publish_from.simps steps_throw preorder_on_log [OF order])

lemma publish_steps: "env_on R client_ok pack_ok E \<Longrightarrow> steps (on_log grows) (publish_with_retry E f change)"
  unfolding publish_with_retry_def by (rule publish_from_steps)

lemma put_status_steps: "env_on R client_ok pack_ok E \<Longrightarrow> steps (on_log grows) (put_status_at_head E f)"
  by (auto intro!: append_rules with_file_steps env_steps simp: put_status_at_head_def)

lemma publish_binary_steps: "env_on R client_ok pack_ok E \<Longrightarrow> steps (on_log grows) (publish_binary E f change state)"
  by (auto intro!: append_rules small_steps publish_steps put_status_steps simp: publish_binary_def)

lemma upload_packs_steps: "env_on R client_ok pack_ok E \<Longrightarrow> steps (on_log grows) (upload_packs E chunks)"
  by (auto intro!: append_rules load_steps env_steps simp: upload_packs_def put_packs_def dest!: build_packs_ids)

lemma modify_text_steps: "env_on R client_ok pack_ok E \<Longrightarrow> steps (on_log grows) (modify_text E f t)"
  by (auto intro!: append_rules with_file_steps small_steps publish_steps put_status_steps simp: modify_text_def
      split: file_state.splits prod.splits)

lemma modify_binary_steps: "env_on R client_ok pack_ok E \<Longrightarrow> steps (on_log grows) (modify_binary E f data)"
  by (auto intro!: append_rules small_steps publish_binary_steps upload_packs_steps simp: modify_binary_def Let_def)

lemma modify_binaries_steps: "env_on R client_ok pack_ok E \<Longrightarrow> steps (on_log grows) (modify_binaries E ms)"
  by (auto intro!: append_rules small_steps publish_binary_steps upload_packs_steps simp: modify_binaries_def
      modify_prepared_def Let_def)

lemma delete_binary_steps: "env_on R client_ok pack_ok E \<Longrightarrow> steps (on_log grows) (delete_binary E f)"
  by (auto intro!: append_rules small_steps with_file_steps publish_binary_steps simp: delete_binary_def
      split: file_state.splits)

lemma convergence_steps: "env_on R client_ok pack_ok E \<Longrightarrow> steps (on_log grows) (publish_convergence E f t)"
  by (auto intro!: append_rules small_steps publish_steps put_status_steps simp: publish_convergence_def Let_def)

lemma sync_body_steps: "env_on R client_ok pack_ok E \<Longrightarrow> steps (on_log grows) (sync_body E f)"
  by (auto intro!: append_rules small_steps load_steps convergence_steps env_steps simp: sync_body_def load_converged_def Let_def)

lemma sync_steps:
  fixes E :: "('r, 'k, 'd) log_env"
  shows "env_on R client_ok pack_ok E \<Longrightarrow> steps (on_log grows) (engine_sync E f)"
proof -
  assume "env_on R client_ok pack_ok E"
  then have "grows (remote w) (remote (snd (sync_body E f w)))" for w :: "('r, 'k, 'd) engine"
    using sync_body_steps [of E f] by (simp add: steps_def on_log_def)
  from this [of "w\<lparr>in_flight := insert f (in_flight w)\<rparr>" for w]
  have "steps (on_log grows) (guarded_sync f (sync_body E f))"
    by (simp add: steps_def guarded_sync_def on_log_def case_prod_unfold)
  then show ?thesis by (auto intro!: append_rules simp: engine_sync_def)
qed

lemma rollback_steps: "env_on R client_ok pack_ok E \<Longrightarrow> steps (on_log grows) (engine_rollback E f k)"
  by (auto intro!: append_rules small_steps load_steps with_file_steps integrate_steps publish_steps env_steps
      simp: engine_rollback_def rollback_text_def rollback_binary_def text_at_def Let_def
      split: file_state.splits prod.splits)

end

section \<open>The folder keeps its history\<close>

definition plain_client :: "string \<Rightarrow> bool" where
  "plain_client c \<longleftrightarrow> c \<noteq> [] \<and> CHR ''/'' \<notin> set c"

lemma folder_put_status: "plain_client c \<Longrightarrow> steps keeps_log (log_put_status cd c s)"
proof -
  assume "plain_client c"
  then have "plain_name (c @ ''.status'')" by (auto simp: plain_client_def plain_name_def Cons_eq_append_conv)
  then have "off_log (status_dir @ split_path (c @ ''.status''))"
    by (intro off_logI) (simp add: split_path_plain status_dir_def)
  then show ?thesis unfolding log_put_status_def
    by (intro steps_seq keeps_log_preorder steps_create_dir steps_write_off_log)
qed

lemma folder_put_packs:
  assumes "plain_name i"
  shows "steps keeps_log (log_put_pack i data)" and "steps keeps_log (log_put_pack_index i data)"
  using split_path_plain [OF assms]
  by (auto simp: log_put_pack_def log_put_pack_index_def pack_dir_def pack_index_dir_def
      intro!: steps_write_addressed off_logI)

interpretation folder_history: append_log "folder_log cd" keeps_log plain_client plain_name for cd
  by unfold_locales
    (simp_all add: keeps_log_preorder steps_reading log_list_oplogs_def log_list_pack_indexes_def
      log_list_baselines_def log_get_oplog_def log_get_pack_index_def log_get_baseline_def folder_put_packs
      folder_put_status steps_put_oplog_cas plain_client_def)

definition appended :: "(folder, 'k, 'd) engine \<Rightarrow> (sync_error + 'a) \<times> (folder, 'k, 'd) engine \<Rightarrow> bool" where
  "appended w r \<longleftrightarrow> folder_ok (remote (snd r)) \<and> log_grows (remote w) (remote (snd r))"

lemma appendedI: "steps (on_log keeps_log) m \<Longrightarrow> folder_ok (remote w) \<Longrightarrow> appended w (m w)"
  by (simp add: steps_def on_log_def keeps_log_def appended_def)

text \<open>C25. History is append-only: over the repository's folder no edit, deletion, \<^verbatim>\<open>sync\<close> or \<^verbatim>\<open>rollback\<close>
  changes or removes a log object, and every entry it publishes has a sequence number that no entry of
  that file had, whether the method succeeds or fails.\<close>

theorem history_is_append_only:
  assumes "log_rem E = folder_log cd" and "plain_client (log_client E)"
    and "\<forall>b. plain_name (blake3_hex (log_crypto E) b)" and "folder_ok (remote w)"
  shows "appended w (modify_text E f t w) \<and> appended w (modify_binary E f data w)
    \<and> appended w (modify_binaries E ms w) \<and> appended w (delete_binary E f w)
    \<and> appended w (engine_sync E f w) \<and> appended w (engine_rollback E f k w)"
proof -
  have env: "env_on (folder_log cd) plain_client plain_name E"
    using assms(1-3) by (simp add: env_on_def)
  show ?thesis
    by (intro conjI appendedI [OF _ assms(4)] folder_history.modify_text_steps [OF env]
        folder_history.modify_binary_steps [OF env] folder_history.modify_binaries_steps [OF env]
        folder_history.delete_binary_steps [OF env] folder_history.sync_steps [OF env]
        folder_history.rollback_steps [OF env])
qed

lemma demo_hash_plain: "plain_name (demo_hash b)"
proof -
  have "CHR ''/'' \<notin> set (decimal n)" for n using decimal_chars by blast
  then have "CHR ''/'' \<notin> set (demo_hash b)" by (auto simp: demo_hash_def)
  then show ?thesis by (auto simp: plain_name_def demo_hash_def)
qed

theorem history_is_append_only_witness:
  "appended (demo_engine open_folder) (modify_text (demo_log_env ''a'') ''f'' [120] (demo_engine open_folder))"
proof -
  have "log_rem (demo_log_env ''a'') = folder_log demo_log_codec" "plain_client (log_client (demo_log_env ''a''))"
    "\<forall>b. plain_name (blake3_hex (log_crypto (demo_log_env ''a'')) b)" "folder_ok (remote (demo_engine open_folder))"
    by (simp_all add: demo_log_env_def plain_client_def demo_hash_plain demo_engine_def engine_new_def open_folder_def
        folder_ok_def)
  from history_is_append_only [OF this, of "''f''" "[120]"] show ?thesis by blast
qed

end
