(* ===== verification/Log_Cache.thy ===== *)
theory Log_Cache
  imports Log_History
begin

text \<open>
  Reading the log through the cache. \<open>log_entries\<close> is what the log says: every object of the listing,
  read from the folder and parsed, in the order of sequence and client. The engine reads the bytes of an
  unforked sequence from its cache when it has them; this is the same as long as the cache is faithful.
\<close>

section \<open>What the log says\<close>

definition entry_path :: "string \<Rightarrow> remote_log_item \<Rightarrow> path" where
  "entry_path file_id item = oplog_dir file_id @ split_path (li_path item)"

definition read_entry :: "log_codec \<Rightarrow> string \<Rightarrow> folder \<Rightarrow> remote_log_item \<Rightarrow> sync_error + op_log_entry" where
  "read_entry cd file_id f item =
     bind_result (read_file (entry_path file_id item) f) (parse_with (dec_entry cd))"

definition log_entries :: "log_codec \<Rightarrow> string \<Rightarrow> folder \<Rightarrow> sync_error + op_log_entry list" where
  "log_entries cd file_id f =
     bind_result (list_oplogs_in file_id f) (\<lambda>items. collect_result (read_entry cd file_id f) (sort_items items))"

definition faithful_cache :: "log_tables \<Rightarrow> string \<Rightarrow> folder \<Rightarrow> bool" where
  "faithful_cache db file_id f \<longleftrightarrow> (\<forall>items. list_oplogs_in file_id f = Inr items \<longrightarrow>
     (\<forall>i \<in> set items. \<forall>b. cached_log db file_id (li_sequence i) = Some b
        \<and> li_sequence i \<notin> set (forked_sequences (sort_items items)) \<longrightarrow> read_file (entry_path file_id i) f = Inr b))"

section \<open>The cached rows\<close>

lemma map_of_rows:
  assumes "\<forall>r \<in> set rows. fst (fst r) = f"
  shows "map_of (map (\<lambda>((_, s), d). (s, d)) rows) s = map_of rows (f, s)"
  using assms by (induction rows) auto

lemma cached_listing:
  assumes "log_db k = Some db" and "bt_ok (OPLOG db)"
  obtains es where "log_cached_oplogs f k = (Inr es, k)"
    and "hm_collect (map (\<lambda>e. (ce_sequence e, ce_data e)) es) = cached_log db f"
proof -
  let ?rows = "cached_rows f (- 1) db"
  let ?es = "map (\<lambda>((_, s), data). \<lparr>ce_sequence = s, ce_data = data\<rparr>) ?rows"
  let ?ps = "map (\<lambda>((_, s), d). (s, d)) ?rows"
  have rows: "\<forall>r \<in> set ?rows. fst (fst r) = f" by (auto dest: cached_rows_keys)
  have "bt_ok ?rows" using assms(2) by (simp add: cached_rows_def)
  then have "distinct (map fst ?rows)" by (rule bt_ok_distinct)
  moreover have "map fst ?rows = map (\<lambda>s. (f, s)) (map fst ?ps)" using rows by auto
  ultimately have d: "distinct (map fst ?ps)" by (metis distinct_map)
  have ps: "map (\<lambda>e. (ce_sequence e, ce_data e)) ?es = ?ps" by auto
  have "map_of (rev ?ps) = map_of ?ps" using d by (intro map_of_inject_set [THEN iffD2]) (auto simp: rev_map [symmetric])
  then have "hm_collect (map (\<lambda>e. (ce_sequence e, ce_data e)) ?es) = cached_log db f"
    unfolding hm_collect_def ps using map_of_rows [OF rows]
    by (auto simp: fun_eq_iff cached_log_def map_of_cached_rows)
  moreover have "log_cached_oplogs f k = (Inr ?es, k)"
    using assms(1) by (simp add: log_cached_oplogs_def log_with_db_def)
  ultimately show ?thesis by (rule that [rotated])
qed

section \<open>Loading\<close>

definition served :: "(u64 \<Rightarrow> bytes option) \<Rightarrow> u64 set \<Rightarrow> string \<Rightarrow> folder \<Rightarrow> remote_log_item \<Rightarrow> bool" where
  "served cached forked file_id f i \<longleftrightarrow> (\<forall>b. cached (li_sequence i) = Some b \<and> li_sequence i \<notin> forked
     \<longrightarrow> read_file (entry_path file_id i) f = Inr b)"

lemma at_remote_reading:
  "at_remote (reading m) w = (m (remote w), w)"
  by (simp add: at_remote_def zoom_def reading_def)

lemma entry_bytes_folder:
  assumes "log_rem E = folder_log cd" and "served cached forked file_id (remote w) i"
  shows "\<exists>new. entry_bytes E file_id forked cached i w =
    (bind_result (read_file (entry_path file_id i) (remote w)) (\<lambda>b. Inr (b, new)), w)"
proof (cases "li_sequence i \<in> forked \<or> cached (li_sequence i) = None")
  case True
  then show ?thesis
    by (auto simp: entry_bytes_def assms(1) log_get_oplog_def at_remote_reading bind_apply entry_path_def
        bind_result_def split: sum.splits)
next
  case False
  then obtain b where b: "cached (li_sequence i) = Some b" "li_sequence i \<notin> forked" by auto
  with assms(2) have "read_file (entry_path file_id i) (remote w) = Inr b" by (simp add: served_def)
  with b show ?thesis by (simp add: entry_bytes_def)
qed

lemma load_step_folder:
  assumes "log_rem E = folder_log cd" and "served cached forked file_id (remote w) i"
  shows "(case read_entry (log_json E) file_id (remote w) i of
      Inl e \<Rightarrow> load_step E file_id forked cached acc i w = (Inl e, w)
    | Inr entry \<Rightarrow> \<exists>new. load_step E file_id forked cached acc i w = (Inr (fst acc @ [entry], new), w))"
proof -
  from entry_bytes_folder [OF assms] obtain new where new: "entry_bytes E file_id forked cached i w =
    (bind_result (read_file (entry_path file_id i) (remote w)) (\<lambda>b. Inr (b, new)), w)" by blast
  show ?thesis
    by (simp add: load_step_def bind_apply new read_entry_def bind_result_def parse_with_def split: sum.splits)
qed

lemma load_loop_folder:
  assumes "log_rem E = folder_log cd" and "\<forall>i \<in> set items. served cached forked file_id (remote w) i"
  shows "(case collect_result (read_entry (log_json E) file_id (remote w)) items of
      Inl e \<Rightarrow> fold_m (load_step E file_id forked cached) acc items w = (Inl e, w)
    | Inr entries \<Rightarrow> \<exists>new. fold_m (load_step E file_id forked cached) acc items w = (Inr (fst acc @ entries, new), w))"
  using assms(2)
proof (induction items arbitrary: acc)
  case (Cons i items)
  have i: "served cached forked file_id (remote w) i" using Cons.prems by simp
  show ?case
  proof (cases "read_entry (log_json E) file_id (remote w) i")
    case (Inl e)
    with load_step_folder [OF assms(1) i, of acc] show ?thesis by (simp add: bind_apply)
  next
    case (Inr entry)
    with load_step_folder [OF assms(1) i, of acc] obtain new
      where step: "load_step E file_id forked cached acc i w = (Inr (fst acc @ [entry], new), w)" by auto
    have "\<forall>i \<in> set items. served cached forked file_id (remote w) i" using Cons.prems by simp
    from Cons.IH [OF this, of "(fst acc @ [entry], new)"] show ?thesis
      by (simp add: bind_apply step Inr bind_result_def split: sum.splits)
  qed
qed (simp, metis prod.collapse)

lemma load_entries_folder:
  assumes "log_rem E = folder_log cd" and "log_sto E = redb_log" and "log_db (store w) = Some db"
    and "bt_ok (OPLOG db)" and "faithful_cache db file_id (remote w)"
  shows "load_entries E file_id w = (log_entries (log_json E) file_id (remote w), w)"
proof (cases "list_oplogs_in file_id (remote w)")
  case (Inl e)
  with assms(1) show ?thesis
    by (simp add: load_entries_def load_entries_caching_def bind_apply log_list_oplogs_def
        at_remote_reading log_entries_def)
next
  case (Inr items)
  let ?items = "sort_items items"
  from cached_listing [OF assms(3,4)] obtain es where es: "log_cached_oplogs file_id (store w) = (Inr es, store w)"
    "hm_collect (map (\<lambda>e. (ce_sequence e, ce_data e)) es) = cached_log db file_id" .
  have "\<forall>i \<in> set ?items. served (cached_log db file_id) (set (forked_sequences ?items)) file_id (remote w) i"
    using assms(5) Inr by (auto simp: faithful_cache_def served_def sort_items_def)
  from load_loop_folder [OF assms(1) this, of "([], [])"] Inr es assms(1,2) show ?thesis
    by (auto simp: load_entries_def load_entries_caching_def bind_apply log_list_oplogs_def
        at_remote_reading log_entries_def at_store_def zoom_def Let_def split: sum.splits)
qed

section \<open>Folders with named entries\<close>

lemma format_ext: "strip_suffix (''.'' @ OPLOG_EXT) (format_oplog_name s c) \<noteq> None"
  by (simp add: format_oplog_name_def strip_suffix_def Let_def)

lemma collect_formatted:
  "\<forall>(s, c) \<in> set ps. plain_client c \<Longrightarrow>
   collect_result log_item (map (\<lambda>(s, c). format_oplog_name s c) ps)
     = Inr (map (\<lambda>(s, c). \<lparr>li_sequence = s, li_client = c, li_path = format_oplog_name s c\<rparr>) ps)"
  by (induction ps) (auto simp: log_item_def oplog_name_parses plain_client_def)

lemma list_formatted:
  assumes "oplog_dir fid \<in> set (dirs_of f)" and "read_dir (oplog_dir fid) f = Inr (map (\<lambda>(s, c). format_oplog_name s c) ps)"
    and "\<forall>(s, c) \<in> set ps. plain_client c"
  shows "list_oplogs_in fid f = Inr (map (\<lambda>(s, c). \<lparr>li_sequence = s, li_client = c, li_path = format_oplog_name s c\<rparr>) ps)"
proof -
  have "filter (\<lambda>n. strip_suffix (''.'' @ OPLOG_EXT) n \<noteq> None) (map (\<lambda>(s, c). format_oplog_name s c) ps)
      = map (\<lambda>(s, c). format_oplog_name s c) ps"
    using format_ext by (simp add: filter_id_conv case_prod_unfold)
  then show ?thesis using assms collect_formatted [OF assms(3)]
    by (simp add: list_oplogs_in_def list_dir_names_def path_exists_def)
qed

definition single_log :: "string \<Rightarrow> u64 \<Rightarrow> string \<Rightarrow> bytes \<Rightarrow> folder" where
  "single_log file_id s c b =
     \<lparr>files_of = [(oplog_dir file_id @ [format_oplog_name s c], b)], dirs_of = path_prefixes (oplog_dir file_id)\<rparr>"

lemma list_single_log:
  assumes "plain_client c"
  shows "list_oplogs_in file_id (single_log file_id s c b)
    = Inr [\<lparr>li_sequence = s, li_client = c, li_path = format_oplog_name s c\<rparr>]"
proof -
  let ?d = "oplog_dir file_id" let ?f = "single_log file_id s c b"
  have in_dirs: "?d \<in> set (dirs_of ?f)" by (auto simp: single_log_def path_prefixes_def)
  have "\<forall>p \<in> set (path_prefixes ?d). \<not> (p \<noteq> [] \<and> butlast p = ?d)"
  proof
    fix p assume "p \<in> set (path_prefixes ?d)"
    then have "length p \<le> length ?d" by (auto simp: path_prefixes_def)
    then show "\<not> (p \<noteq> [] \<and> butlast p = ?d)" by (cases p rule: rev_cases) auto
  qed
  then have "read_dir ?d ?f = Inr [format_oplog_name s c]"
    using in_dirs by (simp add: read_dir_def) (simp add: single_log_def filter_empty_conv)
  with list_formatted [OF in_dirs, of "[(s, c)]"] assms show ?thesis by simp
qed

lemma read_single_log:
  assumes "plain_client c"
  shows "read_file (entry_path file_id \<lparr>li_sequence = s, li_client = c, li_path = format_oplog_name s c\<rparr>) (single_log file_id s c b) = Inr b"
proof -
  have "split_path (format_oplog_name s c) = [format_oplog_name s c]"
    using assms by (intro split_path_plain oplog_name_plain) (simp add: plain_client_def)
  then show ?thesis by (simp add: read_file_def entry_path_def single_log_def)
qed

lemma single_item: "sort_items [i] = [i]" "forked_sequences [i] = []"
  by (simp_all add: sort_items_def forked_sequences_def)

lemma log_entries_single:
  "plain_client c \<Longrightarrow> log_entries cd file_id (single_log file_id s c b) = map_sum id (\<lambda>e. [e]) (parse_with (dec_entry cd) b)"
  by (cases "dec_entry cd b")
    (simp_all add: log_entries_def list_single_log single_item read_entry_def read_single_log bind_result_def parse_with_def)

section \<open>Properties\<close>

text \<open>C34. Reading through the cache equals reading the log: with a faithful cache \<^verbatim>\<open>load_entries\<close> returns
  exactly what the folder says, the parsed objects in order or the same error, and changes nothing.\<close>

theorem cached_load_equals_log:
  assumes "log_rem E = folder_log cd" and "log_sto E = redb_log" and "log_db (store w) = Some db"
    and "bt_ok (OPLOG db)" and "faithful_cache db file_id (remote w)"
  shows "load_entries E file_id w = (log_entries (log_json E) file_id (remote w), w)"
  by (rule load_entries_folder [OF assms])

definition demo_delete :: "string \<Rightarrow> op_log_entry" where
  "demo_delete c = \<lparr>oe_sequence = 1, oe_client = c, oe_timestamp = 0, oe_change = V1Delete\<rparr>"

lemma demo_delete_decodes: "demo_dec_entry (demo_enc_entry (demo_delete ''a'')) = Inr (demo_delete ''a'')"
  "demo_dec_entry (demo_enc_entry (demo_delete ''c'')) = Inr (demo_delete ''c'')"
  by code_simp+

theorem cached_load_equals_log_witness:
  "fst (load_entries (demo_log_env ''a'') ''f'' (demo_engine (single_log ''f'' 1 ''c'' (demo_enc_entry (demo_delete ''c'')))))
     = Inr [demo_delete ''c'']"
proof -
  let ?w = "demo_engine (single_log ''f'' 1 ''c'' (demo_enc_entry (demo_delete ''c'')))"
  have "log_db (store ?w) = Some \<lparr>FILES = [], OPLOG = [], BASELINE_META = [], SYNC_CURSOR = []\<rparr>"
    by (simp add: demo_engine_def engine_new_def log_open_def)
  from cached_load_equals_log [OF _ _ this, of "demo_log_env ''a''" demo_log_codec "''f''"]
  show ?thesis
    by (simp add: demo_log_env_def faithful_cache_def cached_log_def)
      (simp add: demo_engine_def engine_new_def log_entries_single plain_client_def demo_log_codec_def parse_with_def
        demo_delete_decodes)
qed

text \<open>C35. A stale row is served: when a sequence number is used again, after a truncation that emptied the
  log of a binary file, an engine with the old row in its cache reads the old entry although the log holds
  another, which a fresh engine reads. Comments of engine.rs and store.rs call such rows inert.\<close>

theorem stale_row_hides_new_entry:
  assumes "log_rem E = folder_log (log_json E)" and "log_sto E = redb_log" and "plain_client c"
    and "dec_entry (log_json E) old = Inr e1" and "dec_entry (log_json E) new = Inr e2"
    and "cached_log db file_id s = Some old" and "bt_ok (OPLOG db)"
  shows "fst (load_entries E file_id (engine_new (single_log file_id s c new) (log_open (Some db)))) = Inr [e1]
    \<and> fst (load_entries E file_id (engine_new (single_log file_id s c new) (log_open None))) = Inr [e2]"
proof
  let ?w = "engine_new (single_log file_id s c new) (log_open (Some db))"
  have "log_db (log_open (Some db)) = Some db" by (simp add: log_open_def)
  from cached_listing [OF this assms(7), of file_id] obtain es where
    "log_cached_oplogs file_id (log_open (Some db)) = (Inr es, log_open (Some db))"
    "hm_collect (map (\<lambda>e. (ce_sequence e, ce_data e)) es) = cached_log db file_id" .
  then show "fst (load_entries E file_id ?w) = Inr [e1]"
    using assms list_single_log [OF assms(3), of file_id s new]
    by (simp add: load_entries_def load_entries_caching_def bind_apply log_list_oplogs_def at_remote_reading at_store_def
        zoom_def single_item load_step_def entry_bytes_def parse_with_def engine_new_def Let_def)
next
  let ?w = "engine_new (single_log file_id s c new) (log_open None)"
  have "log_db (store ?w) = Some \<lparr>FILES = [], OPLOG = [], BASELINE_META = [], SYNC_CURSOR = []\<rparr>"
    by (simp add: engine_new_def log_open_def)
  from load_entries_folder [OF assms(1,2) this, of file_id] assms(3,5)
  show "fst (load_entries E file_id ?w) = Inr [e2]"
    by (simp add: faithful_cache_def cached_log_def) (simp add: engine_new_def log_entries_single parse_with_def)
qed

theorem stale_row_hides_new_entry_witness:
  "fst (load_entries (demo_log_env ''a'') ''f'' (engine_new (single_log ''f'' 1 ''c'' (demo_enc_entry (demo_delete ''c'')))
      (log_open (Some \<lparr>FILES = [], OPLOG = [((''f'', 1), demo_enc_entry (demo_delete ''a''))],
        BASELINE_META = [], SYNC_CURSOR = []\<rparr>)))) = Inr [demo_delete ''a'']"
  by (rule stale_row_hides_new_entry [THEN conjunct1])
    (simp_all add: demo_log_env_def plain_client_def demo_log_codec_def demo_delete_decodes cached_log_def bt_ok_def)

end
