(* ===== verification/Log_Sync.thy ===== *)
theory Log_Sync
  imports Log_Cache
begin

text \<open>
  What \<^verbatim>\<open>sync\<close> of the v1 engine does. Everything is read and rebuilt before anything is written, so a
  failure up to there changes nothing; and what it rebuilds is a function of the log alone, so two devices
  that sync the same log of a binary file hold the same state. An edit that lost a race does not: the
  text it leaves in memory and in the store misses the edit it has just published.
\<close>

lemma demo_fields:
  "log_rem (demo_log_env c) = folder_log demo_log_codec" "log_sto (demo_log_env c) = redb_log"
  "log_json (demo_log_env c) = demo_log_codec" "log_yrs (demo_log_env c) = demo_yrs" "log_client (demo_log_env c) = c"
  "log_clock (demo_log_env c) = (\<lambda>_. 0)" "log_seeds (demo_log_env c) = (\<lambda>_. 0)" "enc_persisted (demo_log_env c) = (\<lambda>_. [])"
  "log_policy (demo_log_env c) = KeepBoth"
  by (simp_all add: demo_log_env_def)

section \<open>Reading changes nothing\<close>

definition only_read :: "('r, 'k, 'd) engine \<Rightarrow> ('r, 'k, 'd) engine \<Rightarrow> bool" where
  "only_read w w' \<longleftrightarrow> (\<exists>n. w' = w\<lparr>readings := n\<rparr>)"

lemma only_read_preorder: "preorder_rel only_read"
proof (rule preorder_relI)
  show "only_read w w" for w :: "('r, 'k, 'd) engine"
    unfolding only_read_def by (rule exI [of _ "readings w"]) simp
qed (auto simp: only_read_def)

lemma only_read_counter: "steps only_read (modify (\<lambda>w. w\<lparr>readings := Suc (readings w)\<rparr>))"
  by (auto simp: steps_def only_read_def)

lemma only_read_remote: "steps only_read (at_remote (reading m))"
  by (auto simp: steps_def at_remote_reading intro: preorder_rel_refl [OF only_read_preorder])

lemma only_read_rows: "steps only_read (at_store (log_cached_oplogs f))"
proof -
  have "snd (log_cached_oplogs f k) = k" for k
    by (auto simp: log_cached_oplogs_def log_with_db_def split: option.split)
  then show ?thesis
    by (auto simp: steps_def at_store_def zoom_def case_prod_unfold intro: preorder_rel_refl [OF only_read_preorder])
qed

lemmas only_read_rules = step_rules only_read_preorder only_read_counter only_read_remote only_read_rows

lemma load_converged_reads:
  assumes "log_rem E = folder_log cd" and "log_sto E = redb_log"
  shows "steps only_read (load_converged E f)"
  using assms
  by (auto intro!: only_read_rules simp: load_converged_def load_entries_caching_def load_step_def entry_bytes_def
      build_text_def load_all_baselines_def baseline_at_def new_doc_def Let_def log_list_oplogs_def log_get_oplog_def
      log_get_baseline_def log_list_baselines_def)

text \<open>C36. All of a sync's reading comes before its first write: when listing, fetching, decoding or merging
  fails, \<^verbatim>\<open>sync\<close> returns that error and the files in memory, the store, the remote, the notifications and
  the in-flight marks are what they were.\<close>

theorem failed_sync_changes_nothing:
  assumes "log_rem E = folder_log cd" and "log_sto E = redb_log" and "file_id \<notin> in_flight w"
    and "fst (load_converged E file_id (w\<lparr>in_flight := insert file_id (in_flight w)\<rparr>)) = Inl e"
  shows "\<exists>n. engine_sync E file_id w = (Inl e, w\<lparr>readings := n\<rparr>)"
proof -
  let ?v = "w\<lparr>in_flight := insert file_id (in_flight w)\<rparr>"
  obtain n where n: "load_converged E file_id ?v = (Inl e, ?v\<lparr>readings := n\<rparr>)"
    using load_converged_reads [OF assms(1,2), of file_id] assms(4)
    by (auto simp: steps_def only_read_def) (metis prod.collapse)
  then have "sync_body E file_id ?v = (Inl e, ?v\<lparr>readings := n\<rparr>)" by (simp add: sync_body_def bind_apply)
  with assms(3) show ?thesis by (auto simp: engine_sync_def bind_apply guarded_sync_def)
qed

definition broken_log :: folder where
  "broken_log = single_log ''f'' 1 ''c'' []"

theorem failed_sync_changes_nothing_witness:
  "\<exists>n. engine_sync (demo_log_env ''a'') ''f'' (demo_engine broken_log) = (Inl (SerdeError ''empty''), (demo_engine broken_log)\<lparr>readings := n\<rparr>)"
proof (rule failed_sync_changes_nothing)
  let ?w = "(demo_engine broken_log)\<lparr>in_flight := insert ''f'' (in_flight (demo_engine broken_log))\<rparr>"
  have "load_entries (demo_log_env ''a'') ''f'' ?w = (Inl (SerdeError ''empty''), ?w)"
    by (subst load_entries_folder [where cd = demo_log_codec and db = "\<lparr>FILES = [], OPLOG = [], BASELINE_META = [], SYNC_CURSOR = []\<rparr>"])
      (simp_all add: demo_log_env_def demo_engine_def engine_new_def log_open_def faithful_cache_def cached_log_def
        broken_log_def log_entries_single plain_client_def parse_with_def demo_log_codec_def demo_dec_entry_def)
  then show "fst (load_converged (demo_log_env ''a'') ''f'' ?w) = Inl (SerdeError ''empty'')"
    by (auto simp: load_entries_def load_converged_def bind_apply split: prod.splits sum.splits)
qed (simp_all add: demo_log_env_def demo_engine_def engine_new_def)

section \<open>The state is the log's\<close>

lemma load_converged_binary:
  assumes "log_rem E = folder_log cd" and "log_sto E = redb_log" and "log_db (store w) = Some db"
    and "bt_ok (OPLOG db)" and "faithful_cache db f (remote w)" and "log_entries (log_json E) f (remote w) = Inr entries"
    and "entries \<noteq> []" and "\<not> is_text_log entries" and "build_binary (log_policy E) entries = Inr (file, copy)"
  shows "\<exists>fetched. load_converged E f w = (Inr (Some (entries, fetched, file, copy)), w)"
proof -
  from load_entries_folder [OF assms(1-5)] assms(6)
  obtain fetched where "load_entries_caching E f w = (Inr (entries, fetched), w)"
    by (auto simp: load_entries_def bind_apply split: prod.splits sum.splits)
  with assms(7-9) show ?thesis by (simp add: load_converged_def bind_apply)
qed

text \<open>C37. Sync converges: on a binary file whose tip is not forked, with a faithful cache, \<^verbatim>\<open>sync\<close> succeeds
  and what the engine then tracks is the result of replaying the log under its policy, whatever it held
  before; so devices with the same policy that sync the same log hold the same state.\<close>

theorem sync_holds_what_the_log_says:
  assumes "log_rem E = folder_log cd" and "log_sto E = redb_log" and "log_db (store w) = Some db"
    and "bt_ok (OPLOG db)" and "faithful_cache db f (remote w)" and "log_entries (log_json E) f (remote w) = Inr entries"
    and "entries \<noteq> []" and "\<not> is_text_log entries" and "build_binary (log_policy E) entries = Inr (file, copy)"
    and "f \<notin> in_flight w" and "\<not> tip_is_forked entries"
    and "fst (log_put_status cd (log_client E) (tf_head file) (remote w)) = Inr ()"
  shows "\<exists>w'. engine_sync E f w = (Inr (), w') \<and> tracked w' = (tracked w)(f \<mapsto> file) \<and> in_flight w' = in_flight w"
proof -
  let ?v = "w\<lparr>in_flight := insert f (in_flight w)\<rparr>"
  obtain fetched where l: "load_converged E f ?v = (Inr (Some (entries, fetched, file, copy)), ?v)"
    using load_converged_binary [of E cd ?v db f entries] assms(1-9) by auto
  obtain r where r: "log_put_status cd (log_client E) (tf_head file) (remote w) = (Inr (), r)"
    using assms(12) by (metis prod.collapse)
  have "\<exists>w'. sync_body E f ?v = (Inr (), w') \<and> tracked w' = (tracked w)(f \<mapsto> file) \<and> in_flight w' = insert f (in_flight w)"
    using assms(1-3,11) r
    by (auto simp: sync_body_def bind_apply l persist_file_def at_store_def zoom_def log_persist_file_def log_write_def
        log_with_db_def seq_def at_remote_def set_file_def log_cache_oplogs_def notify_def Let_def)
  with assms(10) show ?thesis by (auto simp: engine_sync_def bind_apply guarded_sync_def)
qed

definition deleted_log :: folder where
  "deleted_log = single_log ''f'' 1 ''c'' (demo_enc_entry (demo_delete ''c''))"

theorem sync_holds_what_the_log_says_witness:
  "\<exists>w'. engine_sync (demo_log_env ''a'') ''f'' (demo_engine deleted_log) = (Inr (), w')
     \<and> tracked w' = [''f'' \<mapsto> \<lparr>tf_head = 1, tf_state = FBinary [] True\<rparr>] \<and> in_flight w' = {}"
proof -
  let ?w = "demo_engine deleted_log" and ?file = "\<lparr>tf_head = 1, tf_state = FBinary [] True\<rparr> :: ustr tracked_file"
  have fields: "tracked ?w = (\<lambda>_. None)" "in_flight ?w = {}" "remote ?w = deleted_log"
    "log_db (store ?w) = Some \<lparr>FILES = [], OPLOG = [], BASELINE_META = [], SYNC_CURSOR = []\<rparr>"
    by (simp_all add: demo_engine_def engine_new_def log_open_def)
  have "create_dir_all status_dir deleted_log = Inr (deleted_log\<lparr>dirs_of := dirs_of deleted_log @ [status_dir]\<rparr>)"
    by (simp add: create_dir_all_def deleted_log_def single_log_def path_prefixes_def fs_exists_def upt_rec status_dir_def
        oplog_dir_def split_path_def)
  then have status: "fst (log_put_status demo_log_codec ''a'' 1 deleted_log) = Inr ()"
    by (simp add: log_put_status_def seq_def bind_apply updating_def write_file_def deleted_log_def single_log_def
        path_prefixes_def status_dir_def oplog_dir_def split_path_def upt_rec)
  have entries: "log_entries demo_log_codec ''f'' deleted_log = Inr [demo_delete ''c'']"
    by (simp add: deleted_log_def log_entries_single plain_client_def demo_log_codec_def parse_with_def demo_delete_decodes)
  have build: "build_binary KeepBoth [demo_delete ''c''] = Inr (?file, False)"
    by (simp add: build_binary_def merge_group_def map_filter_def binary_state_of_def demo_delete_def)
  show ?thesis
    using sync_holds_what_the_log_says [of "demo_log_env ''a''" demo_log_codec ?w
        "\<lparr>FILES = [], OPLOG = [], BASELINE_META = [], SYNC_CURSOR = []\<rparr>" "''f''" "[demo_delete ''c'']" ?file False] status
    by (simp add: fields demo_fields faithful_cache_def cached_log_def entries build is_text_log_def log_delta_def tip_is_forked_def)
      (simp add: demo_delete_def)
qed

section \<open>A raced edit\<close>

definition x_entry :: op_log_entry where
  "x_entry = \<lparr>oe_sequence = 1, oe_client = ''a'', oe_timestamp = 0, oe_change = V1TextDelta [120]\<rparr>"

definition y_entry :: op_log_entry where
  "y_entry = \<lparr>oe_sequence = 2, oe_client = ''b'', oe_timestamp = 0, oe_change = V1TextDelta [121]\<rparr>"

abbreviation x_log :: folder where
  "x_log \<equiv> single_log ''f'' 1 ''a'' (demo_enc_entry x_entry)"

lemma oplog_dir_f [simp]: "oplog_dir ''f'' = [''f'', ''oplogs'']"
  by (simp add: oplog_dir_def split_path_def)

lemma x_log_taken:
  "oe_sequence e = 1 \<Longrightarrow> log_put_oplog_cas cd ''f'' e x_log = (Inl (CasConflict 1), x_log)"
  by (simp add: log_put_oplog_cas_def log_list_oplogs_def reading_def bind_apply list_single_log plain_client_def)

definition xy_log :: folder where
  "xy_log = x_log\<lparr>files_of := fs_write [''f'', ''oplogs'', format_oplog_name 2 ''b''] (demo_enc_entry y_entry) (files_of x_log)\<rparr>"

lemma oplog_name_f: "plain_client c \<Longrightarrow> split_path (format_oplog_name s c) = [format_oplog_name s c]"
  by (intro split_path_plain oplog_name_plain) (simp add: plain_client_def)

lemma x_log_next: "log_put_oplog_cas demo_log_codec ''f'' y_entry x_log = (Inr (), xy_log)"
proof -
  have "create_dir_all [''f'', ''oplogs''] x_log = Inr x_log"
    by (simp add: create_dir_all_def single_log_def path_prefixes_def fs_exists_def upt_rec)
  moreover have "write_file [''f'', ''oplogs'', format_oplog_name 2 ''b''] (demo_enc_entry y_entry) x_log = Inr xy_log"
    by (simp add: write_file_def single_log_def path_prefixes_def xy_log_def upt_rec)
  ultimately show ?thesis
    by (simp add: log_put_oplog_cas_def log_list_oplogs_def reading_def bind_apply list_single_log plain_client_def y_entry_def
        write_oplog_def Let_def seq_def updating_def oplog_name_f demo_log_codec_def)
qed

abbreviation no_tables :: log_tables where
  "no_tables \<equiv> \<lparr>FILES = [], OPLOG = [], BASELINE_META = [], SYNC_CURSOR = []\<rparr>"

abbreviation E_b :: "(folder, log_store, ustr) log_env" where
  "E_b \<equiv> demo_log_env ''b''"

lemma decodes:
  "demo_dec_entry (demo_enc_entry x_entry) = Inr x_entry" "demo_dec_entry (demo_enc_entry y_entry) = Inr y_entry"
  by code_simp+

lemma load_x_log:
  assumes "remote w = x_log" and "log_db (store w) = Some no_tables"
  shows "load_entries E_b ''f'' w = (Inr [x_entry], w)"
  using load_entries_folder [OF demo_fields(1,2) assms(2), of "''f''"] assms(1)
  by (simp add: faithful_cache_def cached_log_def demo_fields log_entries_single plain_client_def parse_with_def
      demo_log_codec_def decodes)

lemma no_baselines: "remote w = x_log \<Longrightarrow> load_all_baselines E_b ''f'' w = (Inr [], w)"
proof -
  assume "remote w = x_log"
  moreover have "\<not> path_exists (baseline_dir ''f'') x_log"
    by (simp add: path_exists_def single_log_def path_prefixes_def baseline_dir_def split_path_def fs_exists_def upt_rec)
  ultimately show ?thesis
    by (simp add: load_all_baselines_def bind_apply demo_fields log_list_baselines_def at_remote_reading list_dir_names_def
        map_filter_def)
qed

lemma build_x_log:
  "remote w = x_log \<Longrightarrow> build_text E_b ''f'' [x_entry] w
     = (Inr \<lparr>tf_head = 1, tf_state = FText [120]\<rparr>, w\<lparr>readings := Suc (readings w)\<rparr>)"
  by (simp add: build_text_def bind_apply no_baselines new_doc_def seq_def Let_def demo_fields text_new_def demo_yrs_def
      map_filter_def log_delta_def x_entry_def apply_delta_def)

lemma integrate_x_log:
  assumes "remote w = x_log" and "log_db (store w) = Some no_tables" and "tracked w ''f'' = Some \<lparr>tf_head = h, tf_state = FText doc\<rparr>"
  shows "integrate_remote E_b ''f'' w = (Inr (), w\<lparr>readings := Suc (readings w),
    tracked := (tracked w)(''f'' \<mapsto> \<lparr>tf_head = 1, tf_state = FText [120]\<rparr>)\<rparr>)"
  using assms by (simp add: integrate_remote_def bind_apply load_x_log with_file_def build_x_log set_file_def)

lemma publish_after_race:
  assumes "remote w = x_log" and "log_db (store w) = Some no_tables" and "tracked w ''f'' = Some \<lparr>tf_head = 0, tf_state = FText doc\<rparr>"
  shows "publish_from E_b ''f'' (V1TextDelta [121]) (Suc (Suc n)) w = (Inr y_entry, w\<lparr>readings := Suc (Suc (Suc (readings w))),
    remote := xy_log, tracked := (tracked w)(''f'' \<mapsto> \<lparr>tf_head = 2, tf_state = FText [120]\<rparr>)\<rparr>)"
  using assms x_log_next
  by (simp add: bind_apply engine_head_def make_entry_def log_now_def seq_def attempt_def at_remote_def zoom_def demo_fields
      x_log_taken integrate_x_log log_millis_def y_entry_def with_file_def set_file_def)

definition after_race :: folder where
  "after_race = snd (log_put_status demo_log_codec ''b'' 2 xy_log)"

lemma xy_names: "format_oplog_name 2 ''b'' \<noteq> format_oplog_name 1 ''a''"
proof
  assume "format_oplog_name 2 ''b'' = format_oplog_name 1 ''a''"
  then have "parse_oplog_name (format_oplog_name 2 ''b'') = parse_oplog_name (format_oplog_name 1 ''a'')" by simp
  then show False by (simp add: oplog_name_parses)
qed

lemma xy_status:
  "log_put_status demo_log_codec ''b'' 2 xy_log = (Inr (), after_race)"
  "files_of after_race = ([''clients_status'', ''b.status''], [2]) # files_of xy_log"
  "dirs_of after_race = [[], [''f''], [''f'', ''oplogs''], [''clients_status'']]"
  by (simp_all add: after_race_def log_put_status_def seq_def bind_apply updating_def create_dir_all_def status_dir_def
      path_prefixes_def fs_exists_def xy_log_def single_log_def fs_write_def write_file_def split_path_def upt_rec
      demo_log_codec_def xy_names [symmetric])

lemma list_after_race:
  "list_oplogs_in ''f'' after_race = Inr
     [\<lparr>li_sequence = 2, li_client = ''b'', li_path = format_oplog_name 2 ''b''\<rparr>,
      \<lparr>li_sequence = 1, li_client = ''a'', li_path = format_oplog_name 1 ''a''\<rparr>]"
proof -
  have "read_dir [''f'', ''oplogs''] after_race = Inr [format_oplog_name 2 ''b'', format_oplog_name 1 ''a'']"
    by (simp add: read_dir_def xy_status(2,3) xy_log_def single_log_def fs_write_def xy_names [symmetric])
  with list_formatted [of "''f''" after_race "[(2, ''b''), (1, ''a'')]"] show ?thesis
    by (simp add: xy_status(3) plain_client_def)
qed

lemma log_after_race: "log_entries demo_log_codec ''f'' after_race = Inr [x_entry, y_entry]"
proof -
  have "read_file [''f'', ''oplogs'', format_oplog_name 1 ''a''] after_race = Inr (demo_enc_entry x_entry)"
    "read_file [''f'', ''oplogs'', format_oplog_name 2 ''b''] after_race = Inr (demo_enc_entry y_entry)"
    by (simp_all add: read_file_def xy_status(2,3) xy_log_def single_log_def fs_write_def xy_names xy_names [symmetric])
  then show ?thesis
    by (simp add: log_entries_def list_after_race sort_items_def less_prod_def read_entry_def entry_path_def oplog_name_f plain_client_def
        parse_with_def demo_log_codec_def decodes)
qed


end
