(* ===== verification/Log_Truncate.thy ===== *)
theory Log_Truncate
  imports Log_Sync
begin

text \<open>
  Truncation of a binary file: which entries go, and that a file whose log is not forked keeps its state
  when at least one version is kept. A text file leaves a baseline behind; a binary file leaves nothing,
  so truncating it to zero versions loses it.
\<close>

section \<open>Replaying an unforked log\<close>

definition unforked :: "op_log_entry list \<Rightarrow> bool" where
  "unforked entries \<longleftrightarrow> sorted_wrt (<) (map oe_sequence entries)"

lemma group_unforked: "unforked es \<Longrightarrow> group_entries es = map (\<lambda>e. [e]) es"
proof (induction es rule: group_entries.induct)
  case (2 e es)
  then have "\<forall>x \<in> set es. oe_sequence x \<noteq> oe_sequence e" by (auto simp: unforked_def)
  then have "takeWhile (\<lambda>x. oe_sequence x = oe_sequence e) es = []" "dropWhile (\<lambda>x. oe_sequence x = oe_sequence e) es = es"
    by (cases es; simp)+
  with 2 show ?case by (simp add: unforked_def)
qed simp

lemma merge_single: "binary_state_of e = Some st \<Longrightarrow> merge_group policy (cur, h, c) [e] = Inr (st, max h (oe_sequence e), c)"
  by (simp add: merge_group_def map_filter_def)

lemma replay_unforked:
  assumes "\<forall>e \<in> set es. binary_state_of e \<noteq> None" and "unforked es" and "\<forall>e \<in> set es. h \<le> oe_sequence e" and "es \<noteq> []"
  shows "fold_result (merge_group policy) (cur, h, c) (map (\<lambda>e. [e]) es)
    = Inr (the (binary_state_of (last es)), oe_sequence (last es), c)"
  using assms
proof (induction es arbitrary: cur h)
  case (Cons e es)
  from Cons.prems(1) obtain st where st: "binary_state_of e = Some st" by auto
  have head: "max h (oe_sequence e) = oe_sequence e" using Cons.prems(3) by (simp add: max_def)
  show ?case
  proof (cases "es = []")
    case True
    then show ?thesis by (simp add: merge_single [OF st] head st)
  next
    case False
    have "fold_result (merge_group policy) (st, oe_sequence e, c) (map (\<lambda>e. [e]) es)
        = Inr (the (binary_state_of (last es)), oe_sequence (last es), c)"
      using Cons.prems False by (intro Cons.IH) (auto simp: unforked_def)
    with False show ?thesis by (simp add: merge_single [OF st] head st)
  qed
qed simp

lemma build_unforked:
  assumes "\<forall>e \<in> set es. binary_state_of e \<noteq> None" and "unforked es" and "es \<noteq> []"
  shows "build_binary policy es = Inr (\<lparr>tf_head = oe_sequence (last es),
    tf_state = FBinary (unwrap_or [] (the (binary_state_of (last es)))) (the (binary_state_of (last es)) = None)\<rparr>, False)"
  using assms by (simp add: build_binary_def group_unforked replay_unforked)

lemma binary_log_states: "\<not> is_text_log es \<Longrightarrow> e \<in> set es \<Longrightarrow> binary_state_of e \<noteq> None"
  by (auto simp: is_text_log_def list_ex_iff log_delta_def binary_state_of_def split: change_type.splits)

lemma build_suffix:
  assumes "\<not> is_text_log es" and "unforked es" and "es \<noteq> []" and "k < oe_sequence (last es)"
  shows "build_binary policy (filter (\<lambda>e. k < oe_sequence e) es) = build_binary policy es"
proof -
  let ?fs = "filter (\<lambda>e. k < oe_sequence e) es"
  obtain pre where pre: "es = pre @ [last es]" using assms(3) by (metis append_butlast_last_id)
  then have "?fs = filter (\<lambda>e. k < oe_sequence e) pre @ [last es]" using assms(4) by (metis filter.simps filter_append)
  then have last: "last ?fs = last es" and ne: "?fs \<noteq> []" by simp_all
  have "unforked ?fs" using assms(2) by (simp add: unforked_def sorted_wrt_map sorted_wrt_filter)
  then show ?thesis using assms binary_log_states [OF assms(1)] last ne
    by (subst (1 2) build_unforked) simp_all
qed

section \<open>Deleting the covered objects\<close>

definition without :: "path set \<Rightarrow> folder \<Rightarrow> folder" where
  "without P f = f\<lparr>files_of := filter (\<lambda>q. fst q \<notin> P) (files_of f)\<rparr>"

lemma without_simps [simp]: "dirs_of (without P f) = dirs_of f"
  "map_of (files_of (without P f)) p = (if p \<in> P then None else map_of (files_of f) p)"
  using map_of_filter_key [of "\<lambda>p. p \<notin> P" "files_of f" p] by (auto simp: without_def)

lemma map_of_removed: "map_of (fs_remove p fs) q = (if q = p then None else map_of fs q)"
  by (induction fs) (auto simp: fs_remove_def)

lemma without_path_exists: "p \<in> set (dirs_of f) \<Longrightarrow> path_exists p (without P f)"
  by (simp add: path_exists_def)

text \<open>A tree as a file system has it: every path is there once, as a file or as a directory, and names have
  no slash.\<close>

definition tree_paths :: "folder \<Rightarrow> path list" where
  "tree_paths f = map fst (files_of f) @ dirs_of f"

definition tree_ok :: "folder \<Rightarrow> bool" where
  "tree_ok f \<longleftrightarrow> folder_ok f \<and> distinct (tree_paths f) \<and> (\<forall>p \<in> set (tree_paths f). p \<noteq> [] \<longrightarrow> plain_name (last p))"

lemma read_file_Inr: "read_file p f = Inr b \<longleftrightarrow> map_of (files_of f) p = Some b"
  by (auto simp: read_file_def split: option.splits)

lemma delete_step:
  assumes "tree_ok f" and "map_of (files_of f) (oplog_dir fid @ [name]) \<noteq> None" and "plain_name name"
  shows "log_delete_oplog fid name f = (Inr (), without {oplog_dir fid @ [name]} f)"
proof -
  have "{p. p \<noteq> oplog_dir fid @ [name]} = - {oplog_dir fid @ [name]}" by auto
  with assms show ?thesis
    by (simp add: log_delete_oplog_def updating_def remove_file_def fs_exists_def split_path_plain without_def fs_remove_def)
qed

lemma tree_ok_without: "tree_ok f \<Longrightarrow> tree_ok (without P f)"
  by (auto simp: tree_ok_def folder_ok_def without_def tree_paths_def distinct_map_filter)

lemma without_without: "without P (without Q f) = without (P \<union> Q) f"
  by (simp add: without_def conj_commute)

lemma delete_loop:
  assumes "tree_ok f" and "distinct (map li_path items)"
    and "\<forall>i \<in> set items. plain_name (li_path i) \<and> map_of (files_of f) (oplog_dir fid @ [li_path i]) \<noteq> None"
  shows "for_each items (\<lambda>i. log_delete_oplog fid (li_path i)) f
    = (Inr (), without ((\<lambda>i. oplog_dir fid @ [li_path i]) ` set items) f)"
  using assms
proof (induction items arbitrary: f)
  case (Cons i items)
  let ?g = "without {oplog_dir fid @ [li_path i]} f"
  have "for_each items (\<lambda>i. log_delete_oplog fid (li_path i)) ?g
      = (Inr (), without ((\<lambda>i. oplog_dir fid @ [li_path i]) ` set items) ?g)"
  proof (rule Cons.IH)
    show "tree_ok ?g" by (rule tree_ok_without [OF Cons.prems(1)])
    have "li_path j \<noteq> li_path i" if "j \<in> set items" for j using Cons.prems(2) that
      by (simp add: image_iff) metis
    then show "\<forall>j \<in> set items. plain_name (li_path j) \<and> map_of (files_of ?g) (oplog_dir fid @ [li_path j]) \<noteq> None"
      using Cons.prems(3) by simp
  qed (use Cons.prems(2) in simp)
  then show ?case using Cons.prems delete_step [of f fid "li_path i"]
    by (simp add: seq_def bind_apply without_without)
qed (simp add: without_def)

lemma for_each_at_remote:
  "for_each xs (\<lambda>x. at_remote (m x)) w = (case for_each xs m (remote w) of (r, s) \<Rightarrow> (r, w\<lparr>remote := s\<rparr>))"
proof (induction xs arbitrary: w)
  case (Cons x xs)
  then show ?case by (auto simp: seq_def bind_apply at_remote_def zoom_def split: prod.splits sum.splits)
qed simp

section \<open>What is left of the log\<close>

lemma names_without:
  assumes "d \<in> set (dirs_of f)" and "\<forall>p \<in> P. p \<notin> set (dirs_of f)"
    and "read_dir d f = Inr names"
  shows "read_dir d (without P f) = Inr (filter (\<lambda>n. d @ [n] \<notin> P) names)"
proof -
  let ?Q = "\<lambda>p. p \<noteq> [] \<and> butlast p = d"
  let ?all = "map fst (files_of f) @ dirs_of f"
  have "map fst (files_of (without P f)) @ dirs_of f = filter (\<lambda>p. p \<notin> P) ?all"
  proof -
    have "filter (\<lambda>p. p \<notin> P) (dirs_of f) = dirs_of f" using assms(2) by (auto simp: filter_id_conv)
    then show ?thesis by (simp add: without_def filter_map comp_def)
  qed
  moreover have "map last (filter ?Q (filter (\<lambda>p. p \<notin> P) xs)) = filter (\<lambda>n. d @ [n] \<notin> P) (map last (filter ?Q xs))" for xs
  proof -
    have "d @ [last p] = p" if "?Q p" for p using that by (metis append_butlast_last_id)
    then show ?thesis by (induction xs) auto
  qed
  ultimately show ?thesis using assms(1,3) by (auto simp: read_dir_def)
qed

lemma collect_filter:
  assumes "collect_result f xs = Inr ys" and "\<And>x y. x \<in> set xs \<Longrightarrow> f x = Inr y \<Longrightarrow> P x = Q y"
  shows "collect_result f (filter P xs) = Inr (filter Q ys)"
  using assms by (induction xs arbitrary: ys) fastforce+

lemma listed_names:
  assumes "tree_ok f" and "d \<in> set (dirs_of f)" and "read_dir d f = Inr names"
  shows "distinct names" and "\<forall>n \<in> set names. plain_name n"
proof -
  let ?ps = "filter (\<lambda>p. p \<noteq> [] \<and> butlast p = d) (tree_paths f)"
  have names: "names = map last ?ps" using assms(2,3) by (simp add: read_dir_def tree_paths_def)
  have "inj_on last (set ?ps)" by (auto simp: inj_on_def) (metis append_butlast_last_id)
  then show "distinct names" using assms(1) by (simp add: names distinct_map tree_ok_def)
  show "\<forall>n \<in> set names. plain_name n" using assms(1) by (auto simp: names tree_ok_def)
qed

lemma items_of_names:
  assumes "collect_result log_item names = Inr items"
  shows "map li_path items = names" and "\<forall>i \<in> set items. log_item (li_path i) = Inr i"
proof -
  have path: "log_item n = Inr i \<Longrightarrow> li_path i = n" for n i by (auto simp: log_item_def)
  show "map li_path items = names" using assms path by (induction names arbitrary: items) fastforce+
  then show "\<forall>i \<in> set items. log_item (li_path i) = Inr i"
    using assms path by (induction names arbitrary: items) fastforce+
qed

lemma listing_facts:
  assumes "tree_ok f" and "list_oplogs_in fid f = Inr items"
  shows "distinct (map li_path items)" and "\<forall>i \<in> set items. plain_name (li_path i) \<and> log_item (li_path i) = Inr i"
proof -
  have "distinct (map li_path items) \<and> (\<forall>i \<in> set items. plain_name (li_path i) \<and> log_item (li_path i) = Inr i)"
  proof (cases "path_exists (oplog_dir fid) f")
    case True
    with assms(2) obtain names where names: "read_dir (oplog_dir fid) f = Inr names"
      "collect_result log_item (filter (\<lambda>n. strip_suffix (''.'' @ OPLOG_EXT) n \<noteq> None) names) = Inr items"
      by (auto simp: list_oplogs_in_def list_dir_names_def)
    from names(1) have "oplog_dir fid \<in> set (dirs_of f)" by (simp add: read_dir_def split: if_splits)
    note listed = listed_names [OF assms(1) this names(1)]
    have "li_path i \<in> set names" if "i \<in> set items" for i
    proof -
      have "li_path i \<in> set (map li_path items)" using that by simp
      then show ?thesis by (simp add: items_of_names(1) [OF names(2)])
    qed
    with listed items_of_names [OF names(2)] show ?thesis by simp
  next
    case False
    with assms(2) show ?thesis by (simp add: list_oplogs_in_def list_dir_names_def)
  qed
  then show "distinct (map li_path items)" "\<forall>i \<in> set items. plain_name (li_path i) \<and> log_item (li_path i) = Inr i" by auto
qed

text \<open>Each object is stored under the sequence it carries.\<close>

definition names_agree :: "log_codec \<Rightarrow> string \<Rightarrow> folder \<Rightarrow> bool" where
  "names_agree cd fid f \<longleftrightarrow> (\<forall>items. list_oplogs_in fid f = Inr items \<longrightarrow>
     (\<forall>i \<in> set items. \<forall>e. read_entry cd fid f i = Inr e \<longrightarrow> oe_sequence e = li_sequence i))"

definition covered_paths :: "string \<Rightarrow> u64 \<Rightarrow> remote_log_item list \<Rightarrow> path set" where
  "covered_paths fid k items = (\<lambda>i. oplog_dir fid @ [li_path i]) ` set (filter (\<lambda>i. li_sequence i \<le> k) items)"

lemma entry_path_plain: "plain_name (li_path i) \<Longrightarrow> entry_path fid i = oplog_dir fid @ [li_path i]"
  by (simp add: entry_path_def split_path_plain)

lemma covered_iff:
  assumes "tree_ok f" and "list_oplogs_in fid f = Inr items" and "log_item n = Inr i"
    and "i \<in> set items"
  shows "oplog_dir fid @ [n] \<in> covered_paths fid k items \<longleftrightarrow> li_sequence i \<le> k"
proof -
  have n: "li_path i = n" using assms(3) by (auto simp: log_item_def)
  have "inj_on li_path (set items)" using listing_facts(1) [OF assms(1,2)] by (simp add: distinct_map)
  then have same: "j = i" if "j \<in> set items" "li_path j = n" for j
    using that n assms(4) by (simp add: inj_on_def)
  show ?thesis
  proof
    assume "oplog_dir fid @ [n] \<in> covered_paths fid k items"
    then obtain j where "j \<in> set items" "li_path j = n" "li_sequence j \<le> k" by (auto simp: covered_paths_def)
    with same show "li_sequence i \<le> k" by blast
  qed (use assms(4) n in \<open>auto simp: covered_paths_def\<close>)
qed

lemma entries_are_files:
  assumes "tree_ok f" and "list_oplogs_in fid f = Inr items" and "log_entries cd fid f = Inr entries" and "i \<in> set items"
  shows "\<exists>b. map_of (files_of f) (oplog_dir fid @ [li_path i]) = Some b"
proof -
  have "collect_result (read_entry cd fid f) (sort_items items) = Inr entries"
    using assms(2,3) by (simp add: log_entries_def)
  moreover have "i \<in> set (sort_items items)" using assms(4) by (simp add: sort_items_def)
  ultimately obtain e where "read_entry cd fid f i = Inr e" using collect_result_mem by metis
  then show ?thesis using listing_facts(2) [OF assms(1,2)] assms(4)
    by (auto simp: read_entry_def entry_path_plain read_file_Inr)
qed

lemma list_truncated:
  assumes "tree_ok f" and "list_oplogs_in fid f = Inr items" and "log_entries cd fid f = Inr entries"
  shows "list_oplogs_in fid (without (covered_paths fid k items) f) = Inr (filter (\<lambda>i. k < li_sequence i) items)"
proof (cases "oplog_dir fid \<in> set (dirs_of f)")
  case True
  let ?P = "covered_paths fid k items"
  let ?ext = "\<lambda>n. strip_suffix (''.'' @ OPLOG_EXT) n \<noteq> None"
  from True assms(2) obtain names where names: "read_dir (oplog_dir fid) f = Inr names"
    "collect_result log_item (filter ?ext names) = Inr items"
    by (auto simp: list_oplogs_in_def list_dir_names_def path_exists_def)
  have "p \<in> fst ` set (files_of f)" if "p \<in> ?P" for p
  proof -
    from that obtain i where "i \<in> set items" "p = oplog_dir fid @ [li_path i]" by (auto simp: covered_paths_def)
    with entries_are_files [OF assms] obtain b where "map_of (files_of f) p = Some b" by blast
    then show ?thesis by (metis fst_conv imageI map_of_SomeD)
  qed
  then have "\<forall>p \<in> ?P. p \<notin> set (dirs_of f)" using assms(1) by (force simp: tree_ok_def tree_paths_def)
  from names_without [OF True this names(1)]
  have left: "read_dir (oplog_dir fid) (without ?P f) = Inr (filter (\<lambda>n. oplog_dir fid @ [n] \<notin> ?P) names)" .
  have "collect_result log_item (filter (\<lambda>n. oplog_dir fid @ [n] \<notin> ?P) (filter ?ext names))
      = Inr (filter (\<lambda>i. k < li_sequence i) items)"
  proof (rule collect_filter [OF names(2)])
    fix n i assume "n \<in> set (filter ?ext names)" and "log_item n = Inr i"
    moreover from this have "i \<in> set items" using collect_result_mem [OF names(2)] by fastforce
    ultimately show "(oplog_dir fid @ [n] \<notin> ?P) = (k < li_sequence i)"
      using covered_iff [OF assms(1,2)] by (simp add: not_le)
  qed
  then show ?thesis using True
    by (simp add: list_oplogs_in_def list_dir_names_def path_exists_def left conj_commute)
next
  case False
  with assms(2) have "items = []" by (auto simp: list_oplogs_in_def list_dir_names_def read_dir_def split: if_splits)
  then have "without (covered_paths fid k items) f = f" by (simp add: without_def covered_paths_def)
  with \<open>items = []\<close> assms(2) show ?thesis by simp
qed

lemma log_truncated:
  assumes "tree_ok f" and "list_oplogs_in fid f = Inr items" and "log_entries cd fid f = Inr entries" and "names_agree cd fid f"
  shows "log_entries cd fid (without (covered_paths fid k items) f) = Inr (filter (\<lambda>e. k < oe_sequence e) entries)"
proof -
  let ?g = "without (covered_paths fid k items) f"
  have all: "collect_result (read_entry cd fid f) (sort_items items) = Inr entries"
    using assms(2,3) by (simp add: log_entries_def)
  have mem: "set (sort_items items) = set items" by (simp add: sort_items_def)
  have "collect_result (read_entry cd fid f) (filter (\<lambda>i. k < li_sequence i) (sort_items items))
      = Inr (filter (\<lambda>e. k < oe_sequence e) entries)"
    using assms(2,4) by (intro collect_filter [OF all]) (auto simp: names_agree_def mem)
  moreover have "read_entry cd fid ?g i = read_entry cd fid f i" if "i \<in> set items" "k < li_sequence i" for i
  proof -
    have i: "plain_name (li_path i)" "log_item (li_path i) = Inr i" using listing_facts(2) [OF assms(1,2)] that(1) by auto
    note stored = entries_are_files [OF assms(1-3) that(1)]
    from stored obtain b where b: "map_of (files_of f) (oplog_dir fid @ [li_path i]) = Some b" by blast
    have "oplog_dir fid @ [li_path i] \<notin> covered_paths fid k items"
      using covered_iff [OF assms(1,2) i(2) that(1), of k] that(2) by simp
    with b show ?thesis by (simp add: read_entry_def entry_path_plain [OF i(1)] read_file_def)
  qed
  then have "collect_result (read_entry cd fid ?g) (filter (\<lambda>i. k < li_sequence i) (sort_items items))
      = collect_result (read_entry cd fid f) (filter (\<lambda>i. k < li_sequence i) (sort_items items))"
    by (intro collect_result_cong) (auto simp: mem)
  moreover have "sort_items (filter (\<lambda>i. k < li_sequence i) items) = filter (\<lambda>i. k < li_sequence i) (sort_items items)"
    by (simp add: sort_items_def filter_sort)
  ultimately show ?thesis by (simp add: log_entries_def list_truncated [OF assms(1-3)])
qed

section \<open>The method\<close>

lemma latest_unforked:
  assumes "unforked es" and "es \<noteq> []"
  shows "Max (set (map oe_sequence es)) = oe_sequence (last es)"
proof (rule Max_eqI)
  fix s assume "s \<in> set (map oe_sequence es)"
  with increasing_le_last [of "map oe_sequence es" s] assms show "s \<le> oe_sequence (last es)"
    by (simp add: unforked_def last_map)
qed (use assms in auto)

lemma cut_below_last:
  assumes "unforked es" and "es \<noteq> []" and "1 \<le> n" and "truncation_cut es statuses n \<noteq> 0"
  shows "truncation_cut es statuses n < oe_sequence (last es)"
proof -
  let ?l = "oe_sequence (last es)"
  have le: "truncation_cut es statuses n \<le> sat_sub ?l n"
    unfolding truncation_cut_def Let_def latest_unforked [OF assms(1,2)] by (rule min.cobounded1)
  with assms(4) have "sat_sub ?l n \<noteq> 0" by (auto simp: word_le_0_iff)
  then have nl: "n \<le> ?l" by (auto simp: sat_sub_def split: if_splits)
  have "n \<noteq> 0" using assms(3) by auto
  then have "0 < unat n" by (metis gr0I unsigned_eq_0_iff)
  then have "?l - n < ?l" using nl by (simp add: word_less_nat_alt word_le_nat_alt unat_sub)
  with le nl show ?thesis by (simp add: sat_sub_def)
qed

lemma truncate_runs:
  assumes "log_rem E = folder_log cd" and "log_sto E = redb_log" and "log_db (store w) = Some db" and "bt_ok (OPLOG db)"
    and "faithful_cache db f (remote w)" and "tree_ok (remote w)" and "list_oplogs_in f (remote w) = Inr items"
    and "log_entries (log_json E) f (remote w) = Inr entries" and "entries \<noteq> []" and "\<not> is_text_log entries"
    and "fst (log_list_statuses cd (remote w)) = Inr statuses" and "truncation_cut entries statuses n = k"
  shows "\<exists>r w'. truncate_file_history E f n w = (Inr r, w')
    \<and> remote w' = (if k = 0 then remote w else without (covered_paths f k items) (remote w))"
proof -
  have st: "log_list_statuses cd (remote w) = (Inr statuses, remote w)"
    using assms(11) by (simp add: log_list_statuses_def reading_def)
  have load: "load_entries E f w = (Inr entries, w)" using load_entries_folder [OF assms(1-5)] assms(8) by simp
  let ?covered = "filter (\<lambda>i. li_sequence i \<le> k) (sort_items items)"
  have set: "set ?covered = set (filter (\<lambda>i. li_sequence i \<le> k) items)" by (simp add: sort_items_def)
  have "for_each ?covered (\<lambda>i. log_delete_oplog f (li_path i)) (remote w)
      = (Inr (), without ((\<lambda>i. oplog_dir f @ [li_path i]) ` set ?covered) (remote w))"
  proof (rule delete_loop [OF assms(6)])
    have "distinct (map li_path (sort_items items))"
      using listing_facts(1) [OF assms(6,7)] by (simp add: sort_items_def distinct_map)
    then show "distinct (map li_path ?covered)" by (rule distinct_map_filter)
    show "\<forall>i \<in> set ?covered. plain_name (li_path i) \<and> map_of (files_of (remote w)) (oplog_dir f @ [li_path i]) \<noteq> None"
      using listing_facts(2) [OF assms(6,7)] entries_are_files [OF assms(6-8)]
      by (auto simp: sort_items_def)
  qed
  then have run: "for_each ?covered (\<lambda>i. at_remote (log_delete_oplog f (li_path i))) w
      = (Inr (), w\<lparr>remote := without (covered_paths f k items) (remote w)\<rparr>)"
    unfolding covered_paths_def set [symmetric] by (simp add: for_each_at_remote)
  show ?thesis
    using assms(1-3,7,9,10) st load run
    by (auto simp: truncate_file_history_def bind_apply at_remote_def zoom_def assms(12) Let_def seq_def log_list_oplogs_def
        reading_def at_store_def log_commit_truncation_def log_write_def log_with_db_def)
qed

text \<open>C39. Truncation keeps a binary file: when at least one version is kept and the log is not forked, the
  truncation succeeds and replaying what is left of the log gives the state that replaying all of it gave.\<close>

theorem truncation_keeps_binary_state:
  assumes "log_rem E = folder_log cd" and "log_sto E = redb_log" and "log_db (store w) = Some db" and "bt_ok (OPLOG db)"
    and "faithful_cache db f (remote w)" and "tree_ok (remote w)" and "names_agree (log_json E) f (remote w)"
    and "log_entries (log_json E) f (remote w) = Inr entries" and "\<not> is_text_log entries" and "unforked entries"
    and "fst (log_list_statuses cd (remote w)) = Inr statuses" and "1 \<le> n"
  shows "\<exists>r w' rest. truncate_file_history E f n w = (Inr r, w') \<and> log_entries (log_json E) f (remote w') = Inr rest
    \<and> build_binary policy rest = build_binary policy entries"
proof -
  obtain items where items: "list_oplogs_in f (remote w) = Inr items" using assms(8) by (auto simp: log_entries_def)
  show ?thesis
  proof (cases "entries = []")
    case True
    with load_entries_folder [OF assms(1-5)] assms(8) show ?thesis
      by (auto simp: truncate_file_history_def bind_apply)
  next
    case False
    define k where "k = truncation_cut entries statuses n"
    from truncate_runs [OF assms(1-6) items assms(8) False assms(9,11) k_def [symmetric]]
    obtain r w' where run: "truncate_file_history E f n w = (Inr r, w')"
      "remote w' = (if k = 0 then remote w else without (covered_paths f k items) (remote w))" by blast
    show ?thesis
    proof (cases "k = 0")
      case True
      with run assms(8) show ?thesis by (cases r) auto
    next
      case cut: False
      have "k < oe_sequence (last entries)"
        using cut_below_last [OF assms(10) False assms(12)] cut by (simp add: k_def)
      note build_suffix [OF assms(9,10) False this, of policy]
      with run cut log_truncated [OF assms(6) items assms(8,7), of k] show ?thesis by (cases r) auto
    qed
  qed
qed

definition delete_entry :: "u64 \<Rightarrow> string \<Rightarrow> op_log_entry" where
  "delete_entry s c = \<lparr>oe_sequence = s, oe_client = c, oe_timestamp = 0, oe_change = V1Delete\<rparr>"

definition pair_log :: folder where
  "pair_log = \<lparr>files_of = [([''f'', ''oplogs'', format_oplog_name 1 ''a''], demo_enc_entry (delete_entry 1 ''a'')),
      ([''f'', ''oplogs'', format_oplog_name 2 ''c''], demo_enc_entry (delete_entry 2 ''c''))],
    dirs_of = [[], [''f''], [''f'', ''oplogs'']]\<rparr>"

lemma pair_names: "format_oplog_name 1 ''a'' \<noteq> format_oplog_name 2 ''c''"
  using oplog_name_parses [of "''a''" 1] oplog_name_parses [of "''c''" 2] by force

lemma delete_entry_decodes: "demo_dec_entry (demo_enc_entry (delete_entry 1 ''a'')) = Inr (delete_entry 1 ''a'')"
  "demo_dec_entry (demo_enc_entry (delete_entry 2 ''c'')) = Inr (delete_entry 2 ''c'')"
  by code_simp+

lemma pair_listed: "list_oplogs_in ''f'' pair_log = Inr
    [\<lparr>li_sequence = 1, li_client = ''a'', li_path = format_oplog_name 1 ''a''\<rparr>,
     \<lparr>li_sequence = 2, li_client = ''c'', li_path = format_oplog_name 2 ''c''\<rparr>]"
  using list_formatted [of "''f''" pair_log "[(1, ''a''), (2, ''c'')]"]
  by (simp add: read_dir_def pair_log_def plain_client_def)

lemma pair_read:
  "read_entry demo_log_codec ''f'' pair_log \<lparr>li_sequence = 1, li_client = ''a'', li_path = format_oplog_name 1 ''a''\<rparr>
     = Inr (delete_entry 1 ''a'')"
  "read_entry demo_log_codec ''f'' pair_log \<lparr>li_sequence = 2, li_client = ''c'', li_path = format_oplog_name 2 ''c''\<rparr>
     = Inr (delete_entry 2 ''c'')"
  using pair_names
  by (simp_all add: read_entry_def entry_path_def oplog_name_f plain_client_def read_file_def pair_log_def parse_with_def
      demo_log_codec_def delete_entry_decodes)

lemma pair_entries: "log_entries demo_log_codec ''f'' pair_log = Inr [delete_entry 1 ''a'', delete_entry 2 ''c'']"
  by (simp add: log_entries_def pair_listed sort_items_def less_prod_def pair_read)

lemma pair_tree: "tree_ok pair_log"
proof -
  have "plain_name (format_oplog_name s c)" if "plain_client c" for s c
    using that by (intro oplog_name_plain) (simp add: plain_client_def)
  then have "plain_name (format_oplog_name 1 ''a'')" "plain_name (format_oplog_name 2 ''c'')" by (simp_all add: plain_client_def)
  moreover have "plain_name ''f''" "plain_name ''oplogs''" by (simp_all add: plain_name_def)
  ultimately show ?thesis using pair_names
    by (simp add: tree_ok_def folder_ok_def tree_paths_def pair_log_def)
qed

lemma pair_agree: "names_agree demo_log_codec ''f'' pair_log"
  by (simp add: names_agree_def pair_listed pair_read delete_entry_def [of 1] delete_entry_def [of 2])

lemma pair_statuses: "fst (log_list_statuses cd pair_log) = Inr []"
  by (simp add: log_list_statuses_def reading_def list_dir_names_def path_exists_def pair_log_def status_dir_def fs_exists_def)

lemma pair_engine:
  "log_db (store (demo_engine pair_log)) = Some \<lparr>FILES = [], OPLOG = [], BASELINE_META = [], SYNC_CURSOR = []\<rparr>"
  "remote (demo_engine pair_log) = pair_log" "faithful_cache \<lparr>FILES = [], OPLOG = [], BASELINE_META = [], SYNC_CURSOR = []\<rparr> f r"
  by (simp_all add: demo_engine_def engine_new_def log_open_def faithful_cache_def cached_log_def)

lemma pair_kind: "\<not> is_text_log [delete_entry 1 ''a'', delete_entry 2 ''c'']" "unforked [delete_entry 1 ''a'', delete_entry 2 ''c'']"
  by (simp_all add: is_text_log_def log_delta_def delete_entry_def unforked_def)

theorem truncation_keeps_binary_state_witness:
  "\<exists>r w' rest. truncate_file_history (demo_log_env ''a'') ''f'' 1 (demo_engine pair_log) = (Inr r, w')
     \<and> log_entries demo_log_codec ''f'' (remote w') = Inr rest
     \<and> build_binary Manual rest = build_binary Manual [delete_entry 1 ''a'', delete_entry 2 ''c'']"
  using truncation_keeps_binary_state [OF demo_fields(1,2) [of "''a''"] pair_engine(1) _ pair_engine(3),
      of "''f''" "[delete_entry 1 ''a'', delete_entry 2 ''c'']" "[]" 1 Manual]
  by (simp add: pair_engine(2) pair_tree pair_agree pair_entries pair_kind pair_statuses demo_fields)

text \<open>C40. Truncation to zero versions loses a binary file: when every client has synced it and no version is
  to be kept, every entry of the log is deleted, and a binary file has no baseline to come back from.\<close>

theorem truncation_to_zero_loses_binary_file:
  assumes "log_rem E = folder_log cd" and "log_sto E = redb_log" and "log_db (store w) = Some db" and "bt_ok (OPLOG db)"
    and "faithful_cache db f (remote w)" and "tree_ok (remote w)" and "names_agree (log_json E) f (remote w)"
    and "log_entries (log_json E) f (remote w) = Inr entries" and "\<not> is_text_log entries" and "unforked entries"
    and "fst (log_list_statuses cd (remote w)) = Inr statuses"
    and "entries \<noteq> []" and "oe_sequence (last entries) \<noteq> 0"
    and "\<forall>s \<in> set statuses. oe_sequence (last entries) \<le> cs_sequence s"
  shows "\<exists>r w'. truncate_file_history E f 0 w = (Inr r, w') \<and> log_entries (log_json E) f (remote w') = Inr []"
proof -
  let ?k = "oe_sequence (last entries)"
  obtain items where items: "list_oplogs_in f (remote w) = Inr items" using assms(8) by (auto simp: log_entries_def)
  have "truncation_cut entries statuses 0 = ?k"
  proof -
    have "statuses \<noteq> [] \<Longrightarrow> ?k \<le> Min (set (map cs_sequence statuses))" using assms(14) by simp
    then show ?thesis unfolding truncation_cut_def Let_def latest_unforked [OF assms(10,12)]
      by (simp add: sat_sub_def min_def)
  qed
  from truncate_runs [OF assms(1-6) items assms(8,12,9,11) this] assms(13)
  obtain r w' where run: "truncate_file_history E f 0 w = (Inr r, w')"
    "remote w' = without (covered_paths f ?k items) (remote w)" by auto
  have "filter (\<lambda>e. ?k < oe_sequence e) entries = []"
  proof -
    have "oe_sequence e \<le> ?k" if "e \<in> set entries" for e
      using increasing_le_last [of "map oe_sequence entries" "oe_sequence e"] assms(10,12) that by (simp add: unforked_def last_map)
    then show ?thesis by (auto simp: filter_empty_conv not_less)
  qed
  with run log_truncated [OF assms(6) items assms(8,7), of ?k] show ?thesis by (cases r) auto
qed

theorem truncation_to_zero_loses_binary_file_witness:
  "\<exists>r w'. truncate_file_history (demo_log_env ''a'') ''f'' 0 (demo_engine pair_log) = (Inr r, w')
     \<and> log_entries demo_log_codec ''f'' (remote w') = Inr []"
  using truncation_to_zero_loses_binary_file [OF demo_fields(1,2) [of "''a''"] pair_engine(1) _ pair_engine(3),
      of "''f''" "[delete_entry 1 ''a'', delete_entry 2 ''c'']" "[]"]
  by (simp add: pair_engine(2) pair_tree pair_agree pair_entries pair_kind pair_statuses demo_fields)
    (simp add: delete_entry_def)

end
