(* ===== verification/Known_Defects.thy ===== *)
theory Known_Defects
  imports Text_Download Log_Cache
begin

text \<open>
  Defects of the code that need no theory of their own, each as a theorem about the operation that has it:
  a merge conflict that a run reports as complete, a refresh that counts events twice after a failed load,
  and v1 files in subdirectories, which are never listed.
\<close>

section \<open>A refused merge\<close>

definition text_port :: "unit local_port" where
  "text_port = \<lparr>l_list = (\<lambda>_. ret []),
     l_read = (\<lambda>_. ret [\<lparr>rc_key = demo_key, rc_kind = Text, rc_version = ''v'', rc_data = [99]\<rparr>]), l_apply = (\<lambda>_. ret [])\<rparr>"

definition refusing_policy :: merge_policy where
  "refusing_policy = \<lparr>mp_priority = (\<lambda>_. 0), mp_merge = (\<lambda>_ _ _ _. Inr (MergeConflict ''no''))\<rparr>"

definition merging_env :: "(unit, fs, redb_store, ustr) env" where
  "merging_env =
     \<lparr>client = ''me'', crypt = demo_crypto, yrs_of = demo_yrs, cdc_of = demo_cdc, clock = (\<lambda>_. 5),
      seeds = (\<lambda>_. 0), policy = Some refusing_policy, enc_state = (\<lambda>_. []), dec_state = (\<lambda>_. Inr default_state),
      enc_pack_index = (\<lambda>_. []), utf8_message = (\<lambda>_. []), loc_of = text_port,
      rem_of = folder_port demo_crypto demo_codec, sto_of = redb_port\<rparr>"

lemma merging_env_simps:
  "crypt merging_env = demo_crypto" "yrs_of merging_env = demo_yrs" "seeds merging_env = (\<lambda>_. 0)"
  "policy merging_env = Some refusing_policy" "loc_of merging_env = text_port" "client merging_env = ''me''"
  "rem_of merging_env = folder_port demo_crypto demo_codec" "sto_of merging_env = redb_port" "enc_state merging_env = (\<lambda>_. [])"
  by (simp_all add: merging_env_def)

text \<open>The text has two heads, and the baseline is of neither.\<close>

definition merging_world :: "(unit, fs, redb_store) world" where
  "merging_world =
     \<lparr>rt = demo_texts\<lparr>baselines := [(encoded demo_key, \<lparr>sb_key = demo_key,
          sb_state = BaselinePresent ''b'' ''v'' [''w''], sb_operation = ''o''\<rparr>)], text_states := [(encoded demo_key, [])]\<rparr>,
      lw = (), rw = [], kw = redb_open None, tick = 0, out = [], report = empty_report [], failed = (\<lambda>_. 0), run_events = []\<rparr>"

lemma merging_heads: "commits st = commits demo_texts \<Longrightarrow> heads demo_key st = [''x'', ''y'']"
  by (rule heads_eqI) (auto simp: set_heads resource_commits_def demo_texts_def demo_text_def)

lemma merging_text: "commits st = commits demo_texts \<Longrightarrow> text_doc demo_yrs 0 demo_key st = Inr [97, 98]"
  using demo_text_docs(2) by (simp add: text_doc_def resource_commits_def)

lemma merging_remote:
  assumes "commits st = commits demo_texts"
  shows "remote_state demo_crypto demo_yrs 0 demo_key st = Inr (remote_present ''ab'' 2 [''x'', ''y''])"
proof -
  have "remote_state demo_crypto demo_yrs 0 demo_key st = remote_state demo_crypto demo_yrs 0 demo_key demo_texts"
    unfolding remote_state_def head_changes_def assms merging_heads [OF assms] merging_heads [OF refl]
      merging_text [OF assms] merging_text [OF refl] ..
  then show ?thesis by (simp only: demo_text_remote)
qed

lemma merging_inputs:
  assumes "commits st = commits demo_texts" and "text_states st = text_states (rt merging_world)"
    and "baselines st = baselines (rt merging_world)"
  shows "merge_inputs merging_env st demo_key \<lparr>rc_key = demo_key, rc_kind = Text, rc_version = ''v'', rc_data = [99]\<rparr>
    = Some (refusing_policy, [])"
  using assms by (simp add: merge_inputs_def merging_env_simps merging_world_def merging_heads)

lemma merging_base: "from_baseline_and_deltas demo_yrs 0 (Some []) [] = Inr []"
  by (simp add: from_baseline_and_deltas_def text_new_def apply_delta_def demo_yrs_def)


section \<open>A failed load\<close>

text \<open>Events are counted before their commits are loaded. When the load fails, the cursors stay and the
  count stays too, so the next refresh counts the same events again.\<close>

lemma failed_load_counts_events_again:
  fixes E w d
  defines "count \<equiv> \<lambda>st. foldl (count_event (covered_by (cd_snapshot_cursors d))) st (cd_events d)"
  assumes "r_scan (rem_of E) scopes (cursors (rt w)) (rw w) = (Inr d, rw w)"
    and "\<And>ids. r_load (rem_of E) ids (rw w) = (Inl e, rw w)"
  shows "refresh_remote E scopes w = (Inl e, w\<lparr>rt := count (rt w)\<rparr>)
    \<and> refresh_remote E scopes (w\<lparr>rt := count (rt w)\<rparr>) = (Inl e, w\<lparr>rt := count (count (rt w))\<rparr>)"
proof -
  have "cursors (foldl (count_event cov) st es) = cursors st" for cov st es
    by (induction es arbitrary: st) (simp_all add: count_event_def)
  then have "cursors (count st) = cursors st" for st by (simp add: count_def)
  with assms(2) show ?thesis
    by (simp add: refresh_remote_def bind_apply seq_def get_rt_apply modify_rt_apply on_remote_def zoom_def assms(3)
        count_def [symmetric])
qed

section \<open>Files in subdirectories\<close>

text \<open>A v1 file whose id has a directory in it has a log that can be listed and read, but \<^verbatim>\<open>list_files\<close> looks at
  the top level only. The chunks of such a file are not among the live chunks.\<close>

lemma nested_files_are_not_listed:
  assumes "plain_client c"
  shows "list_oplogs_in ''a/b'' (single_log ''a/b'' s c bs)
      = Inr [\<lparr>li_sequence = s, li_client = c, li_path = format_oplog_name s c\<rparr>]
    \<and> fst (log_list_files (single_log ''a/b'' s c bs)) = Inr []"
proof -
  have dir: "oplog_dir ''a/b'' = [''a'', ''b'', ''oplogs'']" "oplog_dir ''a'' = [''a'', ''oplogs'']"
    by (simp_all add: oplog_dir_def split_path_def)
  have "path_prefixes [''a'', ''b'', ''oplogs''] = [[], [''a''], [''a'', ''b''], [''a'', ''b'', ''oplogs'']]"
    by (simp add: path_prefixes_def upt_rec)
  then have "fst (log_list_files (single_log ''a/b'' s c bs)) = Inr []"
    by (simp add: log_list_files_def reading_def list_dir_names_def read_dir_def single_log_def path_exists_def dir fs_exists_def)
  with list_single_log [OF assms] show ?thesis by simp
qed

end
