(* ===== verification/Crate_Root.thy ===== *)
theory Crate_Root
  imports Durability Log_Backends
begin

text \<open>
  The constructors the crate exports, \<^verbatim>\<open>src/src/lib.rs\<close>: which backends and which conflict policy an engine is
  assembled with. The configuration is the environment, the state of the backends the engine or world. The
  v1 constructors are compiled out with the engine they build.
\<close>

section \<open>The v2 runtime\<close>

definition open_redb_runtime_store :: "(string \<times> bytes) list option \<Rightarrow> redb_store" where
  "open_redb_runtime_store file = redb_open file"

definition new_runtime ::
  "('l, 'r, 'k, 'd) env \<Rightarrow> string \<Rightarrow> 'k store_port \<Rightarrow> 'r remote_port \<Rightarrow> 'l local_port \<Rightarrow> 'k \<Rightarrow> 'r \<Rightarrow> 'l \<Rightarrow>
   sync_error + ('l, 'r, 'k, 'd) env \<times> ('l, 'r, 'k) world" where
  "new_runtime E client_id store_port remote_port local_port k r l =
     (let E' = E\<lparr>client := client_id, policy := None, sto_of := store_port, rem_of := remote_port, loc_of := local_port\<rparr>
      in bind_result (with_backends E' l r k) (\<lambda>w. Inr (E', w)))"

definition with_text_merge_policy ::
  "('l, 'r, 'k, 'd) env \<Rightarrow> string \<Rightarrow> 'k store_port \<Rightarrow> 'r remote_port \<Rightarrow> 'l local_port \<Rightarrow> merge_policy \<Rightarrow> 'k \<Rightarrow> 'r \<Rightarrow> 'l \<Rightarrow>
   sync_error + ('l, 'r, 'k, 'd) env \<times> ('l, 'r, 'k) world" where
  "with_text_merge_policy E client_id store_port remote_port local_port p k r l =
     bind_result (new_runtime E client_id store_port remote_port local_port k r l) (\<lambda>(E', w).
     Inr (E'\<lparr>policy := Some p\<rparr>, w))"

section \<open>The v1 engine\<close>

definition open_redb_store :: "log_tables option \<Rightarrow> log_store" where
  "open_redb_store file = log_open file"

definition open_local_folder_remote :: "folder option \<Rightarrow> folder" where
  "open_local_folder_remote existing = (case existing of None \<Rightarrow> open_folder | Some f \<Rightarrow> f)"

definition new_engine ::
  "('r, 'k, 'd) log_env \<Rightarrow> string \<Rightarrow> 'k log_storage \<Rightarrow> 'r log_remote \<Rightarrow> binary_conflict_policy \<Rightarrow> 'k \<Rightarrow> 'r \<Rightarrow>
   ('r, 'k, 'd) log_env \<times> ('r, 'k, 'd) engine" where
  "new_engine E client_id storage remote_storage binary_policy k r =
     (E\<lparr>log_client := client_id, log_sto := storage, log_rem := remote_storage, log_policy := binary_policy\<rparr>,
      engine_new r k)"

definition new_with_remote ::
  "('r, log_store, 'd) log_env \<Rightarrow> string \<Rightarrow> log_tables option \<Rightarrow> 'r log_remote \<Rightarrow> binary_conflict_policy \<Rightarrow> 'r \<Rightarrow>
   ('r, log_store, 'd) log_env \<times> ('r, log_store, 'd) engine" where
  "new_with_remote E client_id file remote_storage binary_policy r =
     new_engine E client_id redb_log remote_storage binary_policy (log_open file) r"

definition new_local ::
  "(folder, log_store, 'd) log_env \<Rightarrow> string \<Rightarrow> log_tables option \<Rightarrow> folder option \<Rightarrow>
   (folder, log_store, 'd) log_env \<times> (folder, log_store, 'd) engine" where
  "new_local E client_id file existing =
     new_with_remote E client_id file (folder_log (log_json E)) KeepBoth (open_local_folder_remote existing)"

end
